(* ===== verification/Prelude.thy ===== *)
theory Prelude
  imports Main "HOL-Library.AList" "HOL-Library.Sublist"
begin

text \<open>
  What every component of the development shares: the model of Go maps as association lists,
  the error-or-value results, and three interfaces that recur all over the repository, each as a
  locale whose clients are proved once:
  \<^item> \<open>keyed_store\<close>: a collection of records with a lookup, an upsert and a delete by key (the
    agent registry, the policy engine, the quota limiter, the SQLite tables);
  \<^item> \<open>first_match\<close>: a loop over an ordered rule list that stops at the first hit (the policy
    evaluation, the command schema lookup);
  \<^item> \<open>seen_loop\<close>: a loop that keeps a \<open>seen\<close> map and drops later elements with a key it has
    met (the deduplication of plan operations, of addresses, of zone names);
  \<^item> \<open>codec\<close>: an encoder with a decoder that inverts it (base64, the two alphabets).
\<close>

named_theorems go_str "equations and facts on the Go string functions"
named_theorems go_map "equations and facts on Go maps"
named_theorems fs_simps "equations of the file-system operations"

section \<open>Results and Go maps\<close>

type_synonym error = string

text \<open>
  A Go map is an association list with distinct keys. The order of the list stands for the
  iteration order of \<open>range\<close>, which Go leaves unspecified: a theorem about a loop over a map is
  therefore proved for every order of the list.
\<close>

type_synonym ('k, 'v) gomap = "('k \<times> 'v) list"

abbreviation mget :: "('k, 'v) gomap \<Rightarrow> 'k \<Rightarrow> 'v option" where
  "mget m k \<equiv> map_of m k"

abbreviation mput :: "'k \<Rightarrow> 'v \<Rightarrow> ('k, 'v) gomap \<Rightarrow> ('k, 'v) gomap" where
  "mput k v m \<equiv> AList.update k v m"

abbreviation mdel :: "'k \<Rightarrow> ('k, 'v) gomap \<Rightarrow> ('k, 'v) gomap" where
  "mdel k m \<equiv> AList.delete k m"

definition gomap_ok :: "('k, 'v) gomap \<Rightarrow> bool" where
  "gomap_ok m \<longleftrightarrow> distinct (map fst m)"

lemma gomap_ok_nil [simp]: "gomap_ok []"
  by (simp add: gomap_ok_def)

lemma gomap_ok_mput [simp]: "gomap_ok m \<Longrightarrow> gomap_ok (mput k v m)"
  by (simp add: gomap_ok_def distinct_update)

lemma gomap_ok_mdel [simp]: "gomap_ok m \<Longrightarrow> gomap_ok (mdel k m)"
  by (simp add: gomap_ok_def distinct_delete)

lemma mget_mput [simp, go_map]: "mget (mput k v m) k' = (if k' = k then Some v else mget m k')"
  by (simp add: update_conv)

lemma mget_mdel [simp, go_map]: "mget (mdel k m) k' = (if k' = k then None else mget m k')"
  by (simp add: delete_conv)

lemma gomap_ok_mem_iff: "gomap_ok m \<Longrightarrow> (k, v) \<in> set m \<longleftrightarrow> mget m k = Some v"
  by (simp add: gomap_ok_def)

lemma mput_swap_ok:
  "gomap_ok m \<Longrightarrow> (k, v) \<in> set (mput k' v' m) \<longleftrightarrow>
     (if k = k' then v = v' else (k, v) \<in> set m)"
  using gomap_ok_mem_iff [of "mput k' v' m" k v] gomap_ok_mem_iff [of m k v] by auto

text \<open>The order in which a loop visits a map cannot matter to a lookup.\<close>

lemma mget_permute:
  assumes "gomap_ok m" and "gomap_ok m'" and "set m = set m'"
  shows "mget m = mget m'"
proof
  fix k
  show "mget m k = mget m' k"
    using assms gomap_ok_mem_iff [of m k] gomap_ok_mem_iff [of m' k]
    by (metis not_None_eq)
qed

lemma find_SomeD: "find P xs = Some x \<Longrightarrow> P x \<and> x \<in> set xs"
  by (induction xs) (auto split: if_splits)

section \<open>Interface: keyed stores\<close>

locale keyed_store =
  fixes lookup :: "'s \<Rightarrow> 'k \<Rightarrow> 'v option"
    and add :: "'v \<Rightarrow> 's \<Rightarrow> 's"
    and remove :: "'k \<Rightarrow> 's \<Rightarrow> bool \<times> 's"
    and key :: "'v \<Rightarrow> 'k"
    and stored :: "'v \<Rightarrow> 'v"
    and inv :: "'s \<Rightarrow> bool"
  assumes lookup_add: "inv s \<Longrightarrow>
      lookup (add v s) k = (if k = key v then Some (stored v) else lookup s k)"
    and lookup_remove: "inv s \<Longrightarrow>
      lookup (snd (remove k s)) k' = (if k' = k then None else lookup s k')"
    and removed_iff: "inv s \<Longrightarrow> fst (remove k s) \<longleftrightarrow> lookup s k \<noteq> None"
    and inv_add: "inv s \<Longrightarrow> inv (add v s)"
    and inv_remove: "inv s \<Longrightarrow> inv (snd (remove k s))"
begin

lemma get_after_add: "inv s \<Longrightarrow> lookup (add v s) (key v) = Some (stored v)"
  by (simp add: lookup_add)

lemma add_other: "inv s \<Longrightarrow> k \<noteq> key v \<Longrightarrow> lookup (add v s) k = lookup s k"
  by (simp add: lookup_add)

lemma last_add_wins:
  "inv s \<Longrightarrow> key v = key w \<Longrightarrow> lookup (add w (add v s)) k = lookup (add w s) k"
  by (simp add: lookup_add inv_add)

lemma get_after_remove: "inv s \<Longrightarrow> lookup (snd (remove k s)) k = None"
  by (simp add: lookup_remove)

lemma remove_once: "inv s \<Longrightarrow> \<not> fst (remove k (snd (remove k s)))"
  by (simp add: removed_iff inv_remove lookup_remove)

lemma remove_undoes_add:
  "inv s \<Longrightarrow> lookup s (key v) = None \<Longrightarrow>
     lookup (snd (remove (key v) (add v s))) k = lookup s k"
  by (simp add: lookup_remove lookup_add inv_add)

lemma inv_fold_add: "inv s \<Longrightarrow> inv (fold add vs s)"
  by (induction vs arbitrary: s) (auto simp: inv_add)

text \<open>Loading a list of records: the last record with a key is the one a lookup returns.\<close>

lemma lookup_fold_add:
  "inv s \<Longrightarrow> lookup (fold add vs s) k =
     (case find (\<lambda>v. key v = k) (rev vs) of Some v \<Rightarrow> Some (stored v) | None \<Rightarrow> lookup s k)"
proof (induction vs rule: rev_induct)
  case Nil
  then show ?case by simp
next
  case (snoc v vs)
  then show ?case by (auto simp: lookup_add inv_fold_add)
qed

lemma lookup_fold_add_distinct:
  assumes "inv s" and "distinct (map key vs)" and "v \<in> set vs"
  shows "lookup (fold add vs s) (key v) = Some (stored v)"
  using assms
proof (induction vs rule: rev_induct)
  case Nil
  then show ?case by simp
next
  case (snoc w vs)
  show ?case
  proof (cases "v = w")
    case True
    with snoc.prems show ?thesis by (simp add: lookup_add inv_fold_add)
  next
    case False
    with snoc.prems have "v \<in> set vs" and "key v \<noteq> key w" by (auto simp: image_iff)
    with snoc show ?thesis by (simp add: lookup_add inv_fold_add)
  qed
qed

end

section \<open>Interface: first match wins\<close>

locale first_match =
  fixes hit :: "'c \<Rightarrow> 'r \<Rightarrow> bool"
    and out :: "'c \<Rightarrow> 'r \<Rightarrow> 'd"
    and dflt :: "'c \<Rightarrow> 'd"
    and run :: "'c \<Rightarrow> 'r list \<Rightarrow> 'd"
  assumes run_nil: "run c [] = dflt c"
    and run_cons: "run c (r # rs) = (if hit c r then out c r else run c rs)"
begin

lemma run_find:
  "run c rs = (case find (hit c) rs of None \<Rightarrow> dflt c | Some r \<Rightarrow> out c r)"
  by (induction rs) (auto simp: run_nil run_cons)

lemma run_miss: "\<forall>r \<in> set rs. \<not> hit c r \<Longrightarrow> run c rs = dflt c"
  by (induction rs) (auto simp: run_nil run_cons)

lemma run_append:
  "run c (xs @ ys) = (if \<exists>r \<in> set xs. hit c r then run c xs else run c ys)"
  by (induction xs) (auto simp: run_nil run_cons)

lemma run_drop_miss: "\<not> hit c r \<Longrightarrow> run c (xs @ r # ys) = run c (xs @ ys)"
  by (induction xs) (auto simp: run_cons)

lemma run_shadowed:
  "r \<in> set xs \<Longrightarrow> hit c r \<Longrightarrow> run c (xs @ ys) = run c xs"
  by (auto simp: run_append)

lemma run_filter: "run c (filter (hit c) rs) = run c rs"
  by (induction rs) (auto simp: run_nil run_cons)

lemma run_cases:
  "run c rs = dflt c \<and> (\<forall>r \<in> set rs. \<not> hit c r) \<or>
   (\<exists>xs r ys. rs = xs @ r # ys \<and> (\<forall>x \<in> set xs. \<not> hit c x) \<and> hit c r \<and> run c rs = out c r)"
proof (induction rs)
  case Nil
  then show ?case by (simp add: run_nil)
next
  case (Cons r rs)
  show ?case
  proof (cases "hit c r")
    case True
    then have "r # rs = [] @ r # rs \<and> (\<forall>x \<in> set []. \<not> hit c x) \<and> hit c r \<and> run c (r # rs) = out c r"
      by (simp add: run_cons)
    then show ?thesis by blast
  next
    case False
    from Cons.IH show ?thesis
    proof
      assume "run c rs = dflt c \<and> (\<forall>r \<in> set rs. \<not> hit c r)"
      with False show ?thesis by (simp add: run_cons)
    next
      assume "\<exists>xs x ys. rs = xs @ x # ys \<and> (\<forall>x \<in> set xs. \<not> hit c x) \<and> hit c x \<and> run c rs = out c x"
      then obtain xs x ys where "rs = xs @ x # ys" "\<forall>x \<in> set xs. \<not> hit c x" "hit c x"
        "run c rs = out c x" by blast
      with False have "r # rs = (r # xs) @ x # ys \<and> (\<forall>x \<in> set (r # xs). \<not> hit c x) \<and> hit c x \<and>
        run c (r # rs) = out c x" by (simp add: run_cons)
      then show ?thesis by blast
    qed
  qed
qed

end

section \<open>Interface: loops with a seen map\<close>

locale seen_loop =
  fixes skip :: "'a \<Rightarrow> bool"
    and key :: "'a \<Rightarrow> 'k"
    and run :: "'k set \<Rightarrow> 'a list \<Rightarrow> 'a list"
  assumes seen_nil: "run seen [] = []"
    and seen_cons: "run seen (x # xs) =
      (if skip x then run seen xs
       else if key x \<in> seen then run seen xs else x # run (insert (key x) seen) xs)"
begin

abbreviation kept :: "'a list \<Rightarrow> 'a list" where
  "kept xs \<equiv> filter (\<lambda>x. \<not> skip x) xs"

lemma run_keys: "key ` set (run seen xs) = key ` set (kept xs) - seen"
  by (induction xs arbitrary: seen) (auto simp: seen_nil seen_cons)

lemma run_subset: "set (run seen xs) \<subseteq> set (kept xs)"
proof (induction xs arbitrary: seen)
  case (Cons x xs)
  have "set (run (insert (key x) seen) xs) \<subseteq> set (kept xs)" "set (run seen xs) \<subseteq> set (kept xs)"
    using Cons.IH by blast+
  then show ?case by (auto simp: seen_cons)
qed (simp add: seen_nil)

lemma run_distinct_keys: "distinct (map key (run seen xs))"
proof (induction xs arbitrary: seen)
  case Nil
  then show ?case by (simp add: seen_nil)
next
  case (Cons x xs)
  have "key x \<notin> key ` set (run (insert (key x) seen) xs)"
    by (simp add: run_keys)
  with Cons show ?case by (auto simp: seen_cons)
qed

lemma run_subseq: "subseq (run seen xs) xs"
  by (induction xs arbitrary: seen) (auto simp: seen_nil seen_cons)

lemma run_append: "run seen (xs @ ys) = run seen xs @ run (seen \<union> key ` set (kept xs)) ys"
  by (induction xs arbitrary: seen) (auto simp: seen_nil seen_cons insert_absorb)

lemma run_unique: "distinct (map key (kept xs)) \<Longrightarrow> key ` set (kept xs) \<inter> seen = {} \<Longrightarrow> run seen xs = kept xs"
  by (induction xs arbitrary: seen) (auto simp: seen_nil seen_cons)

lemma run_idem: "run {} (run {} xs) = run {} xs"
proof -
  have "kept (run {} xs) = run {} xs" using run_subset [of "{}" xs] by (auto simp: filter_id_conv)
  then show ?thesis using run_unique [of "run {} xs" "{}"] run_distinct_keys [of "{}" xs] by simp
qed

end

section \<open>Interface: codecs\<close>

locale codec =
  fixes enc :: "'a \<Rightarrow> 'b"
    and dec :: "'b \<Rightarrow> 'a option"
  assumes dec_enc: "dec (enc x) = Some x"
begin

lemma enc_inject: "enc x = enc y \<longleftrightarrow> x = y"
  by (metis dec_enc option.inject)

lemma dec_onto: "\<exists>b. dec b = Some x"
  using dec_enc by blast

end

end
