(* ===== verification/Go_Strings.thy ===== *)
theory Go_Strings
  imports Prelude
begin

text \<open>
  The part of Go's standard packages \<open>strings\<close>, \<open>net\<close> and \<open>fmt\<close> that the repository uses.
  A Go string is a sequence of bytes, so a string is a list of HOL characters (8-bit values).
  Prefixes, splitting, trimming by an ASCII set and \<open>TrimSpace\<close> (with the UTF-8 encodings of every
  Unicode white-space rune) are exact on all byte strings. \<open>ToLower\<close> and \<open>ToUpper\<close> are exact on
  ASCII strings; on a string with a byte above 127 Go consults its Unicode tables, which are the
  argument \<open>unicode\<close> of every function that may reach them.
\<close>

section \<open>Bytes and case\<close>

abbreviation byte :: "char \<Rightarrow> nat" where
  "byte c \<equiv> of_char c"

definition is_ascii :: "string \<Rightarrow> bool" where
  "is_ascii s \<longleftrightarrow> list_all (\<lambda>c. byte c < 128) s"

definition lower_char :: "char \<Rightarrow> char" where
  "lower_char c = (if 65 \<le> byte c \<and> byte c \<le> 90 then char_of (byte c + 32) else c)"

definition upper_char :: "char \<Rightarrow> char" where
  "upper_char c = (if 97 \<le> byte c \<and> byte c \<le> 122 then char_of (byte c - 32) else c)"

record unicode =
  uc_lower :: "string \<Rightarrow> string"
  uc_upper :: "string \<Rightarrow> string"

text \<open>Case tables for programs that use ASCII only.\<close>

definition ascii_only :: unicode where
  "ascii_only = \<lparr>uc_lower = (\<lambda>s. s), uc_upper = (\<lambda>s. s)\<rparr>"

definition ToLower :: "unicode \<Rightarrow> string \<Rightarrow> string" where
  "ToLower U s = (if is_ascii s then map lower_char s else uc_lower U s)"

definition ToUpper :: "unicode \<Rightarrow> string \<Rightarrow> string" where
  "ToUpper U s = (if is_ascii s then map upper_char s else uc_upper U s)"

lemma is_ascii_simps [simp]:
  "is_ascii []" "is_ascii (c # s) \<longleftrightarrow> byte c < 128 \<and> is_ascii s"
  "is_ascii (s @ t) \<longleftrightarrow> is_ascii s \<and> is_ascii t"
  by (simp_all add: is_ascii_def)

lemma is_ascii_subset: "set s \<subseteq> set t \<Longrightarrow> is_ascii t \<Longrightarrow> is_ascii s"
  by (auto simp: is_ascii_def list_all_iff)

lemma byte_char_of_small: "n < 256 \<Longrightarrow> byte (char_of n) = n"
  by simp

lemma lower_char_idem [simp]: "lower_char (lower_char c) = lower_char c"
  by (auto simp: lower_char_def byte_char_of_small)

lemma byte_lower_char_ascii [simp]: "byte c < 128 \<Longrightarrow> byte (lower_char c) < 128"
  by (auto simp: lower_char_def byte_char_of_small)

lemma byte_upper_char_ascii [simp]: "byte c < 128 \<Longrightarrow> byte (upper_char c) < 128"
  by (auto simp: upper_char_def byte_char_of_small)

lemma upper_lower_char [simp]: "upper_char (lower_char c) = upper_char c"
  by (auto simp: upper_char_def lower_char_def byte_char_of_small)

lemma is_ascii_ToLower [simp]: "is_ascii s \<Longrightarrow> is_ascii (ToLower U s)"
  by (auto simp: ToLower_def is_ascii_def list_all_iff)

lemma ToLower_idem [simp]: "is_ascii s \<Longrightarrow> ToLower U (ToLower U s) = ToLower U s"
  using is_ascii_ToLower [of s U] by (auto simp: ToLower_def)

lemma ToLower_append: "is_ascii s \<Longrightarrow> is_ascii t \<Longrightarrow> ToLower U (s @ t) = ToLower U s @ ToLower U t"
  by (simp add: ToLower_def)

lemma ToUpper_ToLower [simp]: "is_ascii s \<Longrightarrow> ToUpper U (ToLower U s) = ToUpper U s"
  using is_ascii_ToLower [of s U] by (simp add: ToUpper_def ToLower_def)

section \<open>Prefixes, suffixes, searching\<close>

definition HasPrefix :: "string \<Rightarrow> string \<Rightarrow> bool" where
  "HasPrefix s p \<longleftrightarrow> length p \<le> length s \<and> take (length p) s = p"

definition HasSuffix :: "string \<Rightarrow> string \<Rightarrow> bool" where
  "HasSuffix s p \<longleftrightarrow> length p \<le> length s \<and> drop (length s - length p) s = p"

definition TrimPrefix :: "string \<Rightarrow> string \<Rightarrow> string" where
  "TrimPrefix s p = (if HasPrefix s p then drop (length p) s else s)"

fun IndexByte :: "string \<Rightarrow> char \<Rightarrow> nat option" where
  "IndexByte [] c = None"
| "IndexByte (x # s) c = (if x = c then Some 0 else map_option Suc (IndexByte s c))"

definition LastIndexByte :: "string \<Rightarrow> char \<Rightarrow> nat option" where
  "LastIndexByte s c = map_option (\<lambda>i. length s - 1 - i) (IndexByte (rev s) c)"

fun Contains :: "string \<Rightarrow> string \<Rightarrow> bool" where
  "Contains [] t \<longleftrightarrow> t = []"
| "Contains (c # s) t \<longleftrightarrow> HasPrefix (c # s) t \<or> Contains s t"

lemma HasPrefix_iff [go_str]: "HasPrefix s p \<longleftrightarrow> prefix p s"
  by (metis HasPrefix_def prefix_def append_eq_conv_conj prefix_length_le)

lemma HasPrefix_ex: "HasPrefix s p \<longleftrightarrow> (\<exists>r. s = p @ r)"
  by (simp add: HasPrefix_iff prefix_def)

lemma HasSuffix_iff [go_str]: "HasSuffix s p \<longleftrightarrow> suffix p s"
proof
  assume "HasSuffix s p"
  then have "s = take (length s - length p) s @ p"
    unfolding HasSuffix_def by (metis append_take_drop_id)
  then show "suffix p s" unfolding suffix_def by blast
next
  assume "suffix p s"
  then obtain r where "s = r @ p" by (auto simp: suffix_def)
  then show "HasSuffix s p" by (simp add: HasSuffix_def)
qed

lemma HasSuffix_ex: "HasSuffix s p \<longleftrightarrow> (\<exists>r. s = r @ p)"
  by (simp add: HasSuffix_iff suffix_def)

lemma HasPrefix_append [simp]: "HasPrefix (p @ s) p"
  by (simp add: HasPrefix_def)

lemma HasSuffix_append [simp]: "HasSuffix (s @ p) p"
  by (simp add: HasSuffix_def)

lemma TrimPrefix_append [simp]: "TrimPrefix (p @ s) p = s"
  by (simp add: TrimPrefix_def)

lemma HasPrefix_Cons [simp]: "HasPrefix (x # s) (y # p) \<longleftrightarrow> x = y \<and> HasPrefix s p"
  by (auto simp: HasPrefix_def)

lemma HasPrefix_Nil [simp]: "HasPrefix s []" "HasPrefix [] p \<longleftrightarrow> p = []"
  by (auto simp: HasPrefix_def)

lemma HasPrefix_snoc_absorb:
  "HasPrefix s p \<Longrightarrow> HasPrefix (s @ t) p"
  by (auto simp: HasPrefix_ex)

lemma IndexByte_Some:
  "IndexByte s c = Some i \<Longrightarrow> i < length s \<and> s ! i = c \<and> c \<notin> set (take i s)"
  by (induction s arbitrary: i) (auto split: if_splits simp: nth_Cons')

lemma IndexByte_None [simp]: "IndexByte s c = None \<longleftrightarrow> c \<notin> set s"
  by (induction s) auto

lemma IndexByte_absent [simp]: "c \<notin> set s \<Longrightarrow> IndexByte s c = None"
  by simp

lemma IndexByte_first [simp]: "c \<notin> set s \<Longrightarrow> IndexByte (s @ c # t) c = Some (length s)"
  by (induction s) auto

lemma LastIndexByte_None [simp]: "LastIndexByte s c = None \<longleftrightarrow> c \<notin> set s"
  by (simp add: LastIndexByte_def)

lemma LastIndexByte_absent [simp]: "c \<notin> set s \<Longrightarrow> LastIndexByte s c = None"
  by simp

lemma LastIndexByte_last [simp]: "c \<notin> set t \<Longrightarrow> LastIndexByte (s @ c # t) c = Some (length s)"
proof -
  assume "c \<notin> set t"
  then have "IndexByte (rev t @ c # rev s) c = Some (length t)" by simp
  then show ?thesis by (simp add: LastIndexByte_def)
qed

lemma Contains_iff: "Contains s t \<longleftrightarrow> (\<exists>a b. s = a @ t @ b)"
proof (induction s)
  case Nil
  then show ?case by simp
next
  case (Cons c s)
  show ?case
  proof
    assume "Contains (c # s) t"
    then consider "HasPrefix (c # s) t" | "Contains s t" by auto
    then show "\<exists>a b. c # s = a @ t @ b"
    proof cases
      case 1
      then obtain r where "c # s = [] @ t @ r" by (auto simp: HasPrefix_ex)
      then show ?thesis by blast
    next
      case 2
      then obtain a b where "s = a @ t @ b" using Cons.IH by blast
      then have "c # s = (c # a) @ t @ b" by simp
      then show ?thesis by blast
    qed
  next
    assume "\<exists>a b. c # s = a @ t @ b"
    then obtain a b where ab: "c # s = a @ t @ b" by blast
    show "Contains (c # s) t"
    proof (cases a)
      case Nil
      with ab show ?thesis by (metis Contains.simps(2) HasPrefix_append append_Nil)
    next
      case (Cons d a')
      with ab have "s = a' @ t @ b" by simp
      then have "Contains s t" using Cons.IH by blast
      then show ?thesis by simp
    qed
  qed
qed

lemma Contains_byte: "Contains s [c] \<longleftrightarrow> c \<in> set s"
  unfolding Contains_iff by (metis append_Cons append_Nil in_set_conv_decomp)

section \<open>Trimming\<close>

text \<open>\<open>strings.TrimRight(s, ".")\<close> and \<open>strings.Trim(s, "<>")\<close>: cut sets of ASCII bytes.\<close>

definition TrimRightSet :: "char set \<Rightarrow> string \<Rightarrow> string" where
  "TrimRightSet C s = rev (dropWhile (\<lambda>c. c \<in> C) (rev s))"

definition TrimSet :: "char set \<Rightarrow> string \<Rightarrow> string" where
  "TrimSet C s = TrimRightSet C (dropWhile (\<lambda>c. c \<in> C) s)"

text \<open>The UTF-8 encodings of the runes for which \<open>unicode.IsSpace\<close> holds.\<close>

definition utf8_spaces :: "string list" where
  "utf8_spaces =
    [[CHR 0x20], [CHR 0x09], [CHR 0x0A], [CHR 0x0B], [CHR 0x0C], [CHR 0x0D],
     [CHR 0xC2, CHR 0x85], [CHR 0xC2, CHR 0xA0], [CHR 0xE1, CHR 0x9A, CHR 0x80],
     [CHR 0xE2, CHR 0x80, CHR 0x80], [CHR 0xE2, CHR 0x80, CHR 0x81], [CHR 0xE2, CHR 0x80, CHR 0x82],
     [CHR 0xE2, CHR 0x80, CHR 0x83], [CHR 0xE2, CHR 0x80, CHR 0x84], [CHR 0xE2, CHR 0x80, CHR 0x85],
     [CHR 0xE2, CHR 0x80, CHR 0x86], [CHR 0xE2, CHR 0x80, CHR 0x87], [CHR 0xE2, CHR 0x80, CHR 0x88],
     [CHR 0xE2, CHR 0x80, CHR 0x89], [CHR 0xE2, CHR 0x80, CHR 0x8A], [CHR 0xE2, CHR 0x80, CHR 0xA8],
     [CHR 0xE2, CHR 0x80, CHR 0xA9], [CHR 0xE2, CHR 0x80, CHR 0xAF], [CHR 0xE2, CHR 0x81, CHR 0x9F],
     [CHR 0xE3, CHR 0x80, CHR 0x80]]"

function strip :: "string list \<Rightarrow> string \<Rightarrow> string" where
  "strip ws s = (case find (\<lambda>w. w \<noteq> [] \<and> HasPrefix s w) ws of
      None \<Rightarrow> s
    | Some w \<Rightarrow> strip ws (drop (length w) s))"
  by pat_completeness auto
termination
  by (relation "measure (\<lambda>(ws, s). length s)")
    (auto dest!: find_SomeD simp: HasPrefix_def length_greater_0_conv [symmetric]
      simp del: length_greater_0_conv intro!: diff_less)

declare strip.simps [simp del]

definition TrimSpaceLeft :: "string \<Rightarrow> string" where
  "TrimSpaceLeft s = strip utf8_spaces s"

definition TrimSpaceRight :: "string \<Rightarrow> string" where
  "TrimSpaceRight s = rev (strip (map rev utf8_spaces) (rev s))"

definition TrimSpace :: "string \<Rightarrow> string" where
  "TrimSpace s = TrimSpaceRight (TrimSpaceLeft s)"

lemma TrimRightSet_suffix: "\<exists>t. s = TrimRightSet C s @ t \<and> set t \<subseteq> C"
proof -
  have "rev s = takeWhile (\<lambda>c. c \<in> C) (rev s) @ dropWhile (\<lambda>c. c \<in> C) (rev s)" by simp
  then have "s = TrimRightSet C s @ rev (takeWhile (\<lambda>c. c \<in> C) (rev s))"
    unfolding TrimRightSet_def by (metis rev_append rev_rev_ident)
  moreover have "set (rev (takeWhile (\<lambda>c. c \<in> C) (rev s))) \<subseteq> C"
    by (auto dest: set_takeWhileD)
  ultimately show ?thesis by blast
qed

lemma TrimRightSet_idem [simp]: "TrimRightSet C (TrimRightSet C s) = TrimRightSet C s"
  by (simp add: TrimRightSet_def)

lemma TrimRightSet_append [simp]: "set t \<subseteq> C \<Longrightarrow> TrimRightSet C (s @ t) = TrimRightSet C s"
  by (simp add: TrimRightSet_def dropWhile_append subset_iff)

lemma TrimRightSet_last: "TrimRightSet C s \<noteq> [] \<Longrightarrow> last (TrimRightSet C s) \<notin> C"
  using hd_dropWhile [of "\<lambda>c. c \<in> C" "rev s"] by (simp add: TrimRightSet_def last_rev)

lemma set_TrimRightSet: "set (TrimRightSet C s) \<subseteq> set s"
  by (metis TrimRightSet_suffix Un_upper1 set_append)

definition stripped :: "string list \<Rightarrow> string \<Rightarrow> bool" where
  "stripped ws s \<longleftrightarrow> (\<forall>w \<in> set ws. w \<noteq> [] \<longrightarrow> \<not> HasPrefix s w)"

lemma strip_stop [simp]: "stripped ws s \<Longrightarrow> strip ws s = s"
  by (subst strip.simps) (auto simp: stripped_def find_None_iff split: option.splits
    dest!: find_Some_iff [THEN iffD1] nth_mem)

lemma strip_step:
  "find (\<lambda>w. w \<noteq> [] \<and> HasPrefix s w) ws = Some w \<Longrightarrow> strip ws s = strip ws (drop (length w) s)"
  by (subst strip.simps) simp

lemma strip_stripped [simp]: "stripped ws (strip ws s)"
proof (induction ws s rule: strip.induct)
  case (1 ws s)
  show ?case
  proof (cases "find (\<lambda>w. w \<noteq> [] \<and> HasPrefix s w) ws")
    case None
    then have "stripped ws s" by (auto simp: stripped_def find_None_iff)
    then show ?thesis by simp
  next
    case (Some w)
    with 1 show ?thesis by (simp add: strip_step)
  qed
qed

lemma strip_idem [simp]: "strip ws (strip ws s) = strip ws s"
  by simp

lemma strip_suffix: "suffix (strip ws s) s"
proof (induction ws s rule: strip.induct)
  case (1 ws s)
  show ?case
  proof (cases "find (\<lambda>w. w \<noteq> [] \<and> HasPrefix s w) ws")
    case None
    then have "stripped ws s" by (auto simp: stripped_def find_None_iff)
    then show ?thesis by simp
  next
    case (Some w)
    with 1 have "suffix (strip ws s) (drop (length w) s)" by (simp add: strip_step)
    then show ?thesis using suffix_drop suffix_order.trans by blast
  qed
qed

lemma stripped_prefix: "stripped ws s \<Longrightarrow> prefix t s \<Longrightarrow> stripped ws t"
  unfolding stripped_def HasPrefix_iff using prefix_order.trans by blast

lemma TrimSpaceRight_prefix: "prefix (TrimSpaceRight s) s"
  unfolding TrimSpaceRight_def using strip_suffix [of "map rev utf8_spaces" "rev s"]
  by (metis rev_rev_ident suffix_to_prefix)

lemma TrimSpace_sublist: "sublist (TrimSpace s) s"
proof -
  have "prefix (TrimSpace s) (TrimSpaceLeft s)"
    by (simp add: TrimSpace_def TrimSpaceRight_prefix)
  moreover have "suffix (TrimSpaceLeft s) s"
    by (simp add: TrimSpaceLeft_def strip_suffix)
  ultimately show ?thesis
    by (meson prefix_imp_sublist suffix_imp_sublist sublist_order.order.trans)
qed

lemma set_TrimSpace: "set (TrimSpace s) \<subseteq> set s"
  using TrimSpace_sublist set_mono_sublist by blast

lemma TrimSpaceLeft_TrimSpace [simp]: "TrimSpaceLeft (TrimSpace s) = TrimSpace s"
  unfolding TrimSpace_def TrimSpaceLeft_def
  by (meson TrimSpaceRight_prefix strip_stop strip_stripped stripped_prefix)

lemma TrimSpace_idem [simp]: "TrimSpace (TrimSpace s) = TrimSpace s"
proof -
  have "TrimSpaceRight (TrimSpace s) = TrimSpace s"
    by (simp add: TrimSpace_def TrimSpaceRight_def)
  then show ?thesis by (simp add: TrimSpace_def [of "TrimSpace s"])
qed

lemma is_ascii_TrimSpace [simp]: "is_ascii s \<Longrightarrow> is_ascii (TrimSpace s)"
  using set_TrimSpace is_ascii_subset by blast

text \<open>ASCII bytes that are neither blanks nor control bytes never start or end a trim.\<close>

definition visible :: "char \<Rightarrow> bool" where
  "visible c \<longleftrightarrow> 33 \<le> byte c \<and> byte c < 128"

definition blank :: "char \<Rightarrow> bool" where
  "blank c \<longleftrightarrow> c \<in> {CHR 0x20, CHR 0x09, CHR 0x0A, CHR 0x0B, CHR 0x0C, CHR 0x0D}"

lemma stripped_visible: "s = [] \<or> visible (hd s) \<Longrightarrow> stripped utf8_spaces s"
  by (cases s) (auto simp: stripped_def utf8_spaces_def visible_def)

lemma stripped_visible_rev: "s = [] \<or> visible (hd s) \<Longrightarrow> stripped (map rev utf8_spaces) s"
  by (cases s) (auto simp: stripped_def utf8_spaces_def visible_def)

lemma find_blank:
  "blank c \<Longrightarrow> find (\<lambda>w. w \<noteq> [] \<and> HasPrefix (c # s) w) utf8_spaces = Some [c]"
  unfolding blank_def by (elim insertE emptyE) (simp_all add: utf8_spaces_def)

lemma find_blank_rev:
  "blank c \<Longrightarrow> find (\<lambda>w. w \<noteq> [] \<and> HasPrefix (c # s) w) (map rev utf8_spaces) = Some [c]"
  unfolding blank_def by (elim insertE emptyE) (simp_all add: utf8_spaces_def)

lemma strip_blank: "blank c \<Longrightarrow> strip utf8_spaces (c # s) = strip utf8_spaces s"
  using strip_step [OF find_blank] by simp

lemma strip_blank_rev: "blank c \<Longrightarrow> strip (map rev utf8_spaces) (c # s) = strip (map rev utf8_spaces) s"
  using strip_step [OF find_blank_rev] by simp

lemma strip_blanks: "list_all blank b \<Longrightarrow> strip utf8_spaces (b @ s) = strip utf8_spaces s"
  by (induction b) (auto simp: strip_blank)

lemma strip_blanks_rev:
  "list_all blank b \<Longrightarrow> strip (map rev utf8_spaces) (b @ s) = strip (map rev utf8_spaces) s"
  by (induction b) (auto simp: strip_blank_rev)

lemma TrimSpace_visible:
  assumes "list_all visible s"
  shows "TrimSpace s = s"
proof -
  have "TrimSpaceLeft s = s"
    using assms by (cases s) (auto simp: TrimSpaceLeft_def stripped_visible)
  moreover have "stripped (map rev utf8_spaces) (rev s)"
    using assms by (intro stripped_visible_rev) (cases s rule: rev_cases, auto)
  then have "TrimSpaceRight s = s"
    by (simp add: TrimSpaceRight_def)
  ultimately show ?thesis by (simp add: TrimSpace_def)
qed

lemma TrimSpace_blanks:
  assumes "list_all visible s" and "list_all blank b" and "list_all blank b'" and "s \<noteq> []"
  shows "TrimSpace (b @ s @ b') = s"
proof -
  have "stripped utf8_spaces (s @ b')"
    using assms(1,4) by (intro stripped_visible) (cases s, auto)
  then have l: "TrimSpaceLeft (b @ s @ b') = s @ b'"
    by (simp add: TrimSpaceLeft_def strip_blanks assms(2))
  have "list_all blank (rev b')" using assms(3) by (simp add: list_all_iff)
  then have "TrimSpaceRight (s @ b') = TrimSpaceRight s"
    by (simp add: TrimSpaceRight_def strip_blanks_rev)
  also have "\<dots> = s"
    using assms(1) by (simp add: TrimSpaceRight_def)
      (metis hd_rev last_in_set list_all_iff rev_is_Nil_conv rev_rev_ident strip_stop stripped_visible_rev)
  finally show ?thesis by (simp add: TrimSpace_def l)
qed

lemma TrimSpace_ends:
  assumes "s \<noteq> []" and "visible (hd s)" and "visible (last s)"
  shows "TrimSpace s = s"
proof -
  have "stripped (map rev utf8_spaces) (rev s)"
    using assms by (intro stripped_visible_rev) (simp add: hd_rev)
  then show ?thesis
    using assms(2) by (simp add: TrimSpace_def TrimSpaceLeft_def TrimSpaceRight_def stripped_visible)
qed

lemma strip_keeps:
  assumes "\<forall>w \<in> set ws. \<forall>c \<in> set w. \<not> visible c" and "b \<noteq> []" and "visible (hd b)"
  shows "\<exists>a'. strip ws (a @ b) = a' @ b"
proof (induction "length a" arbitrary: a rule: less_induct)
  case less
  show ?case
  proof (cases "find (\<lambda>w. w \<noteq> [] \<and> HasPrefix (a @ b) w) ws")
    case None
    then have "stripped ws (a @ b)" by (auto simp: stripped_def find_None_iff)
    then show ?thesis by auto
  next
    case (Some w)
    then have w: "w \<in> set ws" "w \<noteq> []" "prefix w (a @ b)"
      using find_SomeD [OF Some] by (auto simp: HasPrefix_iff)
    have len: "length w \<le> length a"
    proof (rule ccontr)
      assume "\<not> length w \<le> length a"
      then have lt: "length a < length w" by simp
      obtain zs where "a @ b = w @ zs" using w(3) by (auto simp: prefix_def)
      then have "(a @ b) ! length a = w ! length a" using lt by (simp add: nth_append)
      moreover have "(a @ b) ! length a = hd b" using assms(2) by (simp add: nth_append hd_conv_nth)
      ultimately have "hd b \<in> set w" using lt by (metis nth_mem)
      with assms(1,3) w(1) show False by blast
    qed
    then have "strip ws (a @ b) = strip ws (drop (length w) a @ b)"
      using strip_step [OF Some] by simp
    with less [of "drop (length w) a"] w(2) len show ?thesis by (cases a) auto
  qed
qed

lemma spaces_not_visible: "\<forall>w \<in> set (map rev utf8_spaces). \<forall>c \<in> set w. \<not> visible c"
  by (simp add: utf8_spaces_def visible_def)

lemma TrimSpace_keeps_prefix:
  assumes "p \<noteq> []" and "visible (hd p)" and "visible (last p)"
  shows "\<exists>t. TrimSpace (p @ s) = p @ t"
proof -
  have l: "TrimSpaceLeft (p @ s) = p @ s"
    using assms(1,2) by (simp add: TrimSpaceLeft_def stripped_visible)
  obtain a where "strip (map rev utf8_spaces) (rev s @ rev p) = a @ rev p"
    using strip_keeps [OF spaces_not_visible, of "rev p" "rev s"] assms(1,3) by (auto simp: hd_rev)
  then have "TrimSpaceRight (p @ s) = p @ rev a" by (simp add: TrimSpaceRight_def)
  with l show ?thesis by (auto simp: TrimSpace_def)
qed

end
