(* ===== verification/Go_Text.thy ===== *)
theory Go_Text
  imports Go_Strings
begin

text \<open>
  Splitting, joining and formatting: \<open>strings.Split\<close>, \<open>SplitN\<close>, \<open>Fields\<close>, \<open>ReplaceAll\<close> for the one-byte
  separators the repository uses, \<open>strings.Join\<close>, the \<open>%d\<close>, \<open>%04d\<close> and \<open>%-40s\<close> verbs of \<open>fmt\<close>, and
  \<open>net.SplitHostPort\<close>.
\<close>

section \<open>Split and Join\<close>

fun SplitByte :: "char \<Rightarrow> string \<Rightarrow> string list" where
  "SplitByte c [] = [[]]"
| "SplitByte c (x # s) =
     (if x = c then [] # SplitByte c s
      else (case SplitByte c s of [] \<Rightarrow> [[x]] | p # ps \<Rightarrow> (x # p) # ps))"

text \<open>The bytes before and after the first separator, as \<open>strings.Cut\<close> gives them.\<close>

fun CutByte :: "char \<Rightarrow> string \<Rightarrow> (string \<times> string) option" where
  "CutByte c [] = None"
| "CutByte c (x # s) =
     (if x = c then Some ([], s) else map_option (\<lambda>(a, b). (x # a, b)) (CutByte c s))"

text \<open>\<open>strings.SplitN(s, c, n)\<close> for \<open>n > 0\<close>: at most n parts, the last one unsplit.\<close>

fun SplitNByte :: "char \<Rightarrow> nat \<Rightarrow> string \<Rightarrow> string list" where
  "SplitNByte c 0 s = []"
| "SplitNByte c (Suc 0) s = [s]"
| "SplitNByte c (Suc (Suc n)) s =
     (case CutByte c s of None \<Rightarrow> [s] | Some (a, b) \<Rightarrow> a # SplitNByte c (Suc n) b)"

fun Join :: "string list \<Rightarrow> string \<Rightarrow> string" where
  "Join [] sep = []"
| "Join [p] sep = p"
| "Join (p # q # ps) sep = p @ sep @ Join (q # ps) sep"

definition ReplaceByte :: "char \<Rightarrow> char \<Rightarrow> string \<Rightarrow> string" where
  "ReplaceByte a b s = map (\<lambda>c. if c = a then b else c) s"

lemma SplitByte_ne [simp]: "SplitByte c s \<noteq> []"
  by (induction s) (auto split: list.splits)

lemma SplitByte_no_sep: "p \<in> set (SplitByte c s) \<Longrightarrow> c \<notin> set p"
  by (induction s arbitrary: p) (auto split: list.splits if_splits)

lemma SplitByte_plain [simp]: "c \<notin> set s \<Longrightarrow> SplitByte c s = [s]"
  by (induction s) auto

lemma SplitByte_cons [simp]: "c \<notin> set p \<Longrightarrow> SplitByte c (p @ c # s) = p # SplitByte c s"
  by (induction p) auto

lemma Join_Cons: "ps \<noteq> [] \<Longrightarrow> Join (p # ps) sep = p @ sep @ Join ps sep"
  by (cases ps) auto

lemma Join_SplitByte [simp]: "Join (SplitByte c s) [c] = s"
proof (induction s)
  case Nil
  then show ?case by simp
next
  case (Cons x s)
  show ?case
  proof (cases "x = c")
    case True
    with Cons show ?thesis by (simp add: Join_Cons)
  next
    case False
    obtain p ps where ps: "SplitByte c s = p # ps" by (meson SplitByte_ne neq_Nil_conv)
    with Cons False show ?thesis by (cases ps) auto
  qed
qed

lemma SplitByte_Join:
  "ps \<noteq> [] \<Longrightarrow> \<forall>p \<in> set ps. c \<notin> set p \<Longrightarrow> SplitByte c (Join ps [c]) = ps"
  by (induction ps "[c]" rule: Join.induct) auto

lemma Join_append: "ps \<noteq> [] \<Longrightarrow> qs \<noteq> [] \<Longrightarrow> Join (ps @ qs) sep = Join ps sep @ sep @ Join qs sep"
  by (induction ps sep rule: Join.induct) (auto simp: Join_Cons)

lemma CutByte_None [simp]: "CutByte c s = None \<longleftrightarrow> c \<notin> set s"
  by (induction s) auto

lemma CutByte_first [simp]: "c \<notin> set a \<Longrightarrow> CutByte c (a @ c # b) = Some (a, b)"
  by (induction a) auto

lemma CutByte_Some: "CutByte c s = Some (a, b) \<longleftrightarrow> s = a @ c # b \<and> c \<notin> set a"
proof
  show "CutByte c s = Some (a, b) \<Longrightarrow> s = a @ c # b \<and> c \<notin> set a"
    by (induction s arbitrary: a) (auto split: if_splits)
qed auto

lemma length_SplitNByte: "0 < n \<Longrightarrow> 0 < length (SplitNByte c n s) \<and> length (SplitNByte c n s) \<le> n"
proof (induction c n s rule: SplitNByte.induct)
  case (3 c n s)
  then show ?case by (auto split: option.splits)
qed auto

lemma set_ReplaceByte: "a \<noteq> b \<Longrightarrow> a \<notin> set (ReplaceByte a b s)"
  by (auto simp: ReplaceByte_def)

lemma ReplaceByte_id [simp]: "a \<notin> set s \<Longrightarrow> ReplaceByte a b s = s"
  unfolding ReplaceByte_def by (rule map_idI) auto

lemma ReplaceByte_idem [simp]: "a \<noteq> b \<Longrightarrow> ReplaceByte a b (ReplaceByte a b s) = ReplaceByte a b s"
  using set_ReplaceByte ReplaceByte_id by blast

lemma ReplaceByte_eq_Nil [simp]: "ReplaceByte a b s = [] \<longleftrightarrow> s = []"
  by (simp add: ReplaceByte_def)

section \<open>Lines\<close>

definition newline :: char where "newline = CHR 0x0A"
definition creturn :: char where "creturn = CHR 0x0D"

text \<open>The UTF-8 encoding of the long dash in some messages, and a line with its end.\<close>

definition emdash :: string where
  "emdash = [CHR 0xE2, CHR 0x80, CHR 0x94]"

definition wln :: "string \<Rightarrow> string" where
  "wln s = s @ [newline]"

definition quoted :: "string \<Rightarrow> string" where
  "quoted s = CHR 0x22 # s @ [CHR 0x22]"

definition split_lines :: "string \<Rightarrow> string list" where
  "split_lines d = (let ls = SplitByte newline d in if last ls = [] then butlast ls else ls)"

definition ends_line :: "string \<Rightarrow> bool" where
  "ends_line c \<longleftrightarrow> c = [] \<or> last c = newline"

lemma SplitByte_append_sep: "SplitByte x (a @ x # b) = SplitByte x a @ SplitByte x b"
  by (induction a) (auto split: list.splits)

lemma split_lines_append:
  assumes "ends_line c"
  shows "split_lines (c @ d) = split_lines c @ split_lines d"
proof (cases c rule: rev_cases)
  case Nil
  then show ?thesis by (simp add: split_lines_def)
next
  case (snoc a x)
  with assms have "c = a @ [newline]" by (simp add: ends_line_def)
  then show ?thesis
    using SplitByte_append_sep [of newline a d] SplitByte_append_sep [of newline a "[]"]
    by (simp add: split_lines_def Let_def butlast_append)
qed

lemma split_lines_line: "newline \<notin> set l \<Longrightarrow> split_lines (l @ [newline]) = [l]"
  using SplitByte_cons [of newline l "[]"] by (simp add: split_lines_def)

lemma split_lines_Nil [simp]: "split_lines [] = []"
  by (simp add: split_lines_def)

lemma ends_line_append: "ends_line c \<Longrightarrow> ends_line d \<Longrightarrow> ends_line (c @ d)"
  by (cases "d = []") (auto simp: ends_line_def)

lemma ends_line_line [simp]: "ends_line (l @ [newline])"
  by (simp add: ends_line_def)

section \<open>Number formatting\<close>

definition digit :: "nat \<Rightarrow> char" where
  "digit d = char_of (48 + d)"

fun dec_nat :: "nat \<Rightarrow> string" where
  "dec_nat n = (if n < 10 then [digit n] else dec_nat (n div 10) @ [digit (n mod 10)])"

declare dec_nat.simps [simp del]

definition fmt_d :: "int \<Rightarrow> string" where
  "fmt_d i = (if i < 0 then ''-'' @ dec_nat (nat (- i)) else dec_nat (nat i))"

definition pad_left :: "nat \<Rightarrow> char \<Rightarrow> string \<Rightarrow> string" where
  "pad_left n c s = replicate (n - length s) c @ s"

text \<open>
  \<open>fmt\<close> pads to a number of runes. \<open>rune_tail\<close> is the number of bytes after the first of the rune
  that the bytes start with; a byte that starts no valid UTF-8 sequence is a rune of its own.
\<close>

definition cont_byte :: "nat \<Rightarrow> nat \<Rightarrow> char list \<Rightarrow> bool" where
  "cont_byte lo hi s \<longleftrightarrow> (case s of [] \<Rightarrow> False | c # _ \<Rightarrow> lo \<le> byte c \<and> byte c \<le> hi)"

definition rune_tail :: "char \<Rightarrow> string \<Rightarrow> nat" where
  "rune_tail c s =
    (let b = byte c; c1 = (\<lambda>lo hi. cont_byte lo hi s); c2 = cont_byte 128 191 (drop 1 s); c3 = cont_byte 128 191 (drop 2 s) in
     if 194 \<le> b \<and> b \<le> 223 then (if c1 128 191 then 1 else 0)
     else if 224 \<le> b \<and> b \<le> 239 then
       (if c1 (if b = 224 then 160 else 128) (if b = 237 then 159 else 191) \<and> c2 then 2 else 0)
     else if 240 \<le> b \<and> b \<le> 244 then
       (if c1 (if b = 240 then 144 else 128) (if b = 244 then 143 else 191) \<and> c2 \<and> c3 then 3 else 0)
     else 0)"

function rune_count :: "string \<Rightarrow> nat" where
  "rune_count [] = 0"
| "rune_count (c # s) = Suc (rune_count (drop (rune_tail c s) s))"
  by pat_completeness auto
termination by (relation "measure length") simp_all

definition pad_right :: "nat \<Rightarrow> string \<Rightarrow> string" where
  "pad_right n s = s @ replicate (n - rune_count s) CHR '' ''"

definition digit_val :: "char \<Rightarrow> nat option" where
  "digit_val c = (if 48 \<le> byte c \<and> byte c \<le> 57 then Some (byte c - 48) else None)"

fun undec :: "nat \<Rightarrow> string \<Rightarrow> nat option" where
  "undec acc [] = Some acc"
| "undec acc (c # s) = (case digit_val c of None \<Rightarrow> None | Some d \<Rightarrow> undec (10 * acc + d) s)"

lemma digit_val_digit [simp]: "d < 10 \<Longrightarrow> digit_val (digit d) = Some d"
  by (simp add: digit_val_def digit_def byte_char_of_small)

lemma undec_append: "undec acc (s @ t) = (case undec acc s of None \<Rightarrow> None | Some a \<Rightarrow> undec a t)"
  by (induction s arbitrary: acc) (auto split: option.splits)

lemma undec_dec_nat: "undec 0 (dec_nat n) = Some n"
proof (induction n rule: dec_nat.induct)
  case (1 n)
  show ?case
  proof (cases "n < 10")
    case True
    then show ?thesis by (simp add: dec_nat.simps [of n])
  next
    case False
    with 1 have "undec 0 (dec_nat (n div 10)) = Some (n div 10)" by simp
    with False show ?thesis by (simp add: dec_nat.simps [of n] undec_append)
  qed
qed

lemma dec_nat_inject: "dec_nat m = dec_nat n \<longleftrightarrow> m = n"
  by (metis undec_dec_nat option.inject)

lemma dec_nat_ne [simp]: "dec_nat n \<noteq> []"
  by (subst dec_nat.simps) simp

lemma byte_digit: "d < 10 \<Longrightarrow> byte (digit d) = 48 + d"
  by (simp add: digit_def byte_char_of_small)

lemma set_dec_nat: "c \<in> set (dec_nat n) \<Longrightarrow> 48 \<le> byte c \<and> byte c \<le> 57"
proof (induction n rule: dec_nat.induct)
  case (1 n)
  then show ?case
    by (cases "n < 10") (auto simp: dec_nat.simps [of n] byte_digit)
qed

text \<open>\<open>strconv.Atoi\<close>: an optional sign, decimal digits, the range of a 64-bit integer.\<close>

definition Atoi :: "string \<Rightarrow> int option" where
  "Atoi s =
    (let neg = HasPrefix s ''-''; digits = (if neg \<or> HasPrefix s ''+'' then drop 1 s else s) in
     if digits = [] then None
     else (case undec 0 digits of None \<Rightarrow> None
       | Some n \<Rightarrow> (let i = (if neg then - int n else int n) in
           if - (2 ^ 63) \<le> i \<and> i < 2 ^ 63 then Some i else None)))"

text \<open>
  The verb \<open>%q\<close>, for strings whose characters outside ASCII are printable: quotes, backslashes and
  control characters are escaped.
\<close>

definition quote_char :: "char \<Rightarrow> string" where
  "quote_char c =
    (if c = CHR 0x22 then [CHR 0x5C, CHR 0x22]
     else if c = CHR 0x5C then [CHR 0x5C, CHR 0x5C]
     else if c = CHR 0x07 then [CHR 0x5C, CHR ''a''] else if c = CHR 0x08 then [CHR 0x5C, CHR ''b'']
     else if c = CHR 0x0C then [CHR 0x5C, CHR ''f''] else if c = CHR 0x0A then [CHR 0x5C, CHR ''n'']
     else if c = CHR 0x0D then [CHR 0x5C, CHR ''r''] else if c = CHR 0x09 then [CHR 0x5C, CHR ''t'']
     else if c = CHR 0x0B then [CHR 0x5C, CHR ''v'']
     else if byte c < 32 \<or> byte c = 127 then
       [CHR 0x5C, CHR ''x'', ''0123456789abcdef'' ! (byte c div 16), ''0123456789abcdef'' ! (byte c mod 16)]
     else [c])"

definition fmt_q :: "string \<Rightarrow> string" where
  "fmt_q s = CHR 0x22 # concat (map quote_char s) @ [CHR 0x22]"

section \<open>Hexadecimal\<close>

definition hex_digit :: "nat \<Rightarrow> char" where
  "hex_digit n = ''0123456789abcdef'' ! n"

definition hex_encode :: "string \<Rightarrow> string" where
  "hex_encode s = concat (map (\<lambda>c. [hex_digit (byte c div 16), hex_digit (byte c mod 16)]) s)"

section \<open>Fields\<close>

definition space_at :: "string \<Rightarrow> bool" where
  "space_at s = list_ex (\<lambda>p. HasPrefix s p) utf8_spaces"

fun leading_word :: "string \<Rightarrow> string" where
  "leading_word [] = []"
| "leading_word (c # s) = (if space_at (c # s) then [] else c # leading_word s)"

text \<open>\<open>strings.Fields\<close>: the maximal runs of non-space characters; the counter bounds their number.\<close>

fun fields_loop :: "nat \<Rightarrow> string \<Rightarrow> string list" where
  "fields_loop 0 s = []"
| "fields_loop (Suc n) s = (let t = TrimSpaceLeft s in
     if t = [] then [] else (let w = leading_word t in w # fields_loop n (drop (length w) t)))"

definition Fields :: "string \<Rightarrow> string list" where
  "Fields s = fields_loop (length s) s"

section \<open>Paths\<close>

text \<open>\<open>filepath.Clean\<close> and what is built on it, on Unix: the elements of a path with \<open>.\<close> and \<open>..\<close> resolved.\<close>

fun clean_loop :: "bool \<Rightarrow> string list \<Rightarrow> string list \<Rightarrow> string list" where
  "clean_loop rooted acc [] = rev acc"
| "clean_loop rooted acc (e # es) =
    (if e = [] \<or> e = ''.'' then clean_loop rooted acc es
     else if e = ''..'' then
       (if acc \<noteq> [] \<and> hd acc \<noteq> ''..'' then clean_loop rooted (tl acc) es
        else if rooted then clean_loop rooted acc es
        else clean_loop rooted (''..'' # acc) es)
     else clean_loop rooted (e # acc) es)"

definition Clean :: "string \<Rightarrow> string" where
  "Clean path =
    (let rooted = HasPrefix path ''/''; es = clean_loop rooted [] (SplitByte CHR ''/'' path);
         out = (if rooted then ''/'' else []) @ Join es ''/''
     in if out = [] then ''.'' else out)"

text \<open>\<open>filepath.Join\<close> of two elements.\<close>

definition PathJoin :: "string \<Rightarrow> string \<Rightarrow> string" where
  "PathJoin a b = (if a = [] then (if b = [] then [] else Clean b) else Clean (a @ ''/'' @ b))"

definition Dir :: "string \<Rightarrow> string" where
  "Dir path = Clean (case LastIndexByte path CHR ''/'' of None \<Rightarrow> [] | Some i \<Rightarrow> take (i + 1) path)"

section \<open>SplitHostPort\<close>

text \<open>
  \<open>net.SplitHostPort\<close>: the port is what follows the last colon; an IPv6 host is in brackets; any
  other colon or bracket is an error.
\<close>

definition SplitHostPort :: "string \<Rightarrow> error + string \<times> string" where
  "SplitHostPort hp =
    (case LastIndexByte hp CHR '':'' of
      None \<Rightarrow> Inl ''missing port in address''
    | Some i \<Rightarrow>
        let finish = (\<lambda>host j k.
          if CHR ''['' \<in> set (drop j hp) then Inl ''unexpected '[' in address''
          else if CHR '']'' \<in> set (drop k hp) then Inl ''unexpected ']' in address''
          else Inr (host, drop (i + 1) hp)) in
        if hp ! 0 = CHR ''['' then
          (case IndexByte hp CHR '']'' of
            None \<Rightarrow> Inl ''missing ']' in address''
          | Some e \<Rightarrow>
              if e + 1 = length hp then Inl ''missing port in address''
              else if e + 1 = i then finish (take (e - 1) (drop 1 hp)) 1 (e + 1)
              else if hp ! (e + 1) = CHR '':'' then Inl ''too many colons in address''
              else Inl ''missing port in address'')
        else if CHR '':'' \<in> set (take i hp) then Inl ''too many colons in address''
        else finish (take i hp) 0 0)"

definition plain_host :: "string \<Rightarrow> bool" where
  "plain_host h \<longleftrightarrow> set h \<inter> {CHR '':'', CHR ''['', CHR '']''} = {}"

lemma SplitHostPort_plain:
  assumes "plain_host h" and "plain_host p"
  shows "SplitHostPort (h @ CHR '':'' # p) = Inr (h, p)"
proof -
  have *: "LastIndexByte (h @ CHR '':'' # p) CHR '':'' = Some (length h)"
    using assms by (auto simp: plain_host_def)
  have "(h @ CHR '':'' # p) ! 0 \<noteq> CHR ''[''"
    using assms(1) by (cases h) (auto simp: plain_host_def)
  with assms show ?thesis
    by (simp add: SplitHostPort_def * Let_def plain_host_def)
qed

lemma SplitHostPort_no_colon: "CHR '':'' \<notin> set h \<Longrightarrow> SplitHostPort h = Inl ''missing port in address''"
  by (simp add: SplitHostPort_def LastIndexByte_absent)

lemma SplitHostPort_bracketed:
  assumes "set h \<inter> {CHR ''['', CHR '']''} = {}" and "plain_host p"
  shows "SplitHostPort (CHR ''['' # h @ CHR '']'' # CHR '':'' # p) = Inr (h, p)"
proof -
  let ?s = "CHR ''['' # h @ CHR '']'' # CHR '':'' # p"
  have "LastIndexByte ((CHR ''['' # h @ [CHR '']'']) @ CHR '':'' # p) CHR '':'' =
      Some (length (CHR ''['' # h @ [CHR '']'']))"
    using assms(2) by (intro LastIndexByte_last) (auto simp: plain_host_def)
  then have 1: "LastIndexByte ?s CHR '':'' = Some (length h + 2)" by simp
  have 2: "IndexByte ?s CHR '']'' = Some (length h + 1)"
    using assms(1) by auto
  show ?thesis
    using assms by (auto simp: SplitHostPort_def 1 2 Let_def plain_host_def)
qed

end
