(* ===== verification/Go_Files.thy ===== *)
theory Go_Files
  imports Go_Text
begin

text \<open>
  The file system as the repository uses it: a map from paths to contents, with the operations
  \<open>os.ReadFile\<close>, \<open>os.WriteFile\<close>, \<open>os.Rename\<close>, \<open>os.Remove\<close>, append-mode writes and \<open>os.MkdirAll\<close>.
  Which operation fails, and what a failed write leaves behind, is chosen by the environment: a
  record \<open>faults\<close> that every operation consults. The interface \<open>atomic_file\<close> is the contract of the
  write-to-temporary-then-rename pattern that the registry, the policy engine, the quota limiter,
  the signed bundles, the zone writer and the commit store each repeat.
\<close>

type_synonym fs = "string \<Rightarrow> string option"

record faults =
  f_read :: "string \<Rightarrow> error option"
  f_write :: "string \<Rightarrow> error option"
  f_append :: "string \<Rightarrow> error option"
  f_rename :: "string \<Rightarrow> error option"
  f_remove :: "string \<Rightarrow> error option"
  f_mkdir :: "string \<Rightarrow> error option"
  f_left :: "string \<Rightarrow> string option"

definition no_faults :: faults where
  "no_faults = \<lparr>f_read = (\<lambda>_. None), f_write = (\<lambda>_. None), f_append = (\<lambda>_. None),
     f_rename = (\<lambda>_. None), f_remove = (\<lambda>_. None), f_mkdir = (\<lambda>_. None), f_left = (\<lambda>_. None)\<rparr>"

datatype read_result = RNotExist | RError error | RData string

definition ReadFile :: "faults \<Rightarrow> fs \<Rightarrow> string \<Rightarrow> read_result" where
  "ReadFile F fs p = (case f_read F p of Some e \<Rightarrow> RError e
     | None \<Rightarrow> (case fs p of None \<Rightarrow> RNotExist | Some d \<Rightarrow> RData d))"

definition WriteFile :: "faults \<Rightarrow> string \<Rightarrow> string \<Rightarrow> fs \<Rightarrow> error option \<times> fs" where
  "WriteFile F p d fs = (case f_write F p of Some e \<Rightarrow> (Some e, fs(p := f_left F p))
     | None \<Rightarrow> (None, fs(p \<mapsto> d)))"

text \<open>Opening with \<open>O_CREATE|O_APPEND\<close> and writing once; a failed write may leave a part of the data.\<close>

definition AppendFile :: "faults \<Rightarrow> string \<Rightarrow> string \<Rightarrow> fs \<Rightarrow> error option \<times> fs" where
  "AppendFile F p d fs =
    (let old = (case fs p of None \<Rightarrow> [] | Some c \<Rightarrow> c) in
     case f_append F p of
       Some e \<Rightarrow> (Some e, (case f_left F p of None \<Rightarrow> fs | Some part \<Rightarrow> fs(p \<mapsto> old @ part)))
     | None \<Rightarrow> (None, fs(p \<mapsto> old @ d)))"

definition Rename :: "faults \<Rightarrow> string \<Rightarrow> string \<Rightarrow> fs \<Rightarrow> error option \<times> fs" where
  "Rename F a b fs = (case f_rename F a of Some e \<Rightarrow> (Some e, fs)
     | None \<Rightarrow> (case fs a of None \<Rightarrow> (Some ''no such file or directory'', fs)
                 | Some d \<Rightarrow> (None, (fs(a := None))(b \<mapsto> d))))"

datatype remove_result = Removed | RemNotExist | RemError error

definition RemoveFile :: "faults \<Rightarrow> string \<Rightarrow> fs \<Rightarrow> remove_result \<times> fs" where
  "RemoveFile F p fs = (case f_remove F p of Some e \<Rightarrow> (RemError e, fs)
     | None \<Rightarrow> (case fs p of None \<Rightarrow> (RemNotExist, fs) | Some _ \<Rightarrow> (Removed, fs(p := None))))"

text \<open>
  The encoder and decoder of \<open>encoding/json\<close> for one Go type. A round trip holds for a given value
  when decoding its encoding gives it back; the package documents this for the field types used
  here as long as strings are valid UTF-8, so it is stated per value.
\<close>

record 'a json =
  marshal :: "'a \<Rightarrow> error + string"
  unmarshal :: "string \<Rightarrow> error + 'a"

definition json_roundtrip :: "'a json \<Rightarrow> 'a \<Rightarrow> bool" where
  "json_roundtrip J x \<longleftrightarrow> (case marshal J x of Inl e \<Rightarrow> True | Inr d \<Rightarrow> unmarshal J d = Inr x)"

section \<open>Write to a temporary file, then rename\<close>

definition tmp_path :: "string \<Rightarrow> string" where
  "tmp_path p = p @ ''.tmp''"

definition write_rename ::
  "faults \<Rightarrow> string \<Rightarrow> string \<Rightarrow> string \<Rightarrow> string \<Rightarrow> fs \<Rightarrow> error option \<times> fs" where
  "write_rename F wmsg rmsg path d fs =
    (case WriteFile F (tmp_path path) d fs of
      (Some e, fs1) \<Rightarrow> (Some (wmsg @ e), fs1)
    | (None, fs1) \<Rightarrow>
        (case Rename F (tmp_path path) path fs1 of
          (Some e, fs2) \<Rightarrow> (Some (rmsg @ e), fs2)
        | (None, fs2) \<Rightarrow> (None, fs2)))"

lemma tmp_path_neq [simp]: "tmp_path p \<noteq> p" "p \<noteq> tmp_path p"
  by (simp_all add: tmp_path_def)

lemma write_rename_ok: "write_rename F w r p d fs = (None, fs') \<Longrightarrow> fs' p = Some d"
  by (auto simp: write_rename_def WriteFile_def Rename_def split: option.splits prod.splits if_splits)

lemma write_rename_err: "write_rename F w r p d fs = (Some e, fs') \<Longrightarrow> fs' p = fs p"
  by (auto simp: write_rename_def WriteFile_def Rename_def split: option.splits prod.splits if_splits)

lemma write_rename_frame: "q \<noteq> p \<Longrightarrow> q \<noteq> tmp_path p \<Longrightarrow> snd (write_rename F w r p d fs) q = fs q"
  by (auto simp: write_rename_def WriteFile_def Rename_def split: option.splits prod.splits if_splits)

lemma write_rename_no_faults:
  "f_write F (tmp_path p) = None \<Longrightarrow> f_rename F (tmp_path p) = None \<Longrightarrow>
     write_rename F w r p d fs = (None, fs(tmp_path p := None, p \<mapsto> d))"
  by (auto simp: write_rename_def WriteFile_def Rename_def fun_upd_twist)

lemma no_faults_simps [simp]:
  "f_read no_faults p = None" "f_write no_faults p = None" "f_append no_faults p = None"
  "f_rename no_faults p = None" "f_remove no_faults p = None" "f_mkdir no_faults p = None"
  "f_left no_faults p = None"
  by (simp_all add: no_faults_def)

locale atomic_file =
  fixes save :: "faults \<Rightarrow> 'a \<Rightarrow> fs \<Rightarrow> error option \<times> fs"
    and enc :: "'a \<Rightarrow> error + string"
    and path :: "'a \<Rightarrow> string"
  assumes save_ok: "save F x fs = (None, fs') \<Longrightarrow> \<exists>d. enc x = Inr d \<and> fs' (path x) = Some d"
    and save_err: "save F x fs = (Some e, fs') \<Longrightarrow> fs' (path x) = fs (path x)"
    and save_frame: "q \<noteq> path x \<Longrightarrow> q \<noteq> tmp_path (path x) \<Longrightarrow> snd (save F x fs) q = fs q"
begin

text \<open>No fault leaves a torn file: a reader finds the old content or the whole new one.\<close>

lemma never_torn:
  "snd (save F x fs) (path x) = fs (path x) \<or>
   (\<exists>d. enc x = Inr d \<and> snd (save F x fs) (path x) = Some d)"
proof (cases "save F x fs")
  case (Pair r fs')
  then show ?thesis using save_ok [of F x fs fs'] save_err [of F x fs _ fs'] by (cases r) auto
qed

lemma ok_readable: "save F x fs = (None, fs') \<Longrightarrow> f_read G (path x) = None \<Longrightarrow>
   \<exists>d. enc x = Inr d \<and> ReadFile G fs' (path x) = RData d"
  using save_ok [of F x fs fs'] by (auto simp: ReadFile_def)

lemma marshal_failure_is_reported: "enc x = Inl e \<Longrightarrow> fst (save F x fs) \<noteq> None"
  using save_ok [of F x fs "snd (save F x fs)"] by (metis Inl_Inr_False prod.collapse)

lemma err_readers_unaffected:
  "fst (save F x fs) \<noteq> None \<Longrightarrow> ReadFile G (snd (save F x fs)) (path x) = ReadFile G fs (path x)"
  using save_err [of F x fs _ "snd (save F x fs)"]
  by (cases "save F x fs") (auto simp: ReadFile_def split: option.splits)

end

end
