(* ===== verification/Policy_Engine.thy ===== *)
theory Policy_Engine
  imports Go_Files
begin

text \<open>
  The policy engine, \<open>internal/policy/engine.go\<close>: the rules, the request context, the domain and
  condition matchers, the first-match evaluation loop, and the engine's load, lookup, upsert, delete
  and save operations. The read-write mutex makes each method one atomic step on the engine's state.
\<close>

section \<open>Data\<close>

record Rule =
  ru_PolicyID :: string
  ru_AgentID :: string
  ru_Domains :: "string list"
  ru_Methods :: "string list"
  ru_PathPrefixes :: "string list"
  ru_Conditions :: "(string, string) gomap"
  ru_Action :: string

record RequestContext =
  rc_AgentID :: string
  rc_Destination :: string
  rc_Method :: string
  rc_Path :: string
  rc_Environment :: string
  rc_TeamID :: string
  rc_ProjectID :: string

record Decision =
  de_Action :: string
  de_PolicyID :: string
  de_Reason :: string

record Engine =
  en_rules :: "Rule list"
  en_path :: string

section \<open>Matchers\<close>

definition matchDomain :: "unicode \<Rightarrow> string \<Rightarrow> string \<Rightarrow> bool" where
  "matchDomain U host pattern0 =
    (let pattern = ToLower U pattern0 in
     if pattern = ''*'' then True
     else if HasPrefix pattern ''*.'' then
       (let sfx = drop 1 pattern in host = drop 2 pattern \<or> HasSuffix host sfx)
     else host = pattern)"

fun matchAnyDomain :: "unicode \<Rightarrow> string \<Rightarrow> string list \<Rightarrow> bool" where
  "matchAnyDomain U host [] = False"
| "matchAnyDomain U host (d # ds) = (if matchDomain U host d then True else matchAnyDomain U host ds)"

definition matchDomainList :: "unicode \<Rightarrow> string \<Rightarrow> string list \<Rightarrow> bool" where
  "matchDomainList U host domains = (if length domains = 0 then True else matchAnyDomain U host domains)"

definition containsIgnoreCase :: "unicode \<Rightarrow> string list \<Rightarrow> string \<Rightarrow> bool" where
  "containsIgnoreCase U xs v = (let w = ToUpper U v in list_ex (\<lambda>s. ToUpper U s = w) xs)"

definition matchAnyPrefix :: "string \<Rightarrow> string list \<Rightarrow> bool" where
  "matchAnyPrefix path ps = list_ex (\<lambda>p. HasPrefix path p) ps"

fun matchConditions :: "(string, string) gomap \<Rightarrow> RequestContext \<Rightarrow> bool" where
  "matchConditions [] ctx = True"
| "matchConditions ((k, v) # conds) ctx =
    (if k = ''environment'' then
       if rc_Environment ctx \<noteq> [] \<and> rc_Environment ctx \<noteq> v then False else matchConditions conds ctx
     else if k = ''team_id'' then
       if rc_TeamID ctx \<noteq> [] \<and> rc_TeamID ctx \<noteq> v then False else matchConditions conds ctx
     else if k = ''project_id'' then
       if rc_ProjectID ctx \<noteq> [] \<and> rc_ProjectID ctx \<noteq> v then False else matchConditions conds ctx
     else matchConditions conds ctx)"

definition sanitizeHost :: "unicode \<Rightarrow> string \<Rightarrow> string" where
  "sanitizeHost U host =
    (let host = (case IndexByte host (CHR 0x00) of Some i \<Rightarrow> take i host | None \<Rightarrow> host);
         host = TrimRightSet {CHR ''.''} host;
         host = TrimSpace host
     in ToLower U host)"

definition stripPort :: "string \<Rightarrow> string" where
  "stripPort hostport = (case SplitHostPort hostport of Inl _ \<Rightarrow> hostport | Inr (host, _) \<Rightarrow> host)"

section \<open>Evaluation\<close>

fun evalLoop :: "unicode \<Rightarrow> string \<Rightarrow> RequestContext \<Rightarrow> Rule list \<Rightarrow> Decision" where
  "evalLoop U host ctx [] =
     \<lparr>de_Action = ''deny'', de_PolicyID = ''default-deny'', de_Reason = ''no matching allow rule''\<rparr>"
| "evalLoop U host ctx (r # rs) =
    (if ru_AgentID r \<noteq> ''*'' \<and> ru_AgentID r \<noteq> [] \<and> ru_AgentID r \<noteq> rc_AgentID ctx then
       evalLoop U host ctx rs
     else if \<not> matchDomainList U host (ru_Domains r) then evalLoop U host ctx rs
     else if length (ru_Methods r) > 0 \<and> rc_Method ctx \<noteq> [] \<and>
             \<not> containsIgnoreCase U (ru_Methods r) (rc_Method ctx) then evalLoop U host ctx rs
     else if length (ru_PathPrefixes r) > 0 \<and> rc_Path ctx \<noteq> [] \<and>
             \<not> matchAnyPrefix (rc_Path ctx) (ru_PathPrefixes r) then evalLoop U host ctx rs
     else if length (ru_Conditions r) > 0 \<and> \<not> matchConditions (ru_Conditions r) ctx then
       evalLoop U host ctx rs
     else \<lparr>de_Action = ru_Action r, de_PolicyID = ru_PolicyID r,
           de_Reason = ''matched rule '' @ ru_PolicyID r\<rparr>)"

text \<open>
  The Go code copies the slice header under the read lock and iterates after releasing it, so an \<open>Add\<close> that
  replaces a rule in place or a \<open>Remove\<close> that shifts the array could be seen half way. Both are called by
  the admin API only, which evaluates nothing; the gateway evaluates and only ever calls \<open>Load\<close>, which
  installs a fresh slice. So an evaluation is atomic there, and it is modelled as one step.
\<close>

definition EvaluateRich :: "unicode \<Rightarrow> Engine \<Rightarrow> RequestContext \<Rightarrow> Decision" where
  "EvaluateRich U e ctx =
    (let host = sanitizeHost U (stripPort (rc_Destination ctx)) in evalLoop U host ctx (en_rules e))"

definition Evaluate :: "unicode \<Rightarrow> Engine \<Rightarrow> string \<Rightarrow> string \<Rightarrow> Decision" where
  "Evaluate U e agentID destHost = EvaluateRich U e
     \<lparr>rc_AgentID = agentID, rc_Destination = destHost, rc_Method = [], rc_Path = [],
      rc_Environment = [], rc_TeamID = [], rc_ProjectID = []\<rparr>"

section \<open>Engine operations\<close>

definition EngineLoad :: "Rule list json \<Rightarrow> read_result \<Rightarrow> Engine \<Rightarrow> error option \<times> Engine" where
  "EngineLoad J rd e = (case rd of
      RNotExist \<Rightarrow> (None, e\<lparr>en_rules := []\<rparr>)
    | RError err \<Rightarrow> (Some (''read policy '' @ en_path e @ '': '' @ err), e)
    | RData d \<Rightarrow> (case unmarshal J d of
        Inl err \<Rightarrow> (Some (''parse policy '' @ en_path e @ '': '' @ err), e)
      | Inr rules \<Rightarrow> (None, e\<lparr>en_rules := rules\<rparr>)))"

definition NewEngine :: "Rule list json \<Rightarrow> read_result \<Rightarrow> string \<Rightarrow> error + Engine" where
  "NewEngine J rd path = (case EngineLoad J rd \<lparr>en_rules = [], en_path = path\<rparr> of
      (Some err, _) \<Rightarrow> Inl err | (None, e) \<Rightarrow> Inr e)"

definition Rules :: "Engine \<Rightarrow> Rule list" where
  "Rules e = en_rules e"

fun lookupRule :: "string \<Rightarrow> Rule list \<Rightarrow> Rule option" where
  "lookupRule i [] = None"
| "lookupRule i (r # rs) = (if ru_PolicyID r = i then Some r else lookupRule i rs)"

definition EngineLookupByID :: "Engine \<Rightarrow> string \<Rightarrow> Rule option" where
  "EngineLookupByID e i = lookupRule i (en_rules e)"

fun replaceOrAppend :: "Rule \<Rightarrow> Rule list \<Rightarrow> Rule list" where
  "replaceOrAppend r [] = [r]"
| "replaceOrAppend r (x # xs) = (if ru_PolicyID x = ru_PolicyID r then r # xs else x # replaceOrAppend r xs)"

definition EngineAdd :: "Rule \<Rightarrow> Engine \<Rightarrow> Engine" where
  "EngineAdd r e = e\<lparr>en_rules := replaceOrAppend r (en_rules e)\<rparr>"

fun removeFirst :: "string \<Rightarrow> Rule list \<Rightarrow> bool \<times> Rule list" where
  "removeFirst i [] = (False, [])"
| "removeFirst i (x # xs) =
    (if ru_PolicyID x = i then (True, xs) else (case removeFirst i xs of (b, ys) \<Rightarrow> (b, x # ys)))"

definition EngineRemove :: "string \<Rightarrow> Engine \<Rightarrow> bool \<times> Engine" where
  "EngineRemove i e = (case removeFirst i (en_rules e) of (b, rs) \<Rightarrow> (b, e\<lparr>en_rules := rs\<rparr>))"

definition EngineSave :: "Rule list json \<Rightarrow> faults \<Rightarrow> Engine \<Rightarrow> fs \<Rightarrow> error option \<times> fs" where
  "EngineSave J F e fs = (case marshal J (en_rules e) of
      Inl err \<Rightarrow> (Some (''marshal policy: '' @ err), fs)
    | Inr d \<Rightarrow> write_rename F ''write policy tmp: '' ''rename policy: '' (en_path e) d fs)"

section \<open>What the matchers accept\<close>

lemma matchAnyDomain_iff [simp]: "matchAnyDomain U host ds \<longleftrightarrow> (\<exists>d \<in> set ds. matchDomain U host d)"
  by (induction ds) auto

lemma matchDomainList_iff:
  "matchDomainList U host ds \<longleftrightarrow> ds = [] \<or> (\<exists>d \<in> set ds. matchDomain U host d)"
  by (cases ds) (auto simp: matchDomainList_def)

lemma containsIgnoreCase_iff:
  "containsIgnoreCase U xs v \<longleftrightarrow> (\<exists>s \<in> set xs. ToUpper U s = ToUpper U v)"
  by (auto simp: containsIgnoreCase_def Let_def list_ex_iff)

lemma matchAnyPrefix_iff: "matchAnyPrefix path ps \<longleftrightarrow> (\<exists>p \<in> set ps. prefix p path)"
  by (auto simp: matchAnyPrefix_def list_ex_iff HasPrefix_iff)

text \<open>What a condition asks of the request: an empty field of the context never contradicts it.\<close>

definition cond_holds :: "RequestContext \<Rightarrow> string \<Rightarrow> string \<Rightarrow> bool" where
  "cond_holds ctx k v \<longleftrightarrow>
    (k = ''environment'' \<longrightarrow> rc_Environment ctx \<in> {[], v}) \<and>
    (k = ''team_id'' \<longrightarrow> rc_TeamID ctx \<in> {[], v}) \<and>
    (k = ''project_id'' \<longrightarrow> rc_ProjectID ctx \<in> {[], v})"

lemma matchConditions_iff:
  "matchConditions conds ctx \<longleftrightarrow> (\<forall>(k, v) \<in> set conds. cond_holds ctx k v)"
  by (induction conds ctx rule: matchConditions.induct) (auto simp: cond_holds_def)

definition ruleApplies :: "unicode \<Rightarrow> string \<Rightarrow> RequestContext \<Rightarrow> Rule \<Rightarrow> bool" where
  "ruleApplies U host ctx r \<longleftrightarrow>
     ru_AgentID r \<in> {''*'', [], rc_AgentID ctx} \<and>
     (ru_Domains r = [] \<or> (\<exists>d \<in> set (ru_Domains r). matchDomain U host d)) \<and>
     (ru_Methods r = [] \<or> rc_Method ctx = [] \<or>
        (\<exists>m \<in> set (ru_Methods r). ToUpper U m = ToUpper U (rc_Method ctx))) \<and>
     (ru_PathPrefixes r = [] \<or> rc_Path ctx = [] \<or>
        (\<exists>p \<in> set (ru_PathPrefixes r). prefix p (rc_Path ctx))) \<and>
     (\<forall>(k, v) \<in> set (ru_Conditions r). cond_holds ctx k v)"

definition default_deny :: Decision where
  "default_deny = \<lparr>de_Action = ''deny'', de_PolicyID = ''default-deny'',
     de_Reason = ''no matching allow rule''\<rparr>"

definition ruleDecision :: "Rule \<Rightarrow> Decision" where
  "ruleDecision r = \<lparr>de_Action = ru_Action r, de_PolicyID = ru_PolicyID r,
     de_Reason = ''matched rule '' @ ru_PolicyID r\<rparr>"

lemma evalLoop_step:
  "evalLoop U host ctx (r # rs) =
     (if ruleApplies U host ctx r then ruleDecision r else evalLoop U host ctx rs)"
  by (auto simp: ruleApplies_def ruleDecision_def matchDomainList_iff containsIgnoreCase_iff
    matchAnyPrefix_iff matchConditions_iff)

declare evalLoop.simps(2) [simp del]

interpretation policy_rules: first_match
  "\<lambda>(U, host, ctx). ruleApplies U host ctx" "\<lambda>_. ruleDecision" "\<lambda>_. default_deny"
  "\<lambda>(U, host, ctx). evalLoop U host ctx"
  by unfold_locales (auto simp: evalLoop_step default_deny_def)

text \<open>The host that the engine matches the patterns against.\<close>

definition evalHost :: "unicode \<Rightarrow> RequestContext \<Rightarrow> string" where
  "evalHost U ctx = sanitizeHost U (stripPort (rc_Destination ctx))"

lemma EvaluateRich_loop: "EvaluateRich U e ctx = evalLoop U (evalHost U ctx) ctx (en_rules e)"
  by (simp add: EvaluateRich_def evalHost_def)

section \<open>The engine is a keyed store\<close>

abbreviation policy_ids :: "Engine \<Rightarrow> string list" where
  "policy_ids e \<equiv> map ru_PolicyID (en_rules e)"

definition engine_ok :: "Engine \<Rightarrow> bool" where
  "engine_ok e \<longleftrightarrow> distinct (policy_ids e)"

lemma lookupRule_find: "lookupRule i rs = find (\<lambda>r. ru_PolicyID r = i) rs"
  by (induction rs) auto

lemma lookupRule_None: "lookupRule i rs = None \<longleftrightarrow> i \<notin> ru_PolicyID ` set rs"
  by (auto simp: lookupRule_find find_None_iff)

lemma replaceOrAppend_ids:
  "map ru_PolicyID (replaceOrAppend r rs) =
     (if ru_PolicyID r \<in> ru_PolicyID ` set rs then map ru_PolicyID rs
      else map ru_PolicyID rs @ [ru_PolicyID r])"
  by (induction rs) auto

lemma lookupRule_replaceOrAppend:
  "lookupRule i (replaceOrAppend r rs) = (if i = ru_PolicyID r then Some r else lookupRule i rs)"
  by (induction rs) auto

lemma removeFirst_fst: "fst (removeFirst i rs) \<longleftrightarrow> lookupRule i rs \<noteq> None"
  by (induction rs) (auto split: prod.splits)

lemma removeFirst_remove1: "map ru_PolicyID (snd (removeFirst i rs)) = remove1 i (map ru_PolicyID rs)"
  by (induction rs) (auto split: prod.splits)

lemma removeFirst_subseq: "subseq (snd (removeFirst i rs)) rs"
  by (induction rs) (auto split: prod.splits)

lemma lookupRule_removeFirst:
  "distinct (map ru_PolicyID rs) \<Longrightarrow>
   lookupRule j (snd (removeFirst i rs)) = (if j = i then None else lookupRule j rs)"
  by (induction rs) (auto split: prod.splits simp: lookupRule_None)

lemma EngineRemove_fst: "fst (EngineRemove i e) = fst (removeFirst i (en_rules e))"
  by (simp add: EngineRemove_def split: prod.splits)

lemma EngineRemove_snd: "snd (EngineRemove i e) = e\<lparr>en_rules := snd (removeFirst i (en_rules e))\<rparr>"
  by (simp add: EngineRemove_def split: prod.splits)

interpretation policy_store: keyed_store EngineLookupByID EngineAdd EngineRemove ru_PolicyID
  "\<lambda>r. r" engine_ok
proof unfold_locales
  fix s :: Engine and v k k'
  assume ok: "engine_ok s"
  show "EngineLookupByID (EngineAdd v s) k = (if k = ru_PolicyID v then Some v else EngineLookupByID s k)"
    by (simp add: EngineLookupByID_def EngineAdd_def lookupRule_replaceOrAppend)
  show "EngineLookupByID (snd (EngineRemove k s)) k' = (if k' = k then None else EngineLookupByID s k')"
    using ok by (simp add: EngineLookupByID_def EngineRemove_snd lookupRule_removeFirst engine_ok_def)
  show "fst (EngineRemove k s) = (EngineLookupByID s k \<noteq> None)"
    by (simp add: EngineLookupByID_def EngineRemove_fst removeFirst_fst)
  show "engine_ok (EngineAdd v s)"
    using ok by (auto simp: engine_ok_def EngineAdd_def replaceOrAppend_ids)
  show "engine_ok (snd (EngineRemove k s))"
    using ok by (simp add: engine_ok_def EngineRemove_snd removeFirst_remove1 distinct_remove1)
qed

interpretation policy_file: atomic_file "EngineSave J" "\<lambda>e. marshal J (en_rules e)" en_path
  for J :: "Rule list json"
proof unfold_locales
  fix F e fs fs' err and q :: string
  show "EngineSave J F e fs = (None, fs') \<Longrightarrow> \<exists>d. marshal J (en_rules e) = Inr d \<and> fs' (en_path e) = Some d"
    by (auto simp: EngineSave_def dest: write_rename_ok split: sum.splits)
  show "EngineSave J F e fs = (Some err, fs') \<Longrightarrow> fs' (en_path e) = fs (en_path e)"
    by (auto simp: EngineSave_def dest: write_rename_err split: sum.splits)
  show "q \<noteq> en_path e \<Longrightarrow> q \<noteq> tmp_path (en_path e) \<Longrightarrow> snd (EngineSave J F e fs) q = fs q"
    by (auto simp: EngineSave_def write_rename_frame split: sum.splits)
qed

end
