(* ===== verification/Policy_Props.thy ===== *)
theory Policy_Props
  imports Policy_Engine
begin

text \<open>
  What the policy engine guarantees: the language of the domain patterns, the host normalisation
  that makes port, case, trailing-dot, blank and NUL variants of a destination equal, first match
  wins with default deny, independence from map iteration order, and the effect of the upsert,
  delete, save and load operations on later decisions.
\<close>

section \<open>Domain patterns\<close>

text \<open>
  C4: the language of a domain pattern, for every host and pattern. With \<open>q\<close> the lower-cased
  pattern: \<open>*\<close> matches every host; \<open>*.d\<close> matches \<open>d\<close> itself and the hosts that end in \<open>.d\<close>, and so
  never a look-alike such as \<open>evil-d\<close>; any other pattern matches exactly the host equal to it.
\<close>

theorem domain_pattern_language:
  "matchDomain U h p \<longleftrightarrow>
     (if ToLower U p = ''*'' then True
      else if \<exists>d. ToLower U p = ''*.'' @ d
        then \<exists>d. ToLower U p = ''*.'' @ d \<and> (h = d \<or> (\<exists>l. h = l @ ''.'' @ d))
      else h = ToLower U p)"
proof -
  consider "ToLower U p = ''*''" | d where "ToLower U p = ''*.'' @ d"
    | "ToLower U p \<noteq> ''*''" "\<not> HasPrefix (ToLower U p) ''*.''"
    by (auto simp: HasPrefix_ex)
  then show ?thesis
  proof cases
    case 1
    then show ?thesis by (simp add: matchDomain_def)
  next
    case 2
    then show ?thesis by (auto simp: matchDomain_def HasSuffix_ex)
  next
    case 3
    then have "\<nexists>d. ToLower U p = ''*.'' @ d" by (auto simp: HasPrefix_ex)
    with 3 show ?thesis by (simp add: matchDomain_def)
  qed
qed

section \<open>Host normalisation\<close>

text \<open>Host names as DNS writes them: visible ASCII, no colon, bracket or space, no final dot.\<close>

definition dns_name :: "string \<Rightarrow> bool" where
  "dns_name h \<longleftrightarrow> h \<noteq> [] \<and> list_all visible h \<and> plain_host h \<and> last h \<noteq> CHR ''.''"

lemma dns_name_facts:
  assumes "dns_name h"
  shows "h \<noteq> []" "list_all visible h" "is_ascii h" "CHR 0x00 \<notin> set h"
    "CHR '':'' \<notin> set h" "CHR ''['' \<notin> set h" "CHR '']'' \<notin> set h"
  using assms by (auto simp: dns_name_def visible_def plain_host_def is_ascii_def list_all_iff)

lemma TrimRightSet_keep: "s \<noteq> [] \<Longrightarrow> last s \<notin> C \<Longrightarrow> TrimRightSet C s = s"
  by (cases s rule: rev_cases) (auto simp: TrimRightSet_def)

lemma sanitizeHost_dots:
  assumes "dns_name h" and "set dots \<subseteq> {CHR ''.''}"
  shows "sanitizeHost U (h @ dots) = ToLower U h"
proof -
  have 1: "CHR 0x00 \<notin> set (h @ dots)"
    using assms(2) dns_name_facts [OF assms(1)] by auto
  then have "IndexByte (h @ dots) (CHR 0x00) = None" by (rule IndexByte_absent)
  moreover have "TrimRightSet {CHR ''.''} (h @ dots) = h"
    using assms by (simp add: TrimRightSet_keep dns_name_def)
  ultimately show ?thesis
    using dns_name_facts [OF assms(1)] by (simp add: sanitizeHost_def TrimSpace_visible)
qed

lemma sanitizeHost_name: "dns_name h \<Longrightarrow> sanitizeHost U h = ToLower U h"
  using sanitizeHost_dots [of h "[]"] by simp

lemma sanitizeHost_nul:
  assumes "dns_name h"
  shows "sanitizeHost U (h @ CHR 0x00 # junk) = ToLower U h"
  using assms dns_name_facts [OF assms]
  by (simp add: sanitizeHost_def TrimRightSet_keep TrimSpace_visible dns_name_def)

lemma sanitizeHost_blanks:
  assumes "dns_name h" and "list_all blank b" and "list_all blank b'"
  shows "sanitizeHost U (b @ h @ b') = ToLower U h"
proof -
  have nb: "blank c \<Longrightarrow> c \<noteq> CHR 0x00 \<and> c \<noteq> CHR ''.''" for c
    by (auto simp: blank_def)
  have "CHR 0x00 \<notin> set (b @ h @ b')"
    using assms(2,3) dns_name_facts [OF assms(1)] nb by (auto simp: list_all_iff)
  then have 1: "IndexByte (b @ h @ b') (CHR 0x00) = None" by (rule IndexByte_absent)
  have "last (b @ h @ b') \<noteq> CHR ''.''"
    using assms nb by (auto simp: last_append dns_name_def list_all_iff)
  then have 2: "TrimRightSet {CHR ''.''} (b @ h @ b') = b @ h @ b'"
    using dns_name_facts(1) [OF assms(1)] by (intro TrimRightSet_keep) auto
  have 3: "TrimSpace (b @ h @ b') = h"
    using assms dns_name_facts [OF assms(1)] by (intro TrimSpace_blanks) auto
  show ?thesis by (simp add: sanitizeHost_def 1 2 3)
qed

lemma stripPort_port: "plain_host h \<Longrightarrow> plain_host p \<Longrightarrow> stripPort (h @ CHR '':'' # p) = h"
  by (simp add: stripPort_def SplitHostPort_plain)

lemma stripPort_plain: "CHR '':'' \<notin> set h \<Longrightarrow> stripPort h = h"
  by (simp add: stripPort_def SplitHostPort_no_colon)

text \<open>Splitting off a port never cuts into the part before the first colon.\<close>

lemma stripPort_unbracketed:
  "hp ! 0 \<noteq> CHR ''['' \<Longrightarrow>
     stripPort hp = hp \<or> (\<exists>i. LastIndexByte hp CHR '':'' = Some i \<and> stripPort hp = take i hp)"
  by (cases "LastIndexByte hp CHR '':''") (simp_all add: stripPort_def SplitHostPort_def Let_def)

lemma stripPort_prefix:
  assumes "CHR '':'' \<notin> set a" and "CHR ''['' \<notin> set a" and "a \<noteq> []"
  shows "\<exists>t. stripPort (a @ s) = a @ t"
proof -
  have "(a @ s) ! 0 \<noteq> CHR ''[''"
    using assms(2,3) by (cases a) auto
  then consider "stripPort (a @ s) = a @ s"
    | i where "LastIndexByte (a @ s) CHR '':'' = Some i" "stripPort (a @ s) = take i (a @ s)"
    using stripPort_unbracketed by blast
  then show ?thesis
  proof cases
    case 1
    then show ?thesis by blast
  next
    case 2
    then have "CHR '':'' \<in> set (a @ s)" by (metis LastIndexByte_None option.distinct(1))
    then obtain u v where uv: "a @ s = u @ CHR '':'' # v" "CHR '':'' \<notin> set v"
      by (meson split_list_last)
    with 2 have i: "i = length u" by simp
    have "length a \<le> length u"
    proof (rule ccontr)
      assume "\<not> length a \<le> length u"
      then have "(a @ s) ! length u \<in> set a" by (simp add: nth_append)
      with uv assms(1) show False by (metis nth_append_length)
    qed
    then have "take i (a @ s) = a @ take (i - length a) s"
      by (simp add: i)
    with 2 show ?thesis by metis
  qed
qed

text \<open>
  C16: these spellings of a destination are decided alike. For a DNS name \<open>h\<close>, the decision is the
  same for \<open>h\<close>, for \<open>h\<close> with trailing dots, with a port, with a port after the dots, with any bytes
  after a NUL, with blanks around it, and for every spelling \<open>g\<close> that differs from it in case only.
\<close>

theorem evasion_variants_equal:
  assumes "dns_name h" and "dns_name g" and "ToLower U g = ToLower U h"
    and "set dots \<subseteq> {CHR ''.''}" and "plain_host port"
    and "list_all blank b" and "list_all blank b'"
    and "dest \<in> {g, g @ dots, g @ CHR '':'' # port, g @ dots @ CHR '':'' # port,
                 g @ CHR 0x00 # junk, b @ g @ b'}"
  shows "EvaluateRich U e (ctx\<lparr>rc_Destination := dest\<rparr>) = EvaluateRich U e (ctx\<lparr>rc_Destination := h\<rparr>)"
proof -
  note g = dns_name_facts [OF assms(2)]
  have ph: "plain_host g" "plain_host (g @ dots)"
    using assms(2,4) by (auto simp: dns_name_def plain_host_def)
  have nb: "blank c \<Longrightarrow> c \<noteq> CHR '':''" for c by (auto simp: blank_def)
  have blanks: "CHR '':'' \<notin> set (b @ g @ b')"
    using g assms(6,7) nb by (auto simp: list_all_iff)
  obtain t where t: "stripPort (g @ CHR 0x00 # junk) = g @ CHR 0x00 # t"
    using stripPort_prefix [of "g @ [CHR 0x00]" junk] g by auto
  have port: "stripPort (g @ CHR '':'' # port) = g"
      "stripPort (g @ dots @ CHR '':'' # port) = g @ dots"
    using stripPort_port [OF ph(1) assms(5)] stripPort_port [OF ph(2) assms(5)] by simp_all
  have dots: "stripPort (g @ dots) = g @ dots"
    using ph(2) by (intro stripPort_plain) (auto simp: plain_host_def)
  consider "dest = g" | "dest = g @ dots" | "dest = g @ CHR '':'' # port"
    | "dest = g @ dots @ CHR '':'' # port" | "dest = g @ CHR 0x00 # junk" | "dest = b @ g @ b'"
    using assms(8) by auto
  then have "sanitizeHost U (stripPort dest) = ToLower U g"
    by cases (simp_all add: port dots t stripPort_plain [OF g(5)] stripPort_plain [OF blanks]
      assms sanitizeHost_name sanitizeHost_dots sanitizeHost_nul sanitizeHost_blanks)
  moreover have "sanitizeHost U (stripPort h) = ToLower U h"
    using dns_name_facts [OF assms(1)] assms(1) by (simp add: stripPort_plain sanitizeHost_name)
  moreover have "evalLoop U host (ctx\<lparr>rc_Destination := d\<rparr>) rs =
      evalLoop U host (ctx\<lparr>rc_Destination := d'\<rparr>) rs" for host d d' rs
    by (induction rs) (auto simp: evalLoop_step ruleApplies_def cond_holds_def)
  ultimately show ?thesis
    using assms(3) by (simp add: EvaluateRich_def)
qed

text \<open>A witness for the variants: one spelling with a port after trailing dots, in capitals.\<close>

definition plain_ctx :: "string \<Rightarrow> string \<Rightarrow> RequestContext" where
  "plain_ctx a d = \<lparr>rc_AgentID = a, rc_Destination = d, rc_Method = ''GET'', rc_Path = ''/'',
     rc_Environment = [], rc_TeamID = [], rc_ProjectID = []\<rparr>"

definition mk_rule :: "string \<Rightarrow> string \<Rightarrow> string list \<Rightarrow> string \<Rightarrow> Rule" where
  "mk_rule i a ds act = \<lparr>ru_PolicyID = i, ru_AgentID = a, ru_Domains = ds, ru_Methods = [],
     ru_PathPrefixes = [], ru_Conditions = [], ru_Action = act\<rparr>"

definition evil_engine :: Engine where
  "evil_engine = \<lparr>en_rules = [mk_rule ''deny-evil'' ''*'' [''evil.com''] ''deny'',
     mk_rule ''allow-all'' ''*'' [''*''] ''allow''], en_path = ''p.json''\<rparr>"

theorem evasion_variants_equal_witness:
  "EvaluateRich ascii_only evil_engine ((plain_ctx ''a1'' [])\<lparr>rc_Destination := ''EVIL.COM..:8443''\<rparr>) =
   EvaluateRich ascii_only evil_engine ((plain_ctx ''a1'' [])\<lparr>rc_Destination := ''evil.com''\<rparr>)"
proof -
  have n: "dns_name ''evil.com''" "dns_name ''EVIL.COM''" "plain_host ''8443''"
    by (simp_all add: dns_name_def visible_def plain_host_def)
  have l: "ToLower ascii_only ''EVIL.COM'' = ToLower ascii_only ''evil.com''"
    by code_simp
  show ?thesis
    by (rule evasion_variants_equal [where g = "''EVIL.COM''" and dots = "''..''" and port = "''8443''"
      and b = "[]" and b' = "[]" and junk = "[]"]) (simp_all add: n l)
qed

text \<open>
  the order of the clean-up steps leaves a gap. Trailing dots are cut before blanks are, so a
  dot that is followed by a blank survives the normalisation: \<open>evil.com. \<close> is not seen as
  \<open>evil.com\<close>, the deny rule misses it and the later allow rule answers, although the comment on
  \<open>sanitizeHost\<close> promises both removals. Normalising twice would give a different host.
\<close>

theorem dot_before_blank_evades:
  "sanitizeHost ascii_only ''evil.com. '' = ''evil.com.'' \<and>
   sanitizeHost ascii_only (sanitizeHost ascii_only ''evil.com. '') = ''evil.com'' \<and>
   de_Action (Evaluate ascii_only evil_engine ''a1'' ''evil.com.'') = ''deny'' \<and>
   de_Action (Evaluate ascii_only evil_engine ''a1'' ''evil.com. '') = ''allow''"
  by (intro conjI) code_simp+

section \<open>First match wins, default deny\<close>

text \<open>
  C3: the decision is the one of the first rule that applies to the request (its agent, one of its
  domain patterns, methods and path prefixes, and all its conditions), and the default deny exactly
  when no rule applies. In particular nothing is allowed without an explicit allow rule.
\<close>

theorem evaluate_first_match:
  "EvaluateRich U e ctx = d \<longleftrightarrow>
     (d = default_deny \<and> (\<forall>r \<in> set (en_rules e). \<not> ruleApplies U (evalHost U ctx) ctx r)) \<or>
     (\<exists>xs r ys. en_rules e = xs @ r # ys \<and> ruleApplies U (evalHost U ctx) ctx r \<and>
        (\<forall>x \<in> set xs. \<not> ruleApplies U (evalHost U ctx) ctx x) \<and> d = ruleDecision r)"
proof
  assume "EvaluateRich U e ctx = d"
  then show "(d = default_deny \<and> (\<forall>r \<in> set (en_rules e). \<not> ruleApplies U (evalHost U ctx) ctx r)) \<or>
     (\<exists>xs r ys. en_rules e = xs @ r # ys \<and> ruleApplies U (evalHost U ctx) ctx r \<and>
        (\<forall>x \<in> set xs. \<not> ruleApplies U (evalHost U ctx) ctx x) \<and> d = ruleDecision r)"
    using policy_rules.run_cases [of "(U, evalHost U ctx, ctx)" "en_rules e"]
    by (fastforce simp: EvaluateRich_loop)
next
  assume "(d = default_deny \<and> (\<forall>r \<in> set (en_rules e). \<not> ruleApplies U (evalHost U ctx) ctx r)) \<or>
     (\<exists>xs r ys. en_rules e = xs @ r # ys \<and> ruleApplies U (evalHost U ctx) ctx r \<and>
        (\<forall>x \<in> set xs. \<not> ruleApplies U (evalHost U ctx) ctx x) \<and> d = ruleDecision r)"
  then show "EvaluateRich U e ctx = d"
    using policy_rules.run_miss [of "en_rules e" "(U, evalHost U ctx, ctx)"]
      policy_rules.run_append [of "(U, evalHost U ctx, ctx)"]
      policy_rules.run_cons [of "(U, evalHost U ctx, ctx)"]
    by (auto simp: EvaluateRich_loop)
qed

theorem evaluate_first_match_witness:
  "EvaluateRich ascii_only evil_engine (plain_ctx ''a1'' ''www.example.org'') =
     ruleDecision (en_rules evil_engine ! 1)"
  unfolding evaluate_first_match
  by (intro disjI2 exI [of _ "[en_rules evil_engine ! 0]"] exI [of _ "en_rules evil_engine ! 1"]
      exI [of _ "drop 2 (en_rules evil_engine)"]) code_simp

lemma evaluate_allow:
  "de_Action (EvaluateRich U e ctx) = ''allow'' \<Longrightarrow>
   \<exists>r \<in> set (en_rules e). ruleApplies U (evalHost U ctx) ctx r \<and> ru_Action r = ''allow'' \<and>
     de_PolicyID (EvaluateRich U e ctx) = ru_PolicyID r"
  using policy_rules.run_cases [of "(U, evalHost U ctx, ctx)" "en_rules e"]
  by (auto simp: EvaluateRich_loop default_deny_def ruleDecision_def)

definition same_rule :: "Rule \<Rightarrow> Rule \<Rightarrow> bool" where
  "same_rule r r' \<longleftrightarrow> set (ru_Conditions r) = set (ru_Conditions r') \<and>
     r\<lparr>ru_Conditions := []\<rparr> = r'\<lparr>ru_Conditions := []\<rparr>"

lemma same_rule_applies:
  "same_rule r r' \<Longrightarrow> ruleApplies U h ctx r = ruleApplies U h ctx r' \<and> ruleDecision r = ruleDecision r'"
  by (cases r; cases r') (simp add: same_rule_def ruleApplies_def ruleDecision_def)

text \<open>
  the same request gives the same decision whatever order Go visits the conditions map in: rule
  lists that differ only in the order of their condition entries decide alike.
\<close>

theorem evaluate_map_order_independent:
  assumes "list_all2 same_rule rs rs'"
  shows "EvaluateRich U (e\<lparr>en_rules := rs\<rparr>) ctx = EvaluateRich U (e\<lparr>en_rules := rs'\<rparr>) ctx"
proof -
  have "evalLoop U h ctx rs = evalLoop U h ctx rs'" for h
    using assms
    by (induction rs rs' rule: list_all2_induct) (simp_all add: evalLoop_step same_rule_applies)
  then show ?thesis by (simp add: EvaluateRich_def Let_def)
qed

definition cond_rule :: "(string, string) gomap \<Rightarrow> Rule" where
  "cond_rule cs = (mk_rule ''c'' ''*'' [''*''] ''allow'')\<lparr>ru_Conditions := cs\<rparr>"

theorem evaluate_map_order_independent_witness:
  "EvaluateRich ascii_only (evil_engine\<lparr>en_rules :=
      [cond_rule [(''environment'', ''prod''), (''team_id'', ''ops'')]]\<rparr>) (plain_ctx ''a'' ''x.com'') =
   EvaluateRich ascii_only (evil_engine\<lparr>en_rules :=
      [cond_rule [(''team_id'', ''ops''), (''environment'', ''prod'')]]\<rparr>) (plain_ctx ''a'' ''x.com'')"
  by (rule evaluate_map_order_independent)
    (auto simp: same_rule_def cond_rule_def mk_rule_def insert_commute)

section \<open>Changing the rules\<close>

lemma evalLoop_replaceOrAppend:
  assumes "\<not> ruleApplies U h ctx r"
    and "\<forall>x \<in> set rs. ru_PolicyID x = ru_PolicyID r \<longrightarrow> \<not> ruleApplies U h ctx x"
  shows "evalLoop U h ctx (replaceOrAppend r rs) = evalLoop U h ctx rs"
  using assms by (induction rs) (auto simp: evalLoop_step)

text \<open>
  an upsert keeps the priorities. Adding a rule under an existing id replaces that rule in its
  place; under a new id the rule goes last. So a request to which neither the new rule nor a rule of
  the same id applies is decided as before.
\<close>

theorem upsert_keeps_priorities:
  assumes "\<not> ruleApplies U (evalHost U ctx) ctx r"
    and "\<forall>x \<in> set (en_rules e). ru_PolicyID x = ru_PolicyID r \<longrightarrow> \<not> ruleApplies U (evalHost U ctx) ctx x"
  shows "EvaluateRich U (EngineAdd r e) ctx = EvaluateRich U e ctx \<and>
     policy_ids (EngineAdd r e) =
       (if ru_PolicyID r \<in> set (policy_ids e) then policy_ids e else policy_ids e @ [ru_PolicyID r])"
  using evalLoop_replaceOrAppend [OF assms]
  by (simp add: EvaluateRich_loop EngineAdd_def replaceOrAppend_ids)

theorem upsert_keeps_priorities_witness:
  "EvaluateRich ascii_only (EngineAdd (mk_rule ''new'' ''other'' [''*''] ''deny'') evil_engine)
     (plain_ctx ''a1'' ''good.com'') =
   EvaluateRich ascii_only evil_engine (plain_ctx ''a1'' ''good.com'')"
  using upsert_keeps_priorities [of ascii_only "plain_ctx ''a1'' ''good.com''"
      "mk_rule ''new'' ''other'' [''*''] ''deny''" evil_engine]
  by (simp add: ruleApplies_def mk_rule_def plain_ctx_def evil_engine_def)

lemma removeFirst_filter:
  "distinct (map ru_PolicyID rs) \<Longrightarrow> snd (removeFirst i rs) = filter (\<lambda>r. ru_PolicyID r \<noteq> i) rs"
proof (induction rs)
  case (Cons r rs)
  then have "ru_PolicyID r = i \<Longrightarrow> filter (\<lambda>r. ru_PolicyID r \<noteq> i) rs = rs"
    by (metis (mono_tags, lifting) distinct.simps(2) filter_id_conv image_eqI list.set_map list.simps(9))
  with Cons show ?case by (auto split: prod.splits)
qed simp

text \<open>
  what an upsert and a delete do to lookups and to decisions, in an engine whose ids are
  distinct (which both operations keep): the added rule is found under its id, the deleted id is
  gone, a second delete reports nothing, and after a delete every request is decided as if the rule
  had never been in the list.
\<close>

theorem engine_upsert_delete:
  assumes "engine_ok e"
  shows "EngineLookupByID (EngineAdd r e) (ru_PolicyID r) = Some r \<and> engine_ok (EngineAdd r e) \<and>
     engine_ok (snd (EngineRemove i e)) \<and>
     (fst (EngineRemove i e) \<longleftrightarrow> i \<in> set (policy_ids e)) \<and>
     EngineLookupByID (snd (EngineRemove i e)) i = None \<and>
     \<not> fst (EngineRemove i (snd (EngineRemove i e))) \<and>
     EvaluateRich U (snd (EngineRemove i e)) ctx =
       EvaluateRich U (e\<lparr>en_rules := filter (\<lambda>r. ru_PolicyID r \<noteq> i) (en_rules e)\<rparr>) ctx"
proof -
  have "fst (EngineRemove i e) \<longleftrightarrow> i \<in> set (policy_ids e)"
    using lookupRule_None [of i "en_rules e"]
    by (simp add: policy_store.removed_iff [OF assms] EngineLookupByID_def del: not_None_eq)
  moreover have "snd (removeFirst i (en_rules e)) = filter (\<lambda>r. ru_PolicyID r \<noteq> i) (en_rules e)"
    using assms by (simp add: engine_ok_def removeFirst_filter)
  ultimately show ?thesis
    using policy_store.get_after_add [OF assms, of r] policy_store.inv_add [OF assms, of r]
      policy_store.inv_remove [OF assms, of i] policy_store.get_after_remove [OF assms, of i]
      policy_store.remove_once [OF assms, of i]
    by (simp add: EngineRemove_snd)
qed

theorem engine_upsert_delete_witness:
  "engine_ok evil_engine \<and> fst (EngineRemove ''deny-evil'' evil_engine) \<and>
   de_Action (Evaluate ascii_only (snd (EngineRemove ''deny-evil'' evil_engine)) ''a1'' ''evil.com'') = ''allow''"
proof -
  have ok: "engine_ok evil_engine" by (simp add: engine_ok_def evil_engine_def mk_rule_def)
  have "''deny-evil'' \<in> set (policy_ids evil_engine)" by (simp add: evil_engine_def mk_rule_def)
  then have r: "fst (EngineRemove ''deny-evil'' evil_engine)"
    using engine_upsert_delete [OF ok, of "mk_rule [] [] [] []" "''deny-evil''"] by blast
  have "de_Action (Evaluate ascii_only (snd (EngineRemove ''deny-evil'' evil_engine)) ''a1'' ''evil.com'') = ''allow''"
    by code_simp
  with ok r show ?thesis by blast
qed

text \<open>
  C17: persistence. A save that reports success, read back by an engine on the same path, gives that
  engine exactly the saved rules, so both processes decide every request alike. A save that fails
  leaves the policy file untouched. A load that fails keeps the rules in force (the last known good
  policy), and a missing file is the empty policy, which denies every request.
\<close>

theorem policy_persistence:
  assumes "json_roundtrip J (en_rules e)" and "en_path g = en_path e"
    and "f_read G (en_path e) = None"
  shows "(EngineSave J F e fs = (None, fs') \<longrightarrow>
       EngineLoad J (ReadFile G fs' (en_path g)) g = (None, g\<lparr>en_rules := en_rules e\<rparr>) \<and>
       EvaluateRich U (snd (EngineLoad J (ReadFile G fs' (en_path g)) g)) ctx = EvaluateRich U e ctx) \<and>
     (EngineSave J F e fs = (Some err, fs') \<longrightarrow> fs' (en_path e) = fs (en_path e)) \<and>
     (\<forall>rd m. fst (EngineLoad J rd g) = Some m \<longrightarrow> snd (EngineLoad J rd g) = g) \<and>
     de_Action (EvaluateRich U (snd (EngineLoad J RNotExist g)) ctx) = ''deny''"
proof (intro conjI impI allI)
  assume "EngineSave J F e fs = (None, fs')"
  then obtain d where d: "marshal J (en_rules e) = Inr d" "ReadFile G fs' (en_path e) = RData d"
    using policy_file.ok_readable assms(3) by blast
  with assms(1) have "unmarshal J d = Inr (en_rules e)" by (simp add: json_roundtrip_def)
  with d assms(2) show
    "EngineLoad J (ReadFile G fs' (en_path g)) g = (None, g\<lparr>en_rules := en_rules e\<rparr>)"
    by (simp add: EngineLoad_def)
  then show "EvaluateRich U (snd (EngineLoad J (ReadFile G fs' (en_path g)) g)) ctx = EvaluateRich U e ctx"
    by (simp add: EvaluateRich_loop)
next
  show "EngineSave J F e fs = (Some err, fs') \<Longrightarrow> fs' (en_path e) = fs (en_path e)"
    by (rule policy_file.save_err)
next
  fix rd m
  show "fst (EngineLoad J rd g) = Some m \<Longrightarrow> snd (EngineLoad J rd g) = g"
    by (auto simp: EngineLoad_def split: read_result.splits sum.splits)
next
  show "de_Action (EvaluateRich U (snd (EngineLoad J RNotExist g)) ctx) = ''deny''"
    by (simp add: EngineLoad_def EvaluateRich_loop)
qed

definition one_rule_json :: "Rule list json" where
  "one_rule_json = \<lparr>marshal = (\<lambda>rs. if rs = en_rules evil_engine then Inr ''E'' else Inl ''x''),
     unmarshal = (\<lambda>d. if d = ''E'' then Inr (en_rules evil_engine) else Inl ''bad'')\<rparr>"

theorem policy_persistence_witness:
  "de_Action (EvaluateRich ascii_only (snd (EngineLoad one_rule_json RNotExist evil_engine))
     (plain_ctx ''a'' ''b'')) = ''deny'' \<and>
   fst (EngineSave one_rule_json no_faults evil_engine (\<lambda>_. None)) = None \<and>
   snd (EngineLoad one_rule_json
     (ReadFile no_faults (snd (EngineSave one_rule_json no_faults evil_engine (\<lambda>_. None))) ''p.json'')
     (evil_engine\<lparr>en_rules := []\<rparr>)) = evil_engine"
proof -
  have rt: "json_roundtrip one_rule_json (en_rules evil_engine)"
    by (simp add: json_roundtrip_def one_rule_json_def)
  have ok: "fst (EngineSave one_rule_json no_faults evil_engine (\<lambda>_. None)) = None"
    by (simp add: EngineSave_def one_rule_json_def write_rename_no_faults)
  define g where "g = evil_engine\<lparr>en_rules := []\<rparr>"
  have p: "en_path g = en_path evil_engine" "en_path evil_engine = ''p.json''"
    by (simp_all add: g_def evil_engine_def)
  note main = policy_persistence [OF rt p(1) no_faults_simps(1)]
  have "EngineSave one_rule_json no_faults evil_engine (\<lambda>_. None) =
      (None, snd (EngineSave one_rule_json no_faults evil_engine (\<lambda>_. None)))"
    using ok by (simp add: prod_eq_iff)
  with main have "EngineLoad one_rule_json (ReadFile no_faults
      (snd (EngineSave one_rule_json no_faults evil_engine (\<lambda>_. None))) (en_path g)) g =
      (None, g\<lparr>en_rules := en_rules evil_engine\<rparr>)" by blast
  moreover have "de_Action (EvaluateRich ascii_only (snd (EngineLoad one_rule_json RNotExist evil_engine))
     (plain_ctx ''a'' ''b'')) = ''deny''"
    using policy_persistence [OF rt refl no_faults_simps(1)] by blast
  ultimately show ?thesis using ok p by (simp add: g_def)
qed

end
