(* ===== verification/Policy_Conflict.thy ===== *)
theory Policy_Conflict
  imports Policy_Props
begin

text \<open>
  Conflict detection, \<open>internal/policy/conflict.go\<close>: the overlap tests on agents and on domain
  patterns, and the double loop over the rules. The overlap test on patterns is shown to be exact;
  the report is shown equal, entry by entry, to what the engine's tests give for rules that name their
  agents, and blind to rules without domains.
\<close>

record Conflict =
  cf_RuleA :: Rule
  cf_RuleB :: Rule
  cf_Domain :: string
  cf_AgentID :: string
  cf_Severity :: string

definition agentOverlaps :: "string \<Rightarrow> string \<Rightarrow> bool" where
  "agentOverlaps a b \<longleftrightarrow> a = ''*'' \<or> b = ''*'' \<or> a = b"

definition domainOverlaps :: "unicode \<Rightarrow> string \<Rightarrow> string \<Rightarrow> bool" where
  "domainOverlaps U a b =
    (if a = ''*'' \<or> b = ''*'' then True
     else if a = b then True
     else if matchDomain U a b \<or> matchDomain U b a then True
     else False)"

definition conflictsOf :: "unicode \<Rightarrow> Rule \<Rightarrow> Rule \<Rightarrow> Conflict list" where
  "conflictsOf U a b =
    (if ru_Action a = ru_Action b then []
     else if \<not> agentOverlaps (ru_AgentID a) (ru_AgentID b) then []
     else concat (map (\<lambda>da. concat (map (\<lambda>db.
       if domainOverlaps U da db then
         (let agentDesc = (if ru_AgentID a = ''*'' \<or> ru_AgentID b = ''*'' then ''*'' else ru_AgentID a) in
          [\<lparr>cf_RuleA = a, cf_RuleB = b, cf_Domain = da @ '' / '' @ db,
            cf_AgentID = agentDesc, cf_Severity = ''shadowed''\<rparr>])
       else []) (ru_Domains b))) (ru_Domains a)))"

fun DetectConflicts :: "unicode \<Rightarrow> Rule list \<Rightarrow> Conflict list" where
  "DetectConflicts U [] = []"
| "DetectConflicts U (a # rest) = concat (map (conflictsOf U a) rest) @ DetectConflicts U rest"

section \<open>The pattern overlap test is exact\<close>

lemma suffix_comparable: "suffix a c \<Longrightarrow> suffix b c \<Longrightarrow> suffix a b \<or> suffix b a"
  using suffix_same_cases by blast

text \<open>\<open>d\<close> or a host below it: the hosts that \<open>*.d\<close> matches.\<close>

definition below :: "string \<Rightarrow> string \<Rightarrow> bool" where
  "below h d \<longleftrightarrow> h = d \<or> suffix (CHR ''.'' # d) h"

lemma below_trans: "below h d \<Longrightarrow> below d e \<Longrightarrow> below h e"
  unfolding below_def by (metis suffix_ConsD suffix_order.trans)

lemma below_refl [simp]: "below d d"
  by (simp add: below_def)

lemma below_comparable: "below h d \<Longrightarrow> below h e \<Longrightarrow> below d e \<or> below e d"
proof -
  assume "below h d" and "below h e"
  then have "suffix d h" "suffix e h" by (auto simp: below_def dest: suffix_ConsD)
  then show ?thesis
  proof (cases "h = d \<or> h = e")
    case True
    with \<open>below h d\<close> \<open>below h e\<close> show ?thesis by auto
  next
    case False
    with \<open>below h d\<close> \<open>below h e\<close> have "suffix (CHR ''.'' # d) h" "suffix (CHR ''.'' # e) h"
      by (auto simp: below_def)
    then have "suffix (CHR ''.'' # d) (CHR ''.'' # e) \<or> suffix (CHR ''.'' # e) (CHR ''.'' # d)"
      by (rule suffix_comparable)
    then show ?thesis by (auto simp: below_def suffix_Cons)
  qed
qed

lemma below_star: "below (''*.'' @ d) e \<longleftrightarrow> below d e \<or> e = ''*.'' @ d"
  by (auto simp: below_def suffix_Cons)

lemma matchDomain_lower:
  assumes "ToLower U p = p"
  shows "matchDomain U h p \<longleftrightarrow>
    p = ''*'' \<or> (\<exists>d. p = ''*.'' @ d \<and> below h d) \<or> (h = p \<and> (\<nexists>d. p = ''*.'' @ d))"
  using assms by (auto simp: matchDomain_def HasPrefix_ex HasSuffix_iff below_def)

lemma domainOverlaps_common_host:
  assumes a: "ToLower U a = a" and b: "ToLower U b = b"
  shows "domainOverlaps U a b \<longleftrightarrow> (\<exists>h. matchDomain U h a \<and> matchDomain U h b)"
proof -
  note mA = matchDomain_lower [OF a] and mB = matchDomain_lower [OF b]
  have own: "\<exists>h. matchDomain U h p" if "ToLower U p = p" for p
    using matchDomain_lower [OF that] below_refl by metis
  consider "a = ''*'' \<or> b = ''*''"
    | d e where "a = ''*.'' @ d" "b = ''*.'' @ e"
    | d where "a = ''*.'' @ d" "b \<noteq> ''*''" "\<nexists>e. b = ''*.'' @ e"
    | e where "b = ''*.'' @ e" "a \<noteq> ''*''" "\<nexists>d. a = ''*.'' @ d"
    | "a \<noteq> ''*''" "b \<noteq> ''*''" "\<nexists>d. a = ''*.'' @ d" "\<nexists>e. b = ''*.'' @ e"
    by blast
  then show ?thesis
  proof cases
    case 1
    then show ?thesis using own [OF a] own [OF b] by (auto simp: domainOverlaps_def mA mB)
  next
    case 2
    have A: "matchDomain U h a \<longleftrightarrow> below h d" and B: "matchDomain U h b \<longleftrightarrow> below h e" for h
      unfolding mA mB using 2 by auto
    have "below (''*.'' @ d) d" "below (''*.'' @ e) e"
      by (simp_all only: below_star below_refl simp_thms)
    moreover have "domainOverlaps U a b \<longleftrightarrow> d = e \<or> below (''*.'' @ d) e \<or> below (''*.'' @ e) d"
      unfolding domainOverlaps_def A B using 2 by simp
    ultimately have "domainOverlaps U a b \<longleftrightarrow> below d e \<or> below e d"
      using below_star [of d e] below_star [of e d] below_refl by metis
    also have "\<dots> \<longleftrightarrow> (\<exists>h. below h d \<and> below h e)"
      using below_comparable below_trans below_refl by metis
    finally show ?thesis by (simp add: A B)
  next
    case 3
    then show ?thesis by (auto simp: domainOverlaps_def mA mB)
  next
    case 4
    then show ?thesis by (auto simp: domainOverlaps_def mA mB)
  next
    case 5
    then show ?thesis by (auto simp: domainOverlaps_def mA mB)
  qed
qed

section \<open>What the report says\<close>

lemma mem_conflictsOf:
  "c \<in> set (conflictsOf U a b) \<longleftrightarrow>
     ru_Action a \<noteq> ru_Action b \<and> agentOverlaps (ru_AgentID a) (ru_AgentID b) \<and>
     (\<exists>da \<in> set (ru_Domains a). \<exists>db \<in> set (ru_Domains b). domainOverlaps U da db \<and>
        c = \<lparr>cf_RuleA = a, cf_RuleB = b, cf_Domain = da @ '' / '' @ db,
             cf_AgentID = (if ru_AgentID a = ''*'' \<or> ru_AgentID b = ''*'' then ''*'' else ru_AgentID a),
             cf_Severity = ''shadowed''\<rparr>)"
  by (auto simp: conflictsOf_def split: if_splits)

definition earlier :: "'a \<Rightarrow> 'a \<Rightarrow> 'a list \<Rightarrow> bool" where
  "earlier a b rs \<longleftrightarrow> (\<exists>xs ys zs. rs = xs @ a # ys @ b # zs)"

lemma earlier_Nil [simp]: "\<not> earlier a b []"
  by (simp add: earlier_def)

lemma earlier_Cons [simp]: "earlier a b (r # rs) \<longleftrightarrow> a = r \<and> b \<in> set rs \<or> earlier a b rs"
proof
  assume "earlier a b (r # rs)"
  then obtain xs ys zs where "r # rs = xs @ a # ys @ b # zs" by (auto simp: earlier_def)
  then show "a = r \<and> b \<in> set rs \<or> earlier a b rs"
    by (cases xs) (auto simp: earlier_def)
next
  assume "a = r \<and> b \<in> set rs \<or> earlier a b rs"
  then show "earlier a b (r # rs)"
  proof
    assume "a = r \<and> b \<in> set rs"
    then obtain ys zs where "r # rs = [] @ a # ys @ b # zs" by (auto dest: split_list)
    then show ?thesis unfolding earlier_def by blast
  next
    assume "earlier a b rs"
    then show ?thesis unfolding earlier_def by (metis append_Cons)
  qed
qed

lemma mem_DetectConflicts:
  "c \<in> set (DetectConflicts U rs) \<longleftrightarrow> (\<exists>a b. earlier a b rs \<and> c \<in> set (conflictsOf U a b))"
  by (induction rs) auto

lemma conflictsOf_rules: "c \<in> set (conflictsOf U a b) \<Longrightarrow> cf_RuleA c = a \<and> cf_RuleB c = b"
  by (auto simp: mem_conflictsOf)

lemma reported_pair:
  "(\<exists>c \<in> set (DetectConflicts U rs). cf_RuleA c = a \<and> cf_RuleB c = b) \<longleftrightarrow>
     earlier a b rs \<and> conflictsOf U a b \<noteq> []"
proof
  assume "\<exists>c \<in> set (DetectConflicts U rs). cf_RuleA c = a \<and> cf_RuleB c = b"
  then obtain c a' b' where "earlier a' b' rs" "c \<in> set (conflictsOf U a' b')"
      "cf_RuleA c = a" "cf_RuleB c = b"
    by (auto simp: mem_DetectConflicts)
  then show "earlier a b rs \<and> conflictsOf U a b \<noteq> []"
    using conflictsOf_rules by fastforce
next
  assume *: "earlier a b rs \<and> conflictsOf U a b \<noteq> []"
  then obtain c where "c \<in> set (conflictsOf U a b)" by (meson list.set_sel(1))
  with * show "\<exists>c \<in> set (DetectConflicts U rs). cf_RuleA c = a \<and> cf_RuleB c = b"
    using conflictsOf_rules mem_DetectConflicts by blast
qed

text \<open>
  What the report should be, in terms of the engine: the pairs of rules in order, the later rule running
  fastest, and for each pair of different actions that some agent passes, one entry for each pair of
  patterns that some host matches.
\<close>

fun rule_pairs :: "Rule list \<Rightarrow> (Rule \<times> Rule) list" where
  "rule_pairs [] = []"
| "rule_pairs (a # rs) = map (Pair a) rs @ rule_pairs rs"

definition agent_passes :: "Rule \<Rightarrow> string \<Rightarrow> bool" where
  "agent_passes r agent \<longleftrightarrow> ru_AgentID r \<in> {''*'', [], agent}"

definition conflict_entry :: "Rule \<Rightarrow> Rule \<Rightarrow> string \<Rightarrow> string \<Rightarrow> Conflict" where
  "conflict_entry a b da db = \<lparr>cf_RuleA = a, cf_RuleB = b, cf_Domain = da @ '' / '' @ db,
     cf_AgentID = (if ru_AgentID a = ''*'' \<or> ru_AgentID b = ''*'' then ''*'' else ru_AgentID a),
     cf_Severity = ''shadowed''\<rparr>"

definition expected_conflicts :: "unicode \<Rightarrow> Rule list \<Rightarrow> Conflict list" where
  "expected_conflicts U rs = concat (map (\<lambda>(a, b).
     if ru_Action a \<noteq> ru_Action b \<and> (\<exists>ag. agent_passes a ag \<and> agent_passes b ag)
     then map (\<lambda>(da, db). conflict_entry a b da db)
       (filter (\<lambda>(da, db). \<exists>h. matchDomain U h da \<and> matchDomain U h db) (List.product (ru_Domains a) (ru_Domains b)))
     else []) (rule_pairs rs))"

definition both_reach :: "unicode \<Rightarrow> Rule \<Rightarrow> Rule \<Rightarrow> string \<Rightarrow> string \<Rightarrow> bool" where
  "both_reach U a b agent h \<longleftrightarrow> agent_passes a agent \<and> agent_passes b agent \<and>
     matchDomainList U h (ru_Domains a) \<and> matchDomainList U h (ru_Domains b)"

lemma agentOverlaps_common:
  assumes "ru_AgentID a \<noteq> []" and "ru_AgentID b \<noteq> []"
  shows "agentOverlaps (ru_AgentID a) (ru_AgentID b) \<longleftrightarrow> (\<exists>ag. agent_passes a ag \<and> agent_passes b ag)"
  using assms by (auto simp: agentOverlaps_def agent_passes_def)

lemma DetectConflicts_pairs: "DetectConflicts U rs = concat (map (\<lambda>(a, b). conflictsOf U a b) (rule_pairs rs))"
  by (induction rs) (simp_all add: comp_def)

lemma mem_rule_pairs: "(a, b) \<in> set (rule_pairs rs) \<longleftrightarrow> earlier a b rs"
  by (induction rs) auto

lemma earlier_mem: "earlier a b rs \<Longrightarrow> a \<in> set rs \<and> b \<in> set rs"
  by (auto simp: earlier_def)

lemma conflictsOf_product:
  "conflictsOf U a b =
    (if ru_Action a \<noteq> ru_Action b \<and> agentOverlaps (ru_AgentID a) (ru_AgentID b)
     then map (\<lambda>(da, db). conflict_entry a b da db)
       (filter (\<lambda>(da, db). domainOverlaps U da db) (List.product (ru_Domains a) (ru_Domains b)))
     else [])"
proof -
  have loops: "concat (map (\<lambda>da. concat (map (\<lambda>db. if P da db then [g da db] else []) ys)) xs) =
      map (\<lambda>(da, db). g da db) (filter (\<lambda>(da, db). P da db) (List.product xs ys))" for P g and xs ys :: "string list"
  proof (induction xs)
    case (Cons x xs)
    have "concat (map (\<lambda>db. if P x db then [g x db] else []) ys) =
        map (\<lambda>(da, db). g da db) (filter (\<lambda>(da, db). P da db) (map (Pair x) ys))"
      by (induction ys) simp_all
    with Cons show ?case by simp
  qed simp
  show ?thesis
    unfolding loops [of "domainOverlaps U" "conflict_entry a b", symmetric]
    unfolding conflictsOf_def conflict_entry_def Let_def by (simp only: if_not_P if_P de_Morgan_conj split: if_split) blast
qed

definition explicit_rule :: "unicode \<Rightarrow> Rule \<Rightarrow> bool" where
  "explicit_rule U r \<longleftrightarrow> ru_AgentID r \<noteq> [] \<and> list_all (\<lambda>d. ToLower U d = d) (ru_Domains r)"

lemma conflictsOf_expected:
  assumes "explicit_rule U a" and "explicit_rule U b"
  shows "conflictsOf U a b =
    (if ru_Action a \<noteq> ru_Action b \<and> (\<exists>ag. agent_passes a ag \<and> agent_passes b ag)
     then map (\<lambda>(da, db). conflict_entry a b da db)
       (filter (\<lambda>(da, db). \<exists>h. matchDomain U h da \<and> matchDomain U h db) (List.product (ru_Domains a) (ru_Domains b)))
     else [])"
proof -
  have "filter (\<lambda>(da, db). domainOverlaps U da db) (List.product (ru_Domains a) (ru_Domains b)) =
      filter (\<lambda>(da, db). \<exists>h. matchDomain U h da \<and> matchDomain U h db) (List.product (ru_Domains a) (ru_Domains b))"
    using assms domainOverlaps_common_host [of U]
    by (intro filter_cong) (auto simp: explicit_rule_def list_all_iff)
  moreover have "agentOverlaps (ru_AgentID a) (ru_AgentID b) \<longleftrightarrow> (\<exists>ag. agent_passes a ag \<and> agent_passes b ag)"
    using assms by (intro agentOverlaps_common) (simp_all add: explicit_rule_def)
  ultimately show ?thesis by (simp only: conflictsOf_product)
qed

text \<open>
  C15: for rules whose agent is a name or \<open>*\<close>, with patterns in lower case, the report is exact, as a list: it has,
  in the order of the pairs of rules, one entry for each pair of patterns of two rules of different
  action such that some agent passes both rules and some host matches both patterns, and nothing else.
  So two rules, one before the other, that both name a domain are reported together if and only if
  their actions differ and some agent and some host pass the agent and domain tests of both.
\<close>

theorem detect_conflicts_exact:
  assumes "list_all (explicit_rule U) rs"
  shows "DetectConflicts U rs = expected_conflicts U rs \<and>
     (\<forall>a b. earlier a b rs \<and> ru_Domains a \<noteq> [] \<and> ru_Domains b \<noteq> [] \<longrightarrow>
       ((\<exists>c \<in> set (DetectConflicts U rs). cf_RuleA c = a \<and> cf_RuleB c = b) \<longleftrightarrow>
        ru_Action a \<noteq> ru_Action b \<and> (\<exists>agent h. both_reach U a b agent h)))"
proof (intro conjI allI impI)
  have expl: "explicit_rule U a \<and> explicit_rule U b" if "earlier a b rs" for a b
    using earlier_mem [OF that] assms by (simp add: list_all_iff)
  show "DetectConflicts U rs = expected_conflicts U rs"
    unfolding DetectConflicts_pairs expected_conflicts_def
    using expl conflictsOf_expected by (intro arg_cong [where f = concat] map_cong) (auto simp: mem_rule_pairs)
  fix a b assume ab: "earlier a b rs \<and> ru_Domains a \<noteq> [] \<and> ru_Domains b \<noteq> []"
  then have "conflictsOf U a b \<noteq> [] \<longleftrightarrow> ru_Action a \<noteq> ru_Action b \<and> (\<exists>agent h. both_reach U a b agent h)"
    using conflictsOf_expected [of U a b] expl [of a b]
    by (auto simp: both_reach_def matchDomainList_iff filter_empty_conv)
  then show "(\<exists>c \<in> set (DetectConflicts U rs). cf_RuleA c = a \<and> cf_RuleB c = b) \<longleftrightarrow>
      ru_Action a \<noteq> ru_Action b \<and> (\<exists>agent h. both_reach U a b agent h)"
    unfolding reported_pair using ab by simp
qed

theorem detect_conflicts_exact_witness:
  "DetectConflicts ascii_only (en_rules evil_engine) = expected_conflicts ascii_only (en_rules evil_engine) \<and>
   (\<exists>c \<in> set (DetectConflicts ascii_only (en_rules evil_engine)).
     cf_RuleA c = mk_rule ''deny-evil'' ''*'' [''evil.com''] ''deny'' \<and>
     cf_RuleB c = mk_rule ''allow-all'' ''*'' [''*''] ''allow'')"
proof -
  let ?a = "mk_rule ''deny-evil'' ''*'' [''evil.com''] ''deny''" and ?b = "mk_rule ''allow-all'' ''*'' [''*''] ''allow''"
  have rs: "en_rules evil_engine = [?a, ?b]" by (simp add: evil_engine_def)
  have low: "ToLower ascii_only ''evil.com'' = ''evil.com''" "ToLower ascii_only ''*'' = ''*''"
    by code_simp+
  have ok: "list_all (explicit_rule ascii_only) [?a, ?b]"
    by (simp add: explicit_rule_def mk_rule_def low)
  have "both_reach ascii_only ?a ?b ''a'' ''evil.com''"
    by (simp add: both_reach_def agent_passes_def mk_rule_def matchDomainList_iff matchDomain_def low)
  moreover have "earlier ?a ?b [?a, ?b] \<and> ru_Domains ?a \<noteq> [] \<and> ru_Domains ?b \<noteq> [] \<and> ru_Action ?a \<noteq> ru_Action ?b"
    by (simp add: mk_rule_def)
  ultimately show ?thesis unfolding rs using detect_conflicts_exact [OF ok] by blast
qed

text \<open>
  what the report does not show. A rule without domains, which the engine matches against every
  host, takes part in no conflict: a leading deny-all rule of that form makes a later allow rule dead
  (every request is denied) and the report is empty. And \<open>shadowed\<close> does not mean that the second
  rule never fires: with \<open>api.example.com\<close> allowed before \<open>*.example.com\<close> is denied, the pair is
  reported as shadowed although \<open>www.example.com\<close> is decided by the second rule.
\<close>

theorem conflict_report_gaps:
  defines "rs \<equiv> [mk_rule ''deny-all'' ''*'' [] ''deny'', mk_rule ''ok'' ''*'' [''x.com''] ''allow'']"
    and "ps \<equiv> [mk_rule ''api'' ''*'' [''api.example.com''] ''allow'',
                mk_rule ''rest'' ''*'' [''*.example.com''] ''deny'']"
  shows "conflictsOf U (a\<lparr>ru_Domains := []\<rparr>) b = [] \<and> conflictsOf U a (b\<lparr>ru_Domains := []\<rparr>) = [] \<and>
     DetectConflicts U rs = [] \<and>
     (\<forall>ctx. EvaluateRich U \<lparr>en_rules = rs, en_path = []\<rparr> ctx = ruleDecision (rs ! 0)) \<and>
     map cf_Severity (DetectConflicts ascii_only ps) = [''shadowed''] \<and>
     de_PolicyID (Evaluate ascii_only \<lparr>en_rules = ps, en_path = []\<rparr> ''a'' ''www.example.com'') = ''rest''"
proof (intro conjI allI)
  have gap: "conflictsOf U a b = []" if "ru_Domains a = [] \<or> ru_Domains b = []" for a b
    using that by (auto simp: conflictsOf_def)
  show "conflictsOf U (a\<lparr>ru_Domains := []\<rparr>) b = []" "conflictsOf U a (b\<lparr>ru_Domains := []\<rparr>) = []"
    by (simp_all add: gap)
  show "DetectConflicts U rs = []" by (simp add: rs_def gap mk_rule_def)
  show "EvaluateRich U \<lparr>en_rules = rs, en_path = []\<rparr> ctx = ruleDecision (rs ! 0)" for ctx
    by (simp add: rs_def EvaluateRich_loop evalLoop_step ruleApplies_def mk_rule_def)
  show "map cf_Severity (DetectConflicts ascii_only ps) = [''shadowed'']"
    unfolding ps_def by code_simp
  show "de_PolicyID (Evaluate ascii_only \<lparr>en_rules = ps, en_path = []\<rparr> ''a'' ''www.example.com'') = ''rest''"
    unfolding ps_def by code_simp
qed

end
