(* ===== verification/Policy_Races.thy ===== *)
theory Policy_Races
  imports Policy_Props
begin

text \<open>
  Concurrent policy changes. The HTTP server of the admin API runs each request in its own thread; the
  engine's mutex covers \<open>Add\<close>, \<open>Remove\<close> and the copy that \<open>Save\<close> takes of the rules, not the writing of
  the file. A thread is a program counter through \<open>Add\<close> or \<open>Remove\<close> and then \<open>Save\<close>
  (internal/policy/engine.go), and a step is what one thread does between two points where others may
  run. Files are names of inodes, because \<open>os.WriteFile\<close> truncates the file it opens, writes later, from
  offset 0 of its own descriptor, and a rename moves the name in between. Opening, writing and renaming
  may each fail, and a failed write leaves a part of the data.
\<close>

section \<open>Threads and steps\<close>

datatype pc =
    Adding Rule
  | Removing string
  | Saving
  | Encoded string
  | Opened string nat
  | Written
  | Done "error option"
  | NotFound

record race =
  ra_rules :: "Rule list"
  ra_file :: "nat option"
  ra_tmp :: "nat option"
  ra_inode :: "nat \<Rightarrow> string"
  ra_next :: nat
  ra_pc :: "nat \<Rightarrow> pc"

definition goto :: "nat \<Rightarrow> pc \<Rightarrow> race \<Rightarrow> race" where
  "goto i p s = s\<lparr>ra_pc := (ra_pc s)(i := p)\<rparr>"

definition save_error :: "string \<Rightarrow> error \<Rightarrow> pc" where
  "save_error what e = Done (Some (what @ e))"

text \<open>Data written at offset 0 of a file that holds \<open>old\<close>.\<close>

definition overlay :: "string \<Rightarrow> string \<Rightarrow> string" where
  "overlay d old = d @ drop (length d) old"

lemma overlay_Nil [simp]: "overlay d [] = d"
  by (simp add: overlay_def)

inductive save_step :: "Rule list json \<Rightarrow> nat \<Rightarrow> race \<Rightarrow> race \<Rightarrow> bool" for J where
  step_add: "ra_pc s i = Adding r \<Longrightarrow>
    save_step J i s (goto i Saving (s\<lparr>ra_rules := replaceOrAppend r (ra_rules s)\<rparr>))"
| step_remove: "ra_pc s i = Removing k \<Longrightarrow> removeFirst k (ra_rules s) = (True, rs) \<Longrightarrow>
    save_step J i s (goto i Saving (s\<lparr>ra_rules := rs\<rparr>))"
| step_not_found: "ra_pc s i = Removing k \<Longrightarrow> removeFirst k (ra_rules s) = (False, rs) \<Longrightarrow>
    save_step J i s (goto i NotFound s)"
| step_encode: "ra_pc s i = Saving \<Longrightarrow> marshal J (ra_rules s) = Inr d \<Longrightarrow> save_step J i s (goto i (Encoded d) s)"
| step_encode_error: "ra_pc s i = Saving \<Longrightarrow> marshal J (ra_rules s) = Inl e \<Longrightarrow>
    save_step J i s (goto i (save_error ''marshal policy: '' e) s)"
| step_create: "ra_pc s i = Encoded d \<Longrightarrow> ra_tmp s = None \<Longrightarrow>
    save_step J i s (goto i (Opened d (ra_next s))
      (s\<lparr>ra_tmp := Some (ra_next s), ra_inode := (ra_inode s)(ra_next s := []), ra_next := Suc (ra_next s)\<rparr>))"
| step_truncate: "ra_pc s i = Encoded d \<Longrightarrow> ra_tmp s = Some n \<Longrightarrow>
    save_step J i s (goto i (Opened d n) (s\<lparr>ra_inode := (ra_inode s)(n := [])\<rparr>))"
| step_open_error: "ra_pc s i = Encoded d \<Longrightarrow> save_step J i s (goto i (save_error ''write policy tmp: '' e) s)"
| step_write: "ra_pc s i = Opened d n \<Longrightarrow>
    save_step J i s (goto i Written (s\<lparr>ra_inode := (ra_inode s)(n := overlay d (ra_inode s n))\<rparr>))"
| step_write_error: "ra_pc s i = Opened d n \<Longrightarrow>
    save_step J i s (goto i (save_error ''write policy tmp: '' e)
      (s\<lparr>ra_inode := (ra_inode s)(n := overlay (take k d) (ra_inode s n))\<rparr>))"
| step_rename: "ra_pc s i = Written \<Longrightarrow> ra_tmp s = Some n \<Longrightarrow>
    save_step J i s (goto i (Done None) (s\<lparr>ra_file := Some n, ra_tmp := None\<rparr>))"
| step_rename_error: "ra_pc s i = Written \<Longrightarrow> save_step J i s (goto i (save_error ''rename policy: '' e) s)"

inductive_cases save_stepE: "save_step J i s t"

text \<open>
  Runs in any interleaving, and runs in which a save starts only when no other is under way. The rules
  may change at any time, also while a save is writing.
\<close>

inductive free_run :: "Rule list json \<Rightarrow> race \<Rightarrow> race \<Rightarrow> bool" for J where
  free_stay: "free_run J s s"
| free_more: "free_run J s t \<Longrightarrow> save_step J i t u \<Longrightarrow> free_run J s u"

definition resting :: "pc \<Rightarrow> bool" where
  "resting p \<longleftrightarrow> (case p of Adding _ \<Rightarrow> True | Removing _ \<Rightarrow> True | Done _ \<Rightarrow> True | NotFound \<Rightarrow> True | _ \<Rightarrow> False)"

definition writing :: "pc \<Rightarrow> bool" where
  "writing p \<longleftrightarrow> (case p of Encoded _ \<Rightarrow> True | Opened _ _ \<Rightarrow> True | Written \<Rightarrow> True | _ \<Rightarrow> False)"

definition may_step :: "nat \<Rightarrow> race \<Rightarrow> bool" where
  "may_step i t \<longleftrightarrow> (ra_pc t i = Saving \<longrightarrow> (\<forall>j. \<not> writing (ra_pc t j)))"

inductive locked_run :: "Rule list json \<Rightarrow> race \<Rightarrow> race \<Rightarrow> bool" for J where
  locked_stay: "locked_run J s s"
| locked_more: "locked_run J s t \<Longrightarrow> may_step i t \<Longrightarrow> save_step J i t u \<Longrightarrow> locked_run J s u"

definition file_content :: "race \<Rightarrow> string option" where
  "file_content s = map_option (ra_inode s) (ra_file s)"

text \<open>Requests that are about to start, in front of any rules and files; and with nothing saved yet.\<close>

definition inodes_ok :: "race \<Rightarrow> bool" where
  "inodes_ok s \<longleftrightarrow> (\<forall>n. ra_tmp s = Some n \<longrightarrow> n < ra_next s \<and> ra_file s \<noteq> Some n) \<and>
     (\<forall>n. ra_file s = Some n \<longrightarrow> n < ra_next s)"

definition waiting :: "race \<Rightarrow> bool" where
  "waiting s \<longleftrightarrow> inodes_ok s \<and> (\<forall>i. case ra_pc s i of Adding _ \<Rightarrow> True | Removing _ \<Rightarrow> True | _ \<Rightarrow> False)"

definition race_start :: "(nat \<Rightarrow> Rule) \<Rightarrow> race" where
  "race_start rs = \<lparr>ra_rules = [], ra_file = None, ra_tmp = None, ra_inode = (\<lambda>_. []), ra_next = 0,
     ra_pc = (\<lambda>i. Adding (rs i))\<rparr>"

section \<open>One save at a time\<close>

text \<open>
  Data of a save under way: an encoding of rules that were in memory during the run, and of those that
  are there now unless another thread is about to save newer ones.
\<close>

definition in_memory :: "Rule list json \<Rightarrow> race \<Rightarrow> string \<Rightarrow> bool" where
  "in_memory J s d \<longleftrightarrow> (\<exists>v. locked_run J s v \<and> marshal J (ra_rules v) = Inr d)"

definition fresh :: "Rule list json \<Rightarrow> race \<Rightarrow> race \<Rightarrow> string \<Rightarrow> bool" where
  "fresh J s t d \<longleftrightarrow> in_memory J s d \<and> (marshal J (ra_rules t) = Inr d \<or> (\<exists>j. ra_pc t j = Saving))"

definition phase_ok :: "Rule list json \<Rightarrow> race \<Rightarrow> race \<Rightarrow> pc \<Rightarrow> bool" where
  "phase_ok J s t p \<longleftrightarrow> (case p of
     Encoded d \<Rightarrow> fresh J s t d
   | Opened d n \<Rightarrow> fresh J s t d \<and> ra_tmp t = Some n \<and> ra_inode t n = []
   | Written \<Rightarrow> (\<exists>n. ra_tmp t = Some n \<and> fresh J s t (ra_inode t n))
   | _ \<Rightarrow> True)"

definition saved_now :: "Rule list json \<Rightarrow> race \<Rightarrow> bool" where
  "saved_now J t \<longleftrightarrow> (\<exists>d. marshal J (ra_rules t) = Inr d \<and> file_content t = Some d)"

definition current :: "Rule list json \<Rightarrow> race \<Rightarrow> bool" where
  "current J s \<longleftrightarrow> ra_rules s = [] \<and> ra_file s = None \<or> saved_now J s"

definition file_ok :: "Rule list json \<Rightarrow> race \<Rightarrow> race \<Rightarrow> bool" where
  "file_ok J s t \<longleftrightarrow> file_content t = file_content s \<or> (\<exists>d. in_memory J s d \<and> file_content t = Some d)"

definition quiet :: "race \<Rightarrow> bool" where
  "quiet t \<longleftrightarrow> (\<forall>i. resting (ra_pc t i)) \<and> (\<forall>i e. ra_pc t i \<noteq> Done (Some e))"

definition locked_ok :: "Rule list json \<Rightarrow> race \<Rightarrow> race \<Rightarrow> bool" where
  "locked_ok J s t \<longleftrightarrow> inodes_ok t \<and> (\<forall>i j. writing (ra_pc t i) \<and> writing (ra_pc t j) \<longrightarrow> i = j) \<and>
     (\<forall>i. phase_ok J s t (ra_pc t i)) \<and> file_ok J s t \<and> (current J s \<and> quiet t \<longrightarrow> current J t)"

lemma goto_simps [simp]:
  "ra_rules (goto i p s) = ra_rules s" "ra_file (goto i p s) = ra_file s" "ra_tmp (goto i p s) = ra_tmp s"
  "ra_inode (goto i p s) = ra_inode s" "ra_next (goto i p s) = ra_next s" "ra_pc (goto i p s) = (ra_pc s)(i := p)"
  by (simp_all add: goto_def)

lemma pc_simps [simp]:
  "resting (Adding r)" "resting (Removing k)" "resting (Done x)" "resting NotFound" "resting (save_error m e)"
  "\<not> resting Saving" "\<not> resting (Encoded d)" "\<not> resting (Opened d n)" "\<not> resting Written"
  "\<not> writing (Adding r)" "\<not> writing (Removing k)" "\<not> writing (Done x)" "\<not> writing NotFound" "\<not> writing (save_error m e)"
  "\<not> writing Saving" "writing (Encoded d)" "writing (Opened d n)" "writing Written"
  by (simp_all add: resting_def writing_def save_error_def)

lemma not_writing_phase: "\<not> writing p \<Longrightarrow> phase_ok J s t p"
  by (cases p) (simp_all add: phase_ok_def)

text \<open>The rules change only where a thread is about to save them; a step of an idle thread moves no file.\<close>

lemma step_other:
  assumes "save_step J i t u" and "\<not> writing (ra_pc t i)"
  shows "ra_file u = ra_file t \<and> ra_tmp u = ra_tmp t \<and> ra_inode u = ra_inode t \<and>
    (ra_rules u = ra_rules t \<or> ra_pc u i = Saving) \<and> (\<forall>j. j \<noteq> i \<longrightarrow> ra_pc u j = ra_pc t j)"
  using assms by cases auto

lemma step_pcs: "save_step J i t u \<Longrightarrow> j \<noteq> i \<Longrightarrow> ra_pc u j = ra_pc t j"
  by (erule save_step.cases) auto

text \<open>A thread that writes keeps its phase while another adds, removes or gives up.\<close>

lemma phase_kept:
  assumes "save_step J i t u" and "may_step i t" and "writing (ra_pc t j)" and "j \<noteq> i"
    and "phase_ok J s t (ra_pc t j)" and "\<not> writing (ra_pc t i)"
  shows "phase_ok J s u (ra_pc t j)"
proof -
  note o = step_other [OF assms(1,6)]
  have "ra_pc t i \<noteq> Saving" using assms(2,3) by (auto simp: may_step_def)
  then have "fresh J s u d" if "fresh J s t d" for d
    using that o unfolding fresh_def by metis
  then show ?thesis using assms(5) o by (cases "ra_pc t j") (auto simp: phase_ok_def)
qed

lemma fresh_kept:
  assumes "fresh J s t d" and "save_step J i t u" and "ra_rules u = ra_rules t" and "ra_pc t i \<noteq> Saving"
  shows "fresh J s u d"
  using assms(1,3,4) step_pcs [OF assms(2)] unfolding fresh_def by metis

lemma phase_own:
  assumes "save_step J i t u" and "phase_ok J s t (ra_pc t i)" and "locked_run J s t"
  shows "phase_ok J s u (ra_pc u i)"
proof -
  note keep = fresh_kept [OF _ assms(1)]
  from assms(1) show ?thesis
  proof cases
    case (step_encode d)
    then show ?thesis using assms(3) by (auto simp: phase_ok_def fresh_def in_memory_def)
  qed (use assms(2) keep in \<open>simp_all add: phase_ok_def save_error_def\<close>)
qed

lemma content_kept:
  assumes "save_step J i t u" and "inodes_ok t" and "phase_ok J s t (ra_pc t i)" and "ra_pc t i = Written \<longrightarrow> ra_file u = ra_file t"
  shows "file_content u = file_content t"
  using assms(1)
  by cases (use assms(2-4) in \<open>cases "ra_file t"; auto simp: file_content_def inodes_ok_def phase_ok_def\<close>)+

lemma file_kept:
  assumes "save_step J i t u" and "inodes_ok t" and "phase_ok J s t (ra_pc t i)" and "file_ok J s t"
  shows "file_ok J s u"
proof (cases "ra_pc t i = Written \<and> ra_file u \<noteq> ra_file t")
  case True
  from assms(1) show ?thesis
  proof cases
    case (step_rename n)
    then show ?thesis using assms(3) by (auto simp: phase_ok_def file_ok_def fresh_def file_content_def)
  qed (use True in simp_all)
next
  case False
  then show ?thesis using content_kept [OF assms(1-3)] assms(4) by (simp add: file_ok_def)
qed

lemma renamed_is_current:
  assumes "save_step J i t u" and "ra_pc t i = Written" and "ra_pc u i = Done None"
    and "phase_ok J s t (ra_pc t i)" and "\<forall>j. ra_pc u j \<noteq> Saving"
  shows "saved_now J u"
  using assms(1)
proof cases
  case (step_rename n)
  have "ra_pc t j \<noteq> Saving" for j using step_pcs [OF assms(1), of j] assms(2,5) by (cases "j = i") auto
  then show ?thesis
    using step_rename assms(4) by (auto simp: phase_ok_def fresh_def saved_now_def file_content_def)
qed (use assms(2,3) in \<open>auto simp: save_error_def\<close>)

lemma current_kept:
  assumes "save_step J i t u" and "phase_ok J s t (ra_pc t i)" and "current J s \<and> quiet t \<longrightarrow> current J t"
    and "current J s" and "quiet u"
  shows "current J u"
proof -
  have rest: "resting (ra_pc u i)" "\<forall>e. ra_pc u i \<noteq> Done (Some e)" using assms(5) by (auto simp: quiet_def)
  from assms(1) show ?thesis
  proof cases
    case (step_rename n)
    moreover have "\<forall>j. ra_pc u j \<noteq> Saving" using assms(5) unfolding quiet_def by (metis pc_simps(6))
    ultimately have "saved_now J u" by (intro renamed_is_current [OF assms(1) _ _ assms(2)]) simp_all
    then show ?thesis by (simp add: current_def)
  next
    case (step_not_found k rs)
    have "resting (ra_pc t j) \<and> (\<forall>e. ra_pc t j \<noteq> Done (Some e))" for j
      using assms(5) step_pcs [OF assms(1), of j] step_not_found by (cases "j = i") (auto simp: quiet_def dest: spec [of _ j])
    then have "current J t" using assms(3,4) by (simp add: quiet_def)
    then show ?thesis using step_not_found by (simp add: current_def saved_now_def file_content_def)
  qed (use rest in \<open>auto simp: save_error_def\<close>)
qed

lemma locked_step:
  assumes "save_step J i t u" and "may_step i t" and "locked_ok J s t" and "locked_run J s t"
  shows "locked_ok J s u"
proof -
  have ok: "inodes_ok t" "\<forall>j. phase_ok J s t (ra_pc t j)" "file_ok J s t" "current J s \<and> quiet t \<longrightarrow> current J t"
    and one: "\<And>j k. writing (ra_pc t j) \<Longrightarrow> writing (ra_pc t k) \<Longrightarrow> j = k"
    using assms(3) by (auto simp: locked_ok_def)
  have starts: "writing (ra_pc t i) \<or> ra_pc t i = Saving" if "writing (ra_pc u i)"
    using assms(1) that by cases auto
  have one': "j = k" if "writing (ra_pc u j)" "writing (ra_pc u k)" for j k
    using that starts one step_pcs [OF assms(1)] assms(2) unfolding may_step_def by metis
  have phases: "phase_ok J s u (ra_pc u j)" for j
  proof (cases "j = i \<or> \<not> writing (ra_pc u j)")
    case True
    then show ?thesis using phase_own [OF assms(1) _ assms(4)] ok(2) not_writing_phase by metis
  next
    case False
    then have "writing (ra_pc t j)" "\<not> writing (ra_pc t i)" "ra_pc u j = ra_pc t j"
      using step_pcs [OF assms(1)] one by metis+
    then show ?thesis using phase_kept [OF assms(1,2)] ok(2) False by metis
  qed
  have "inodes_ok u" using assms(1) ok(1,2) by cases (auto simp: inodes_ok_def)
  then show ?thesis
    unfolding locked_ok_def
    using one' phases file_kept [OF assms(1) ok(1) _ ok(3)] current_kept [OF assms(1) _ ok(4)] ok(2) by blast
qed

lemma locked_run_ok:
  assumes "locked_run J s t" and "waiting s"
  shows "locked_ok J s t"
  using assms
proof (induction s t rule: locked_run.induct)
  case (locked_stay s)
  then have idle: "\<not> writing (ra_pc s i)" for i
    by (auto simp: waiting_def writing_def split: pc.splits)
  then have "phase_ok J s s (ra_pc s i)" for i by (rule not_writing_phase)
  then show ?case using idle locked_stay by (auto simp: locked_ok_def waiting_def file_ok_def)
next
  case (locked_more s t i u)
  then show ?case using locked_step by blast
qed


section \<open>Saves that overlap\<close>

text \<open>The next step of a thread when no file operation fails by itself, and a schedule of threads.\<close>

definition advance :: "Rule list json \<Rightarrow> nat \<Rightarrow> race \<Rightarrow> race" where
  "advance J i s = (case ra_pc s i of
     Adding r \<Rightarrow> goto i Saving (s\<lparr>ra_rules := replaceOrAppend r (ra_rules s)\<rparr>)
   | Removing k \<Rightarrow> (case removeFirst k (ra_rules s) of
       (True, rs) \<Rightarrow> goto i Saving (s\<lparr>ra_rules := rs\<rparr>)
     | (False, _) \<Rightarrow> goto i NotFound s)
   | Saving \<Rightarrow> (case marshal J (ra_rules s) of
       Inl e \<Rightarrow> goto i (save_error ''marshal policy: '' e) s
     | Inr d \<Rightarrow> goto i (Encoded d) s)
   | Encoded d \<Rightarrow> (case ra_tmp s of
       None \<Rightarrow> goto i (Opened d (ra_next s))
         (s\<lparr>ra_tmp := Some (ra_next s), ra_inode := (ra_inode s)(ra_next s := []), ra_next := Suc (ra_next s)\<rparr>)
     | Some n \<Rightarrow> goto i (Opened d n) (s\<lparr>ra_inode := (ra_inode s)(n := [])\<rparr>))
   | Opened d n \<Rightarrow> goto i Written (s\<lparr>ra_inode := (ra_inode s)(n := overlay d (ra_inode s n))\<rparr>)
   | Written \<Rightarrow> (case ra_tmp s of
       Some n \<Rightarrow> goto i (Done None) (s\<lparr>ra_file := Some n, ra_tmp := None\<rparr>)
     | None \<Rightarrow> goto i (save_error ''rename policy: '' ''no such file or directory'') s)
   | _ \<Rightarrow> s)"

lemma advance_step: "save_step J i s (advance J i s) \<or> advance J i s = s"
  by (auto simp: advance_def intro: save_step.intros split: pc.split sum.split option.split bool.split prod.split)

lemma schedule_run: "free_run J s t \<Longrightarrow> free_run J s (fold (advance J) is t)"
proof (induction "is" arbitrary: t)
  case (Cons i "is")
  have "free_run J s (advance J i t)"
    using advance_step [of J i t] Cons.prems free_more by metis
  then show ?case using Cons.IH by simp
qed simp

text \<open>
  C13: overlapping saves lose rules and publish empty files. Two requests that each add a rule can both
  be answered with success while the file ends up without the second rule, which is in memory: the
  gateway never learns of it. And while one save has the temporary file open, the rename of another
  publishes it empty.
\<close>

theorem overlapping_saves_diverge:
  assumes "marshal J [rs 0] = Inr d0" and "marshal J [rs 0, rs 1] = Inr d1" and "ru_PolicyID (rs 0) \<noteq> ru_PolicyID (rs 1)"
  shows "(\<exists>t. free_run J (race_start rs) t \<and> (\<forall>i. resting (ra_pc t i)) \<and> ra_pc t 0 = Done None \<and> ra_pc t 1 = Done None \<and>
       ra_rules t = [rs 0, rs 1] \<and> file_content t = Some d0) \<and>
    (\<exists>t. free_run J (race_start rs) t \<and> ra_pc t 0 = Done None \<and> file_content t = Some [])"
proof -
  let ?run = "\<lambda>is. fold (advance J) is (race_start rs)"
  have "replaceOrAppend (rs 1) [rs 0] = [rs 0, rs 1]" using assms(3) by simp
  then have lost: "resting (ra_pc (?run [0, 0, 1, 1, 1, 1, 1, 0, 0, 0]) i)"
      "ra_pc (?run [0, 0, 1, 1, 1, 1, 1, 0, 0, 0]) 0 = Done None"
      "ra_pc (?run [0, 0, 1, 1, 1, 1, 1, 0, 0, 0]) 1 = Done None"
      "ra_rules (?run [0, 0, 1, 1, 1, 1, 1, 0, 0, 0]) = [rs 0, rs 1]"
      "file_content (?run [0, 0, 1, 1, 1, 1, 1, 0, 0, 0]) = Some d0"
    and torn: "ra_pc (?run [0, 0, 0, 0, 1, 1, 1, 0]) 0 = Done None" "file_content (?run [0, 0, 0, 0, 1, 1, 1, 0]) = Some []" for i
    using assms(1,2) by (simp_all add: advance_def race_start_def file_content_def)
  have "free_run J (race_start rs) (?run is)" for "is" by (rule schedule_run [OF free_stay])
  then show ?thesis using lost torn by blast
qed

definition first_rules :: "nat \<Rightarrow> Rule" where
  "first_rules i = mk_rule (if i = 0 then ''p0'' else ''p1'') ''*'' [''evil.com''] ''deny''"

definition count_json :: "Rule list json" where
  "count_json = \<lparr>marshal = (\<lambda>rs. Inr (map ru_PolicyID rs ! (length rs - 1))), unmarshal = (\<lambda>_. Inr [])\<rparr>"

theorem overlapping_saves_diverge_witness:
  "\<exists>t. free_run count_json (race_start first_rules) t \<and> ra_pc t 0 = Done None \<and> ra_pc t 1 = Done None \<and>
     length (ra_rules t) = 2 \<and> file_content t = Some ''p0''"
proof -
  have m: "marshal count_json [first_rules 0] = Inr ''p0''" "marshal count_json [first_rules 0, first_rules 1] = Inr ''p1''"
    "ru_PolicyID (first_rules 0) \<noteq> ru_PolicyID (first_rules 1)"
    by (simp_all add: count_json_def first_rules_def mk_rule_def)
  from overlapping_saves_diverge [OF m] show ?thesis by auto
qed

lemma advance_pcs: "j \<noteq> i \<Longrightarrow> ra_pc (advance J i s) j = ra_pc s j"
  by (auto simp: advance_def split: pc.split sum.split option.split bool.split prod.split)

lemma solo_run:
  "locked_run J s t \<Longrightarrow> \<forall>j. j \<noteq> i \<longrightarrow> \<not> writing (ra_pc t j) \<Longrightarrow>
     locked_run J s ((advance J i ^^ n) t) \<and> (\<forall>j. j \<noteq> i \<longrightarrow> ra_pc ((advance J i ^^ n) t) j = ra_pc t j)"
proof (induction n)
  case (Suc n)
  let ?u = "(advance J i ^^ n) t"
  from Suc have u: "locked_run J s ?u" "\<forall>j. j \<noteq> i \<longrightarrow> ra_pc ?u j = ra_pc t j" by blast+
  have "may_step i ?u"
    unfolding may_step_def using u(2) Suc.prems(2) pc_simps(15) by metis
  then have "locked_run J s (advance J i ?u)"
    using advance_step [of J i ?u] locked_more [OF u(1)] u(1) by metis
  then show ?case using u(2) advance_pcs by simp
qed simp


end
