(* ===== verification/Identity_Registry.thy ===== *)
theory Identity_Registry
  imports Go_Files
begin

text \<open>
  The agent registry, \<open>internal/identity/registry.go\<close>: agents indexed by API key and by agent id,
  with load, the two lookups, upsert, delete and save. A Go map is an association list, so the list
  that \<open>All\<close> and \<open>Save\<close> produce is one of the orders the Go runtime may choose. The pointers the two
  indexes share are never written through, so agents are stored by value.
\<close>

record Agent =
  ag_AgentID :: string
  ag_TeamID :: string
  ag_ProjectID :: string
  ag_Environment :: string
  ag_APIKey :: string
  ag_Status :: string

record Registry =
  rg_byKey :: "(string, Agent) gomap"
  rg_byID :: "(string, Agent) gomap"
  rg_path :: string

fun indexAgents :: "Agent list \<Rightarrow> (string, Agent) gomap \<times> (string, Agent) gomap \<Rightarrow>
    (string, Agent) gomap \<times> (string, Agent) gomap" where
  "indexAgents [] (byKey, byID) = (byKey, byID)"
| "indexAgents (a # as) (byKey, byID) =
     indexAgents as (mput (ag_APIKey a) a byKey, mput (ag_AgentID a) a byID)"

definition RegistryLoad :: "Agent list json \<Rightarrow> read_result \<Rightarrow> Registry \<Rightarrow> error option \<times> Registry" where
  "RegistryLoad J rd r = (case rd of
      RNotExist \<Rightarrow> (None, r\<lparr>rg_byKey := [], rg_byID := []\<rparr>)
    | RError err \<Rightarrow> (Some (''read registry '' @ rg_path r @ '': '' @ err), r)
    | RData d \<Rightarrow> (case unmarshal J d of
        Inl err \<Rightarrow> (Some (''parse registry '' @ rg_path r @ '': '' @ err), r)
      | Inr agents \<Rightarrow> (case indexAgents agents ([], []) of
          (byKey, byID) \<Rightarrow> (None, r\<lparr>rg_byKey := byKey, rg_byID := byID\<rparr>))))"

definition NewRegistry :: "Agent list json \<Rightarrow> read_result \<Rightarrow> string \<Rightarrow> error + Registry" where
  "NewRegistry J rd path = (case RegistryLoad J rd \<lparr>rg_byKey = [], rg_byID = [], rg_path = path\<rparr> of
      (Some err, _) \<Rightarrow> Inl err | (None, r) \<Rightarrow> Inr r)"

definition LookupByKey :: "Registry \<Rightarrow> string \<Rightarrow> Agent option" where
  "LookupByKey r key = (case mget (rg_byKey r) key of
      None \<Rightarrow> None | Some a \<Rightarrow> if ag_Status a \<noteq> ''active'' then None else Some a)"

definition RegistryAll :: "Registry \<Rightarrow> Agent list" where
  "RegistryAll r = map snd (rg_byID r)"

definition RegistryLookupByID :: "Registry \<Rightarrow> string \<Rightarrow> Agent option" where
  "RegistryLookupByID r i = mget (rg_byID r) i"

definition RegistryAdd :: "Agent \<Rightarrow> Registry \<Rightarrow> Registry" where
  "RegistryAdd a r = r\<lparr>rg_byKey := mput (ag_APIKey a) a (rg_byKey r),
     rg_byID := mput (ag_AgentID a) a (rg_byID r)\<rparr>"

definition RegistryRemove :: "string \<Rightarrow> Registry \<Rightarrow> bool \<times> Registry" where
  "RegistryRemove i r = (case mget (rg_byID r) i of
      None \<Rightarrow> (False, r)
    | Some a \<Rightarrow> (True, r\<lparr>rg_byID := mdel i (rg_byID r), rg_byKey := mdel (ag_APIKey a) (rg_byKey r)\<rparr>))"

definition RegistrySave :: "Agent list json \<Rightarrow> faults \<Rightarrow> Registry \<Rightarrow> fs \<Rightarrow> error option \<times> fs" where
  "RegistrySave J F r fs = (case marshal J (RegistryAll r) of
      Inl err \<Rightarrow> (Some (''marshal agents: '' @ err), fs)
    | Inr d \<Rightarrow> write_rename F ''write agents tmp: '' ''rename agents: '' (rg_path r) d fs)"

section \<open>The registry is a keyed store\<close>

text \<open>Both indexes are maps, and each entry sits under its own key.\<close>

definition registry_ok :: "Registry \<Rightarrow> bool" where
  "registry_ok r \<longleftrightarrow> gomap_ok (rg_byKey r) \<and> gomap_ok (rg_byID r) \<and>
     (\<forall>k a. mget (rg_byKey r) k = Some a \<longrightarrow> ag_APIKey a = k) \<and>
     (\<forall>i a. mget (rg_byID r) i = Some a \<longrightarrow> ag_AgentID a = i)"

lemma registry_ok_empty [simp]: "registry_ok (r\<lparr>rg_byKey := [], rg_byID := []\<rparr>)"
  by (simp add: registry_ok_def)

lemma registry_ok_add [simp]: "registry_ok r \<Longrightarrow> registry_ok (RegistryAdd a r)"
  by (simp add: registry_ok_def RegistryAdd_def)

lemma registry_ok_remove [simp]: "registry_ok r \<Longrightarrow> registry_ok (snd (RegistryRemove i r))"
  by (auto simp: registry_ok_def RegistryRemove_def split: option.splits)

interpretation agent_store: keyed_store RegistryLookupByID RegistryAdd RegistryRemove ag_AgentID
  "\<lambda>a. a" registry_ok
proof unfold_locales
  fix s :: Registry and v k k'
  assume ok: "registry_ok s"
  show "RegistryLookupByID (RegistryAdd v s) k = (if k = ag_AgentID v then Some v else RegistryLookupByID s k)"
    by (simp add: RegistryLookupByID_def RegistryAdd_def)
  show "RegistryLookupByID (snd (RegistryRemove k s)) k' = (if k' = k then None else RegistryLookupByID s k')"
    by (auto simp: RegistryLookupByID_def RegistryRemove_def split: option.splits)
  show "fst (RegistryRemove k s) = (RegistryLookupByID s k \<noteq> None)"
    by (auto simp: RegistryLookupByID_def RegistryRemove_def split: option.splits)
qed (use registry_ok_add registry_ok_remove in auto)

interpretation agent_file: atomic_file "RegistrySave J" "\<lambda>r. marshal J (RegistryAll r)" rg_path
  for J :: "Agent list json"
proof unfold_locales
  fix F r fs fs' err and q :: string
  show "RegistrySave J F r fs = (None, fs') \<Longrightarrow> \<exists>d. marshal J (RegistryAll r) = Inr d \<and> fs' (rg_path r) = Some d"
    by (auto simp: RegistrySave_def dest: write_rename_ok split: sum.splits)
  show "RegistrySave J F r fs = (Some err, fs') \<Longrightarrow> fs' (rg_path r) = fs (rg_path r)"
    by (auto simp: RegistrySave_def dest: write_rename_err split: sum.splits)
  show "q \<noteq> rg_path r \<Longrightarrow> q \<noteq> tmp_path (rg_path r) \<Longrightarrow> snd (RegistrySave J F r fs) q = fs q"
    by (auto simp: RegistrySave_def write_rename_frame split: sum.splits)
qed

section \<open>Loading\<close>

text \<open>Loading a list is adding its agents one after another to an empty registry.\<close>

lemma indexAgents_fold:
  "indexAgents as (rg_byKey r, rg_byID r) =
     (rg_byKey (fold RegistryAdd as r), rg_byID (fold RegistryAdd as r))"
proof (induction as arbitrary: r)
  case (Cons a as)
  from Cons [of "RegistryAdd a r"] show ?case by (simp add: RegistryAdd_def)
qed simp

lemma fold_add_path [simp]: "rg_path (fold RegistryAdd as r) = rg_path r"
  by (induction as arbitrary: r) (simp_all add: RegistryAdd_def)

lemma load_is_fold_add:
  assumes "unmarshal J d = Inr agents"
  shows "RegistryLoad J (RData d) r = (None, fold RegistryAdd agents (r\<lparr>rg_byKey := [], rg_byID := []\<rparr>))"
proof -
  let ?r0 = "r\<lparr>rg_byKey := [], rg_byID := []\<rparr>"
  let ?l = "fold RegistryAdd agents ?r0"
  have "indexAgents agents ([], []) = (rg_byKey ?l, rg_byID ?l)"
    using indexAgents_fold [of agents ?r0] by simp
  moreover have "r\<lparr>rg_byKey := rg_byKey ?l, rg_byID := rg_byID ?l\<rparr> = ?l"
    by (rule Registry.equality) simp_all
  ultimately show ?thesis using assms by (simp add: RegistryLoad_def)
qed

lemma byKey_fold_add:
  "mget (rg_byKey (fold RegistryAdd as r)) k =
     (case find (\<lambda>a. ag_APIKey a = k) (rev as) of Some a \<Rightarrow> Some a | None \<Rightarrow> mget (rg_byKey r) k)"
  by (induction as rule: rev_induct) (auto simp: RegistryAdd_def)

lemma loaded_key_from_list:
  assumes "LookupByKey (fold RegistryAdd as (r\<lparr>rg_byKey := [], rg_byID := []\<rparr>)) k = Some a"
  shows "a \<in> set as \<and> ag_APIKey a = k \<and> ag_Status a = ''active''"
  using assms
  by (auto simp: LookupByKey_def byKey_fold_add dest!: find_SomeD split: option.splits if_splits)

lemma mem_RegistryAll:
  assumes "registry_ok r"
  shows "a \<in> set (RegistryAll r) \<longleftrightarrow> RegistryLookupByID r (ag_AgentID a) = Some a"
proof
  assume "a \<in> set (RegistryAll r)"
  then obtain i where "(i, a) \<in> set (rg_byID r)" by (auto simp: RegistryAll_def)
  then have "mget (rg_byID r) i = Some a"
    using assms by (simp add: registry_ok_def gomap_ok_mem_iff)
  then show "RegistryLookupByID r (ag_AgentID a) = Some a"
    using assms by (auto simp: registry_ok_def RegistryLookupByID_def)
next
  assume "RegistryLookupByID r (ag_AgentID a) = Some a"
  then have "(ag_AgentID a, a) \<in> set (rg_byID r)"
    by (simp add: RegistryLookupByID_def map_of_SomeD)
  then show "a \<in> set (RegistryAll r)" unfolding RegistryAll_def by force
qed

lemma distinct_RegistryAll: "registry_ok r \<Longrightarrow> distinct (map ag_AgentID (RegistryAll r))"
proof -
  assume ok: "registry_ok r"
  have "\<forall>(i, a) \<in> set (rg_byID r). ag_AgentID a = i"
    using ok gomap_ok_mem_iff [of "rg_byID r"] by (auto simp: registry_ok_def)
  then have "map ag_AgentID (RegistryAll r) = map fst (rg_byID r)"
    by (auto simp: RegistryAll_def)
  then show ?thesis using ok by (simp add: registry_ok_def gomap_ok_def)
qed

end
