(* ===== verification/Base64.thy ===== *)
theory Base64
  imports Go_Text
begin

text \<open>
  \<open>encoding/base64\<close> as the repository uses it: \<open>RawURLEncoding\<close> (no padding) in
  \<open>internal/identity/jwt.go\<close> and \<open>StdEncoding\<close> (padded) in \<open>cmd/clawgress-gateway/main.go\<close>. The
  decoder skips carriage returns and newlines and ignores the unused low bits of a last partial
  group, as Go's non-strict decoder does.
\<close>

definition std_alphabet :: string where
  "std_alphabet = ''ABCDEFGHIJKLMNOPQRSTUVWXYZabcdefghijklmnopqrstuvwxyz0123456789+/''"

definition url_alphabet :: string where
  "url_alphabet = ''ABCDEFGHIJKLMNOPQRSTUVWXYZabcdefghijklmnopqrstuvwxyz0123456789-_''"

fun b64_encode :: "string \<Rightarrow> bool \<Rightarrow> string \<Rightarrow> string" where
  "b64_encode A pad [] = []"
| "b64_encode A pad [a] =
     [A ! (byte a div 4), A ! (byte a mod 4 * 16)] @ (if pad then ''=='' else [])"
| "b64_encode A pad [a, b] =
     [A ! (byte a div 4), A ! (byte a mod 4 * 16 + byte b div 16), A ! (byte b mod 16 * 4)]
       @ (if pad then ''='' else [])"
| "b64_encode A pad (a # b # c # s) =
     [A ! (byte a div 4), A ! (byte a mod 4 * 16 + byte b div 16),
      A ! (byte b mod 16 * 4 + byte c div 64), A ! (byte c mod 64)] @ b64_encode A pad s"

definition b64_val :: "string \<Rightarrow> char \<Rightarrow> nat option" where
  "b64_val A c = IndexByte A c"

definition b64_two :: "nat \<Rightarrow> nat \<Rightarrow> char" where
  "b64_two x y = char_of (x * 4 + y div 16)"

definition b64_three :: "nat \<Rightarrow> nat \<Rightarrow> char" where
  "b64_three y z = char_of (y mod 16 * 16 + z div 4)"

definition b64_four :: "nat \<Rightarrow> nat \<Rightarrow> char" where
  "b64_four z w = char_of (z mod 4 * 64 + w)"

fun b64_groups :: "string \<Rightarrow> bool \<Rightarrow> string \<Rightarrow> string option" where
  "b64_groups A pad [] = Some []"
| "b64_groups A pad [a] = None"
| "b64_groups A pad [a, b] =
     (if pad then None else
      case (b64_val A a, b64_val A b) of
        (Some x, Some y) \<Rightarrow> Some [b64_two x y]
      | _ \<Rightarrow> None)"
| "b64_groups A pad [a, b, c] =
     (if pad then None else
      case (b64_val A a, b64_val A b, b64_val A c) of
        (Some x, Some y, Some z) \<Rightarrow> Some [b64_two x y, b64_three y z]
      | _ \<Rightarrow> None)"
| "b64_groups A pad (a # b # c # d # s) =
     (if pad \<and> s = [] \<and> c = CHR ''='' \<and> d = CHR ''='' then
        (case (b64_val A a, b64_val A b) of
           (Some x, Some y) \<Rightarrow> Some [b64_two x y]
         | _ \<Rightarrow> None)
      else if pad \<and> s = [] \<and> d = CHR ''='' then
        (case (b64_val A a, b64_val A b, b64_val A c) of
           (Some x, Some y, Some z) \<Rightarrow> Some [b64_two x y, b64_three y z]
         | _ \<Rightarrow> None)
      else
        (case (b64_val A a, b64_val A b, b64_val A c, b64_val A d) of
           (Some x, Some y, Some z, Some w) \<Rightarrow>
             map_option (\<lambda>r. b64_two x y # b64_three y z # b64_four z w # r) (b64_groups A pad s)
         | _ \<Rightarrow> None))"

definition b64_decode :: "string \<Rightarrow> bool \<Rightarrow> string \<Rightarrow> string option" where
  "b64_decode A pad s = b64_groups A pad (filter (\<lambda>c. c \<noteq> CHR 0x0A \<and> c \<noteq> CHR 0x0D) s)"

section \<open>Round trip\<close>

definition alphabet_ok :: "string \<Rightarrow> bool" where
  "alphabet_ok A \<longleftrightarrow> length A = 64 \<and> distinct A \<and>
     set A \<inter> {CHR 0x0A, CHR 0x0D, CHR ''='', CHR ''.''} = {}"

lemma alphabet_ok_std: "alphabet_ok std_alphabet"
  by (simp add: alphabet_ok_def std_alphabet_def)

lemma alphabet_ok_url: "alphabet_ok url_alphabet"
  by (simp add: alphabet_ok_def url_alphabet_def)

lemma IndexByte_nth: "distinct s \<Longrightarrow> n < length s \<Longrightarrow> IndexByte s (s ! n) = Some n"
  by (induction s arbitrary: n) (auto simp: nth_Cons' split: if_splits)

lemma b64_val_nth [simp]: "alphabet_ok A \<Longrightarrow> n < 64 \<Longrightarrow> b64_val A (A ! n) = Some n"
  by (simp add: b64_val_def alphabet_ok_def IndexByte_nth)

lemma alphabet_nth_plain:
  "alphabet_ok A \<Longrightarrow> n < 64 \<Longrightarrow> A ! n \<noteq> CHR 0x0A \<and> A ! n \<noteq> CHR 0x0D \<and> A ! n \<noteq> CHR ''='' \<and> A ! n \<noteq> CHR ''.''"
  by (metis alphabet_ok_def disjoint_iff insertCI nth_mem)

lemma byte_lt [simp]: "byte c < 256"
  by (rule nat_of_char_less_256)

lemma six_bits:
  "byte a div 4 < 64" "byte a mod 4 * 16 < 64" "byte a mod 4 * 16 + byte b div 16 < 64"
  "byte b mod 16 * 4 < 64" "byte b mod 16 * 4 + byte c div 64 < 64" "byte c mod 64 < 64"
  using byte_lt [of a] byte_lt [of b] byte_lt [of c] by linarith+

lemma group_bytes:
  "b64_two (byte a div 4) (byte a mod 4 * 16) = a"
  "b64_two (byte a div 4) (byte a mod 4 * 16 + byte b div 16) = a"
  "b64_three (byte a mod 4 * 16 + byte b div 16) (byte b mod 16 * 4) = b"
  "b64_three (byte a mod 4 * 16 + byte b div 16) (byte b mod 16 * 4 + byte c div 64) = b"
  "b64_four (byte b mod 16 * 4 + byte c div 64) (byte c mod 64) = c"
proof -
  have b: "byte b div 16 < 16" and c: "byte c div 64 < 4"
    using byte_lt [of b] byte_lt [of c] by linarith+
  have 1: "byte a div 4 * 4 + byte a mod 4 * 16 div 16 = byte a" by simp
  have 2: "byte a div 4 * 4 + (byte a mod 4 * 16 + byte b div 16) div 16 = byte a"
    using b by simp
  have m: "(byte a mod 4 * 16 + byte b div 16) mod 16 = byte b div 16" using b by simp
  have d: "(byte b mod 16 * 4 + byte c div 64) div 4 = byte b mod 16" using c by simp
  have 3: "(byte a mod 4 * 16 + byte b div 16) mod 16 * 16 + byte b mod 16 * 4 div 4 = byte b"
    unfolding m by simp
  have 4: "(byte a mod 4 * 16 + byte b div 16) mod 16 * 16 + (byte b mod 16 * 4 + byte c div 64) div 4 = byte b"
    unfolding m d by simp
  have "(byte b mod 16 * 4 + byte c div 64) mod 4 = byte c div 64" using c by simp
  then have 5: "(byte b mod 16 * 4 + byte c div 64) mod 4 * 64 + byte c mod 64 = byte c" by simp
  show "b64_two (byte a div 4) (byte a mod 4 * 16) = a"
    "b64_two (byte a div 4) (byte a mod 4 * 16 + byte b div 16) = a"
    "b64_three (byte a mod 4 * 16 + byte b div 16) (byte b mod 16 * 4) = b"
    "b64_three (byte a mod 4 * 16 + byte b div 16) (byte b mod 16 * 4 + byte c div 64) = b"
    "b64_four (byte b mod 16 * 4 + byte c div 64) (byte c mod 64) = c"
    unfolding b64_two_def b64_three_def b64_four_def 1 2 3 4 5 by (rule char_of_char)+
qed

lemma encode_plain:
  "alphabet_ok A \<Longrightarrow> c \<in> set (b64_encode A pad s) \<Longrightarrow> c \<noteq> CHR 0x0A \<and> c \<noteq> CHR 0x0D \<and> c \<noteq> CHR ''.''"
  by (induction A pad s rule: b64_encode.induct) (auto simp: six_bits alphabet_nth_plain split: if_splits)

lemma groups_encode: "alphabet_ok A \<Longrightarrow> b64_groups A pad (b64_encode A pad s) = Some s"
proof (induction A pad s rule: b64_encode.induct)
  case (4 A pad a b c s)
  then have "A ! (byte c mod 64) \<noteq> CHR ''=''" by (simp add: alphabet_nth_plain six_bits)
  with 4 show ?case by (simp add: six_bits group_bytes)
qed (simp_all add: six_bits group_bytes alphabet_nth_plain)

lemma decode_encode: "alphabet_ok A \<Longrightarrow> b64_decode A pad (b64_encode A pad s) = Some s"
  unfolding b64_decode_def
  by (subst filter_True) (use encode_plain groups_encode in blast)+

interpretation base64_url: codec "b64_encode url_alphabet False" "b64_decode url_alphabet False"
  by unfold_locales (rule decode_encode [OF alphabet_ok_url])

interpretation base64_std: codec "b64_encode std_alphabet True" "b64_decode std_alphabet True"
  by unfold_locales (rule decode_encode [OF alphabet_ok_std])

end
