(* ===== verification/Identity_Jwt.thy ===== *)
theory Identity_Jwt
  imports Base64 Go_Files
begin

text \<open>
  JSON web tokens, \<open>internal/identity/jwt.go\<close>. The HMAC and the JSON decoder are arguments
  (\<open>jwt_env\<close>); \<open>hmac.Equal\<close> is equality of byte strings. The checks stand in the code's order: three
  parts, header, algorithm, signature, claims, expiry, agent id.
\<close>

record JWTClaims =
  cl_AgentID :: string
  cl_TeamID :: string
  cl_ProjectID :: string
  cl_Environment :: string
  cl_Exp :: int
  cl_Iat :: int

record jwt_env =
  je_hmac :: "string \<Rightarrow> string \<Rightarrow> string"
  je_header :: "string \<Rightarrow> error + string"
  je_claims :: "JWTClaims json"

datatype jwt_error = MalformedJWT nat | DecodeHeader | ParseHeader error | UnsupportedAlgorithm string
  | DecodeSignature | InvalidSignature | DecodeClaims | ParseClaims error | TokenExpired | MissingAgentID

definition base64URLEncode :: "string \<Rightarrow> string" where
  "base64URLEncode s = b64_encode url_alphabet False s"

definition base64URLDecode :: "string \<Rightarrow> string option" where
  "base64URLDecode s = b64_decode url_alphabet False s"

text \<open>\<open>hmacSHA256(data, key)\<close> of the code: the HMAC of the data under the key.\<close>

definition hmacSHA256 :: "jwt_env \<Rightarrow> string \<Rightarrow> string \<Rightarrow> string" where
  "hmacSHA256 E dat key = je_hmac E key dat"

definition VerifyJWT :: "jwt_env \<Rightarrow> int \<Rightarrow> string \<Rightarrow> string \<Rightarrow> jwt_error + JWTClaims" where
  "VerifyJWT E now token secret =
    (let parts = SplitNByte CHR ''.'' 3 token in
     if length parts \<noteq> 3 then Inl (MalformedJWT (length parts)) else
     case base64URLDecode (parts ! 0) of None \<Rightarrow> Inl DecodeHeader | Some headerJSON \<Rightarrow>
     case je_header E headerJSON of Inl err \<Rightarrow> Inl (ParseHeader err) | Inr alg \<Rightarrow>
     if alg \<noteq> ''HS256'' then Inl (UnsupportedAlgorithm alg) else
     let signingInput = parts ! 0 @ ''.'' @ parts ! 1;
         expectedSig = hmacSHA256 E signingInput secret in
     case base64URLDecode (parts ! 2) of None \<Rightarrow> Inl DecodeSignature | Some gotSig \<Rightarrow>
     if expectedSig \<noteq> gotSig then Inl InvalidSignature else
     case base64URLDecode (parts ! 1) of None \<Rightarrow> Inl DecodeClaims | Some claimsJSON \<Rightarrow>
     case unmarshal (je_claims E) claimsJSON of Inl err \<Rightarrow> Inl (ParseClaims err) | Inr claims \<Rightarrow>
     if cl_Exp claims > 0 \<and> now > cl_Exp claims then Inl TokenExpired
     else if cl_AgentID claims = [] then Inl MissingAgentID
     else Inr claims)"

text \<open>The header literal of \<open>SignJWT\<close>; a marshalling error is dropped, as \<open>claimsJSON, _ :=\<close> does.\<close>

definition jwt_header :: string where
  "jwt_header = ''{'' @ [CHR 0x22] @ ''alg'' @ [CHR 0x22] @ '':'' @ [CHR 0x22] @ ''HS256'' @ [CHR 0x22]
     @ '','' @ [CHR 0x22] @ ''typ'' @ [CHR 0x22] @ '':'' @ [CHR 0x22] @ ''JWT'' @ [CHR 0x22] @ ''}''"

definition SignJWT :: "jwt_env \<Rightarrow> JWTClaims \<Rightarrow> string \<Rightarrow> string" where
  "SignJWT E claims secret =
    (let header = base64URLEncode jwt_header;
         claimsJSON = (case marshal (je_claims E) claims of Inl _ \<Rightarrow> [] | Inr d \<Rightarrow> d);
         payload = base64URLEncode claimsJSON;
         signingInput = header @ ''.'' @ payload;
         sig = base64URLEncode (hmacSHA256 E signingInput secret)
     in signingInput @ ''.'' @ sig)"

section \<open>Splitting a token\<close>

lemma split3: "CHR ''.'' \<notin> set a \<Longrightarrow> CHR ''.'' \<notin> set b \<Longrightarrow>
    SplitNByte CHR ''.'' 3 (a @ CHR ''.'' # b @ CHR ''.'' # c) = [a, b, c]"
  by (simp add: numeral_3_eq_3)

lemma split3_iff: "SplitNByte CHR ''.'' 3 t = [a, b, c] \<longleftrightarrow>
    t = a @ CHR ''.'' # b @ CHR ''.'' # c \<and> CHR ''.'' \<notin> set a \<and> CHR ''.'' \<notin> set b"
proof
  assume "SplitNByte CHR ''.'' 3 t = [a, b, c]"
  then show "t = a @ CHR ''.'' # b @ CHR ''.'' # c \<and> CHR ''.'' \<notin> set a \<and> CHR ''.'' \<notin> set b"
    by (auto simp: numeral_3_eq_3 CutByte_Some split: option.splits)
qed (use split3 in auto)

lemma encode_no_dot: "CHR ''.'' \<notin> set (base64URLEncode s)"
  using encode_plain [OF alphabet_ok_url] unfolding base64URLEncode_def by blast

lemma url_decode_encode [simp]: "base64URLDecode (base64URLEncode s) = Some s"
  unfolding base64URLDecode_def base64URLEncode_def by (rule base64_url.dec_enc)

lemma length3: "length (xs :: 'a list) = 3 \<longleftrightarrow> (\<exists>a b c. xs = [a, b, c])"
  by (auto simp: numeral_3_eq_3 length_Suc_conv)

text \<open>What a verified token is, part by part.\<close>

definition good_parts :: "jwt_env \<Rightarrow> int \<Rightarrow> string \<Rightarrow> string \<Rightarrow> string \<Rightarrow> string \<Rightarrow> JWTClaims \<Rightarrow> bool" where
  "good_parts E now secret h p s claims \<longleftrightarrow>
    (\<exists>hj pj. base64URLDecode h = Some hj \<and> je_header E hj = Inr ''HS256'' \<and>
       base64URLDecode s = Some (je_hmac E secret (h @ ''.'' @ p)) \<and>
       base64URLDecode p = Some pj \<and> unmarshal (je_claims E) pj = Inr claims \<and>
       (cl_Exp claims \<le> 0 \<or> now \<le> cl_Exp claims) \<and> cl_AgentID claims \<noteq> [])"

definition good_token :: "jwt_env \<Rightarrow> int \<Rightarrow> string \<Rightarrow> string \<Rightarrow> JWTClaims \<Rightarrow> bool" where
  "good_token E now secret token claims \<longleftrightarrow>
    (\<exists>h p s. token = h @ ''.'' @ p @ ''.'' @ s \<and> CHR ''.'' \<notin> set h \<and> CHR ''.'' \<notin> set p \<and>
       good_parts E now secret h p s claims)"

lemma VerifyJWT_parts:
  "SplitNByte CHR ''.'' 3 token = [h, p, s] \<Longrightarrow>
     VerifyJWT E now token secret = Inr claims \<longleftrightarrow> good_parts E now secret h p s claims"
  by (auto simp: VerifyJWT_def Let_def good_parts_def hmacSHA256_def
      split: option.splits sum.splits if_splits)

lemma VerifyJWT_iff: "VerifyJWT E now token secret = Inr claims \<longleftrightarrow> good_token E now secret token claims"
proof
  assume ok: "VerifyJWT E now token secret = Inr claims"
  then have "length (SplitNByte CHR ''.'' 3 token) = 3"
    by (auto simp: VerifyJWT_def Let_def split: if_splits)
  then obtain h p s where hps: "SplitNByte CHR ''.'' 3 token = [h, p, s]" by (auto simp: length3)
  then have "token = h @ ''.'' @ p @ ''.'' @ s" "CHR ''.'' \<notin> set h" "CHR ''.'' \<notin> set p"
    by (auto simp: split3_iff)
  with VerifyJWT_parts [OF hps] ok show "good_token E now secret token claims"
    unfolding good_token_def by blast
next
  assume "good_token E now secret token claims"
  then obtain h p s where g: "token = h @ ''.'' @ p @ ''.'' @ s" "CHR ''.'' \<notin> set h"
       "CHR ''.'' \<notin> set p" "good_parts E now secret h p s claims"
    unfolding good_token_def by blast
  then have "SplitNByte CHR ''.'' 3 token = [h, p, s]" by (simp add: split3)
  with g show "VerifyJWT E now token secret = Inr claims" by (simp add: VerifyJWT_parts)
qed

lemma good_token_sign:
  assumes "marshal (je_claims E) claims = Inr d" and "json_roundtrip (je_claims E) claims"
    and "je_header E jwt_header = Inr ''HS256''"
    and "cl_Exp claims \<le> 0 \<or> now \<le> cl_Exp claims" and "cl_AgentID claims \<noteq> []"
  shows "good_token E now secret (SignJWT E claims secret) claims"
proof -
  let ?h = "base64URLEncode jwt_header" and ?p = "base64URLEncode d"
  let ?s = "base64URLEncode (je_hmac E secret (?h @ ''.'' @ ?p))"
  have "SignJWT E claims secret = ?h @ ''.'' @ ?p @ ''.'' @ ?s"
    using assms(1) by (simp add: SignJWT_def hmacSHA256_def Let_def)
  moreover have "unmarshal (je_claims E) d = Inr claims"
    using assms(1,2) by (simp add: json_roundtrip_def)
  then have "good_parts E now secret ?h ?p ?s claims"
    using assms by (simp add: good_parts_def)
  ultimately show ?thesis
    unfolding good_token_def using encode_no_dot by blast
qed

lemma expired_sign:
  assumes "marshal (je_claims E) claims = Inr d" and "json_roundtrip (je_claims E) claims"
    and "je_header E jwt_header = Inr ''HS256''" and "0 < cl_Exp claims" and "cl_Exp claims < now"
  shows "VerifyJWT E now (SignJWT E claims secret) secret = Inl TokenExpired"
proof -
  have "unmarshal (je_claims E) d = Inr claims" using assms(1,2) by (simp add: json_roundtrip_def)
  with assms show ?thesis
    using encode_no_dot by (simp add: VerifyJWT_def SignJWT_def Let_def split3 hmacSHA256_def)
qed

end
