(* ===== verification/Identity_Props.thy ===== *)
theory Identity_Props
  imports Identity_Registry Identity_Jwt
begin

text \<open>
  What identity binding guarantees: which API keys and which tokens resolve to an agent, what happens
  to a key when an agent is replaced or removed, and what survives a save and a reload.
\<close>

section \<open>Tokens\<close>

text \<open>
  C5: a token is accepted with claims \<open>c\<close> if and only if it is three parts \<open>h.p.s\<close> whose header
  decodes to the algorithm HS256, whose last part decodes to the HMAC of \<open>h.p\<close> under the secret,
  whose middle part decodes to \<open>c\<close>, which has not expired and names an agent. So no other algorithm
  and no other signature is ever accepted.
\<close>

theorem jwt_accepted_iff:
  "VerifyJWT E now token secret = Inr c \<longleftrightarrow>
    (\<exists>h p s hj pj. token = h @ ''.'' @ p @ ''.'' @ s \<and> CHR ''.'' \<notin> set h \<and> CHR ''.'' \<notin> set p \<and>
       base64URLDecode h = Some hj \<and> je_header E hj = Inr ''HS256'' \<and>
       base64URLDecode s = Some (je_hmac E secret (h @ ''.'' @ p)) \<and>
       base64URLDecode p = Some pj \<and> unmarshal (je_claims E) pj = Inr c \<and>
       (cl_Exp c \<le> 0 \<or> now \<le> cl_Exp c) \<and> cl_AgentID c \<noteq> [])"
  unfolding VerifyJWT_iff good_token_def good_parts_def by blast

text \<open>
  C39: signing and verifying are inverse. A token signed over claims that name an agent verifies
  under the same secret to exactly these claims until its expiry, and is refused as expired after.
\<close>

theorem jwt_sign_verify:
  assumes "marshal (je_claims E) c = Inr d" and "json_roundtrip (je_claims E) c"
    and "je_header E jwt_header = Inr ''HS256''" and "cl_AgentID c \<noteq> []" and "0 < cl_Exp c"
  shows "VerifyJWT E now (SignJWT E c secret) secret =
     (if now \<le> cl_Exp c then Inr c else Inl TokenExpired)"
  using good_token_sign [OF assms(1-3) _ assms(4)] expired_sign [OF assms(1-3,5)] by (simp add: VerifyJWT_iff)

definition demo_claims :: JWTClaims where
  "demo_claims = \<lparr>cl_AgentID = ''a1'', cl_TeamID = ''ops'', cl_ProjectID = [], cl_Environment = [],
     cl_Exp = 100, cl_Iat = 0\<rparr>"

definition demo_env :: jwt_env where
  "demo_env = \<lparr>je_hmac = (\<lambda>k d. k @ d),
     je_header = (\<lambda>s. if s = jwt_header then Inr ''HS256'' else Inl ''bad header''),
     je_claims = \<lparr>marshal = (\<lambda>c. Inr (if c = demo_claims then ''C'' else ''D'')),
       unmarshal = (\<lambda>s. if s = ''C'' then Inr demo_claims
          else if s = ''D'' then Inr (demo_claims\<lparr>cl_Exp := -1\<rparr>) else Inl ''bad claims'')\<rparr>\<rparr>"

theorem jwt_sign_verify_witness:
  "VerifyJWT demo_env 100 (SignJWT demo_env demo_claims ''k'') ''k'' = Inr demo_claims \<and>
   VerifyJWT demo_env 101 (SignJWT demo_env demo_claims ''k'') ''k'' = Inl TokenExpired"
  using jwt_sign_verify [of demo_env demo_claims "''C''" 100 "''k''"]
    jwt_sign_verify [of demo_env demo_claims "''C''" 101 "''k''"]
  by (simp add: demo_env_def json_roundtrip_def) (simp add: demo_claims_def)

text \<open>
  a token without a positive expiry never expires. Whatever the clock says, the answer to it is
  the same, so a token that was accepted once is accepted forever.
\<close>

theorem jwt_without_expiry_never_expires:
  assumes "VerifyJWT E now token secret = Inr c" and "cl_Exp c \<le> 0"
  shows "VerifyJWT E later token secret = Inr c"
  using assms unfolding VerifyJWT_iff good_token_def good_parts_def by blast

theorem jwt_without_expiry_never_expires_witness:
  "VerifyJWT demo_env 999999 (SignJWT demo_env (demo_claims\<lparr>cl_Exp := -1\<rparr>) ''k'') ''k'' =
     Inr (demo_claims\<lparr>cl_Exp := -1\<rparr>)"
proof -
  let ?c = "demo_claims\<lparr>cl_Exp := -1\<rparr>"
  have ne: "?c \<noteq> demo_claims" by (simp add: demo_claims_def)
  then have "good_token demo_env 0 ''k'' (SignJWT demo_env ?c ''k'') ?c"
    by (intro good_token_sign [of _ _ "''D''"])
      (simp_all add: demo_env_def json_roundtrip_def demo_claims_def)
  then have "VerifyJWT demo_env 0 (SignJWT demo_env ?c ''k'') ''k'' = Inr ?c"
    by (simp add: VerifyJWT_iff)
  then show ?thesis by (rule jwt_without_expiry_never_expires) simp
qed

section \<open>API keys\<close>

text \<open>
  C40: what registering and removing an agent does to its key. In a well-formed registry an agent
  that was just added resolves by its key exactly when it is active, and by its id; every other key
  resolves as before. Removing an id forgets it, and with it the key of the record stored there.
\<close>

theorem registry_add_remove:
  assumes "registry_ok r"
  shows "registry_ok (RegistryAdd a r) \<and> registry_ok (snd (RegistryRemove i r)) \<and>
     RegistryLookupByID (RegistryAdd a r) (ag_AgentID a) = Some a \<and>
     LookupByKey (RegistryAdd a r) (ag_APIKey a) = (if ag_Status a = ''active'' then Some a else None) \<and>
     (k \<noteq> ag_APIKey a \<longrightarrow> LookupByKey (RegistryAdd a r) k = LookupByKey r k) \<and>
     (fst (RegistryRemove i r) \<longleftrightarrow> RegistryLookupByID r i \<noteq> None) \<and>
     RegistryLookupByID (snd (RegistryRemove i r)) i = None \<and>
     (\<forall>b. RegistryLookupByID r i = Some b \<longrightarrow> LookupByKey (snd (RegistryRemove i r)) (ag_APIKey b) = None)"
proof -
  have "\<forall>b. RegistryLookupByID r i = Some b \<longrightarrow> LookupByKey (snd (RegistryRemove i r)) (ag_APIKey b) = None"
    by (auto simp: RegistryLookupByID_def LookupByKey_def RegistryRemove_def)
  then show ?thesis
    using assms agent_store.get_after_add [OF assms] agent_store.removed_iff [OF assms]
      agent_store.get_after_remove [OF assms]
    by (auto simp: LookupByKey_def RegistryAdd_def [of a r] registry_ok_add)
      (simp_all add: RegistryAdd_def registry_ok_def)
qed

definition demo_agent :: "string \<Rightarrow> string \<Rightarrow> Agent" where
  "demo_agent i k = \<lparr>ag_AgentID = i, ag_TeamID = [], ag_ProjectID = [], ag_Environment = [],
     ag_APIKey = k, ag_Status = ''active''\<rparr>"

definition empty_registry :: Registry where
  "empty_registry = \<lparr>rg_byKey = [], rg_byID = [], rg_path = ''agents.json''\<rparr>"

lemma registry_ok_empty_registry: "registry_ok empty_registry"
  by (simp add: registry_ok_def empty_registry_def)

theorem registry_add_remove_witness:
  "LookupByKey (RegistryAdd (demo_agent ''a1'' ''k1'') empty_registry) ''k1'' = Some (demo_agent ''a1'' ''k1'')"
  using registry_add_remove [OF registry_ok_empty_registry, of "demo_agent ''a1'' ''k1''"]
  by (auto simp: demo_agent_def)

text \<open>
  replacing an agent does not retire its old key. When an active agent \<open>a\<close> is stored and a
  record \<open>b\<close> with the same id but another key is added, the key of \<open>a\<close> still resolves to \<open>a\<close>, and
  it still does after the id has been removed: only the key of the last record goes.
\<close>

theorem replaced_key_still_resolves:
  assumes "LookupByKey r (ag_APIKey a) = Some a" and "RegistryLookupByID r (ag_AgentID a) = Some a"
    and "ag_AgentID b = ag_AgentID a" and "ag_APIKey b \<noteq> ag_APIKey a"
  shows "LookupByKey (RegistryAdd b r) (ag_APIKey a) = Some a \<and>
     fst (RegistryRemove (ag_AgentID a) (RegistryAdd b r)) \<and>
     LookupByKey (snd (RegistryRemove (ag_AgentID a) (RegistryAdd b r))) (ag_APIKey a) = Some a"
  using assms by (auto simp: LookupByKey_def RegistryAdd_def RegistryRemove_def)

theorem replaced_key_still_resolves_witness:
  "LookupByKey (snd (RegistryRemove ''a1'' (RegistryAdd (demo_agent ''a1'' ''new'')
     (RegistryAdd (demo_agent ''a1'' ''old'') empty_registry)))) ''old'' = Some (demo_agent ''a1'' ''old'')"
  using replaced_key_still_resolves [of "RegistryAdd (demo_agent ''a1'' ''old'') empty_registry"
    "demo_agent ''a1'' ''old''" "demo_agent ''a1'' ''new''"]
  by (simp add: demo_agent_def LookupByKey_def RegistryLookupByID_def RegistryAdd_def)

text \<open>What another process finds in the file.\<close>

lemma saved_then_loaded:
  assumes "registry_ok r" and "RegistrySave J F r fs = (None, fs')"
    and "json_roundtrip J (RegistryAll r)" and "f_read G (rg_path r) = None" and "rg_path g = rg_path r"
  shows "RegistryLoad J (ReadFile G fs' (rg_path g)) g =
     (None, fold RegistryAdd (RegistryAll r) (g\<lparr>rg_byKey := [], rg_byID := []\<rparr>))"
proof -
  obtain d where d: "marshal J (RegistryAll r) = Inr d" "ReadFile G fs' (rg_path r) = RData d"
    using agent_file.ok_readable assms(2,4) by blast
  then have "unmarshal J d = Inr (RegistryAll r)" using assms(3) by (simp add: json_roundtrip_def)
  then show ?thesis using d assms(5) load_is_fold_add by simp
qed

lemma reloaded_ids:
  assumes "registry_ok r"
  shows "RegistryLookupByID (fold RegistryAdd (RegistryAll r) (g\<lparr>rg_byKey := [], rg_byID := []\<rparr>)) i = RegistryLookupByID r i"
proof (cases "RegistryLookupByID r i")
  case (Some a)
  then have "a \<in> set (RegistryAll r)" "ag_AgentID a = i"
    using assms mem_RegistryAll [OF assms] by (auto simp: registry_ok_def RegistryLookupByID_def)
  with Some show ?thesis
    using agent_store.lookup_fold_add_distinct [OF registry_ok_empty distinct_RegistryAll [OF assms]] by auto
next
  case None
  then have "\<forall>a \<in> set (rev (RegistryAll r)). ag_AgentID a \<noteq> i"
    using mem_RegistryAll [OF assms] by auto
  then have "find (\<lambda>a. ag_AgentID a = i) (rev (RegistryAll r)) = None"
    by (simp add: find_None_iff)
  with None show ?thesis
    using agent_store.lookup_fold_add [OF registry_ok_empty, of "RegistryAll r" g i]
    by (simp add: RegistryLookupByID_def)
qed

lemma reloaded_keys:
  assumes "registry_ok r"
    and "LookupByKey (fold RegistryAdd (RegistryAll r) (g\<lparr>rg_byKey := [], rg_byID := []\<rparr>)) k = Some a"
  shows "ag_APIKey a = k \<and> ag_Status a = ''active'' \<and> RegistryLookupByID r (ag_AgentID a) = Some a"
  using loaded_key_from_list [OF assms(2)] mem_RegistryAll [OF assms(1)] by simp

text \<open>A key that one record has, and no other, resolves to that record.\<close>

lemma reloaded_sole_key:
  assumes "registry_ok r" and "RegistryLookupByID r (ag_AgentID a) = Some a" and "ag_Status a = ''active''"
    and "\<And>c. RegistryLookupByID r (ag_AgentID c) = Some c \<Longrightarrow> ag_APIKey c = ag_APIKey a \<Longrightarrow> c = a"
  shows "LookupByKey (fold RegistryAdd (RegistryAll r) (g\<lparr>rg_byKey := [], rg_byID := []\<rparr>)) (ag_APIKey a) = Some a"
proof -
  have mem: "c \<in> set (RegistryAll r) \<longleftrightarrow> RegistryLookupByID r (ag_AgentID c) = Some c" for c
    by (rule mem_RegistryAll [OF assms(1)])
  obtain c where c: "find (\<lambda>g. ag_APIKey g = ag_APIKey a) (rev (RegistryAll r)) = Some c"
    using mem assms(2) by (cases "find (\<lambda>g. ag_APIKey g = ag_APIKey a) (rev (RegistryAll r))") (auto simp: find_None_iff)
  then have "c \<in> set (RegistryAll r)" "ag_APIKey c = ag_APIKey a" by (auto dest!: find_SomeD)
  then have "c = a" using assms(4) mem by blast
  then show ?thesis using c assms(3) by (simp add: LookupByKey_def byKey_fold_add)
qed

text \<open>
  C18: a save and a reload restore the invariant that a key resolves only to a current agent. If the
  registry was saved without error and another process loads the file, every key that resolves there
  belongs to an active agent that is stored under its id in the saved registry, so a removed agent
  and a replaced key no longer authenticate, and ids resolve as they did.
\<close>

theorem reload_revokes:
  assumes "registry_ok r" and "RegistrySave J F r fs = (None, fs')"
    and "json_roundtrip J (RegistryAll r)" and "f_read G (rg_path r) = None"
    and "rg_path g = rg_path r"
  defines "g' \<equiv> snd (RegistryLoad J (ReadFile G fs' (rg_path g)) g)"
  shows "fst (RegistryLoad J (ReadFile G fs' (rg_path g)) g) = None \<and>
     RegistryLookupByID g' i = RegistryLookupByID r i \<and>
     (\<forall>k a. LookupByKey g' k = Some a \<longrightarrow>
        ag_APIKey a = k \<and> ag_Status a = ''active'' \<and> RegistryLookupByID r (ag_AgentID a) = Some a)"
  using saved_then_loaded [OF assms(1-5)] reloaded_ids [OF assms(1)] reloaded_keys [OF assms(1)]
  by (simp add: g'_def)

definition one_agent_json :: "Agent list json" where
  "one_agent_json = \<lparr>marshal = (\<lambda>as. if as = [demo_agent ''a1'' ''new''] then Inr ''N'' else Inl ''x''),
     unmarshal = (\<lambda>s. if s = ''N'' then Inr [demo_agent ''a1'' ''new''] else Inl ''bad'')\<rparr>"

theorem reload_revokes_witness:
  defines "r \<equiv> RegistryAdd (demo_agent ''a1'' ''new'') (RegistryAdd (demo_agent ''a1'' ''old'') empty_registry)"
  shows "LookupByKey (snd (RegistryLoad one_agent_json (ReadFile no_faults
      (snd (RegistrySave one_agent_json no_faults r (\<lambda>_. None))) ''agents.json'') empty_registry)) ''old'' = None"
proof -
  have ok: "registry_ok r" by (simp add: r_def registry_ok_empty_registry)
  have all: "RegistryAll r = [demo_agent ''a1'' ''new'']" and p: "rg_path r = ''agents.json''"
    by (simp_all add: r_def RegistryAll_def RegistryAdd_def demo_agent_def empty_registry_def)
  have rt: "json_roundtrip one_agent_json (RegistryAll r)"
    by (simp add: all json_roundtrip_def one_agent_json_def)
  have "fst (RegistrySave one_agent_json no_faults r (\<lambda>_. None)) = None"
    by (simp add: RegistrySave_def all one_agent_json_def write_rename_no_faults)
  then have sv: "RegistrySave one_agent_json no_faults r (\<lambda>_. None) =
      (None, snd (RegistrySave one_agent_json no_faults r (\<lambda>_. None)))"
    by (simp add: prod_eq_iff)
  have pe: "rg_path empty_registry = rg_path r" "rg_path empty_registry = ''agents.json''"
    using p by (simp_all add: empty_registry_def)
  have *: "\<And>k a. LookupByKey (snd (RegistryLoad one_agent_json (ReadFile no_faults
      (snd (RegistrySave one_agent_json no_faults r (\<lambda>_. None))) ''agents.json'') empty_registry)) k = Some a
      \<Longrightarrow> ag_APIKey a = k \<and> RegistryLookupByID r (ag_AgentID a) = Some a"
    using reload_revokes [OF ok sv rt no_faults_simps(1) pe(1)] by (simp add: pe(2))
  show ?thesis
  proof (rule ccontr)
    assume "\<not> ?thesis"
    then obtain a where "ag_APIKey a = ''old''" "RegistryLookupByID r (ag_AgentID a) = Some a"
      using * by blast
    moreover from this have "a = demo_agent ''a1'' ''new''"
      using mem_RegistryAll [OF ok, of a] all by simp
    ultimately show False by (simp add: demo_agent_def)
  qed
qed

end
