(* ===== verification/Float64.thy ===== *)
theory Float64
  imports Go_Text "HOL-Library.Log_Nat"
begin

text \<open>
  Go's \<open>float64\<close> as rational numbers: every operation computes the exact result and rounds it to the
  nearest number with a significand of 53 bits, ties to even. The exponent is not bounded, so
  overflow to an infinity and the subnormal range are outside the model; the values that reach the
  code come from JSON numbers, which cannot be infinite or NaN.
\<close>

section \<open>Rounding\<close>

definition round_even :: "rat \<Rightarrow> int" where
  "round_even x = (let f = \<lfloor>x\<rfloor>; r = x - of_int f in
     if r < 1 / 2 then f else if 1 / 2 < r then f + 1 else if even f then f else f + 1)"

definition binade :: "rat \<Rightarrow> int" where
  "binade x = (let (p, q) = quotient_of x; k = bitlen p - bitlen q in
     if 2 powi k \<le> x then k else k - 1)"

definition round_pos :: "rat \<Rightarrow> rat" where
  "round_pos x = (let ulp = 2 powi (binade x - 52) in of_int (round_even (x / ulp)) * ulp)"

definition rnd64 :: "rat \<Rightarrow> rat" where
  "rnd64 x = (if x = 0 then 0 else if 0 < x then round_pos x else - round_pos (- x))"

definition is_f64 :: "rat \<Rightarrow> bool" where
  "is_f64 x \<longleftrightarrow> (\<exists>m e. \<bar>m\<bar> \<le> 2 ^ 53 \<and> x = of_int m * 2 powi e)"

text \<open>The operations of the language.\<close>

abbreviation fadd :: "rat \<Rightarrow> rat \<Rightarrow> rat" where "fadd x y \<equiv> rnd64 (x + y)"
abbreviation fsub :: "rat \<Rightarrow> rat \<Rightarrow> rat" where "fsub x y \<equiv> rnd64 (x - y)"
abbreviation fmul :: "rat \<Rightarrow> rat \<Rightarrow> rat" where "fmul x y \<equiv> rnd64 (x * y)"
abbreviation fdiv :: "rat \<Rightarrow> rat \<Rightarrow> rat" where "fdiv x y \<equiv> rnd64 (x / y)"

text \<open>The verb \<open>%.0f\<close>: the nearest integer in decimal, ties to even.\<close>

definition fmt_f0 :: "rat \<Rightarrow> string" where
  "fmt_f0 x = fmt_d (round_even x)"

section \<open>Rounding to an integer\<close>

lemma round_even_int [simp]: "round_even (of_int n) = n"
  by (simp add: round_even_def)

lemma round_even_near: "x - 1 / 2 \<le> of_int (round_even x)" "of_int (round_even x) \<le> x + 1 / 2"
  unfolding round_even_def Let_def by (auto, linarith+)

lemma round_even_floor: "round_even x = \<lfloor>x\<rfloor> \<or> round_even x = \<lfloor>x\<rfloor> + 1"
  by (auto simp: round_even_def Let_def)

lemma round_even_mono:
  assumes "x \<le> y"
  shows "round_even x \<le> round_even y"
proof (cases "\<lfloor>x\<rfloor> = \<lfloor>y\<rfloor>")
  case True
  with assms show ?thesis by (auto simp: round_even_def Let_def)
next
  case False
  with floor_mono [OF assms] have "\<lfloor>x\<rfloor> + 1 \<le> \<lfloor>y\<rfloor>" by linarith
  with round_even_floor [of x] round_even_floor [of y] show ?thesis by auto
qed

section \<open>Binades\<close>

lemma powi_mono2: "a \<le> b \<Longrightarrow> (2::rat) powi a \<le> 2 powi b"
  by (rule power_int_increasing) auto

lemma powi_less2: "(2::rat) powi a < 2 powi b \<longleftrightarrow> a < b"
  using power_int_strict_increasing [of a b "2::rat"] powi_mono2 [of b a] by (auto simp: not_less [symmetric])

lemma powi_split:
  assumes "a \<le> b"
  shows "(2::rat) powi b = of_int (2 ^ nat (b - a)) * 2 powi a"
proof -
  have "(2::rat) powi b = 2 powi ((b - a) + a)" by simp
  also have "\<dots> = 2 powi (b - a) * 2 powi a" by (rule power_int_add) simp
  also have "(2::rat) powi (b - a) = of_int (2 ^ nat (b - a))"
    using assms by (simp add: power_int_def)
  finally show ?thesis .
qed

lemma pos_divide_eq_eq_powi: "x / (2::rat) powi e = y \<longleftrightarrow> x = y * 2 powi e"
  by (rule nonzero_divide_eq_eq) simp

lemma zero_le_mult_pos_right: "0 \<le> a * b \<Longrightarrow> 0 < b \<Longrightarrow> 0 \<le> (a :: rat)"
  by (simp add: zero_le_mult_iff)

lemma bitlen_rat:
  assumes "0 < p"
  shows "(2::rat) powi (bitlen p - 1) \<le> of_int p" "of_int p < (2::rat) powi bitlen p"
proof -
  have b: "0 < bitlen p" using bitlen_bounds [OF assms] assms by (cases "bitlen p \<le> 0") auto
  have "2 ^ nat (bitlen p - 1) \<le> p" "p < 2 ^ nat (bitlen p)" using bitlen_bounds [OF assms] by auto
  then have "of_int (2 ^ nat (bitlen p - 1)) \<le> (of_int p :: rat)"
    "(of_int p :: rat) < of_int (2 ^ nat (bitlen p))"
    unfolding of_int_le_iff of_int_less_iff by auto
  with b show "(2::rat) powi (bitlen p - 1) \<le> of_int p" "of_int p < (2::rat) powi bitlen p"
    by (simp_all add: power_int_def)
qed

lemma binade_bounds:
  assumes "0 < x"
  shows "2 powi binade x \<le> x" "x < 2 powi (binade x + 1)"
proof -
  obtain p q where pq: "quotient_of x = (p, q)" by fastforce
  have x: "x = of_int p / of_int q" and q: "0 < q"
    using quotient_of_div [OF pq] quotient_of_denom_pos [OF pq] by auto
  have p: "0 < p" using assms q by (simp add: x zero_less_divide_iff)
  note bp = bitlen_rat [OF p] and bq = bitlen_rat [OF q]
  let ?k = "bitlen p - bitlen q"
  have "2 powi (?k - 1) * of_int q < 2 powi (?k - 1) * (2::rat) powi bitlen q"
    using bq(2) by simp
  also have "\<dots> = 2 powi (bitlen p - 1)" by (simp flip: power_int_add)
  finally have lo: "2 powi (?k - 1) < x" using bp(1) q by (simp add: x pos_less_divide_eq)
  have "(of_int p :: rat) < 2 powi (?k + 1) * 2 powi (bitlen q - 1)"
    using bp(2) by (simp flip: power_int_add)
  also have "\<dots> \<le> 2 powi (?k + 1) * of_int q" using bq(1) by simp
  finally have hi: "x < 2 powi (?k + 1)" using q by (simp add: x pos_divide_less_eq)
  show "2 powi binade x \<le> x" "x < 2 powi (binade x + 1)"
    using lo hi by (auto simp: binade_def pq Let_def)
qed

lemma binade_unique:
  assumes "2 powi e \<le> x" and "x < 2 powi (e + 1)"
  shows "binade x = e"
proof -
  have "0 < x" using assms(1) by (rule less_le_trans [rotated]) simp
  note b = binade_bounds [OF this]
  have "2 powi e < (2::rat) powi (binade x + 1)" "2 powi binade x < (2::rat) powi (e + 1)"
    using b assms by linarith+
  then show ?thesis by (simp add: powi_less2)
qed

lemma binade_mono: "0 < x \<Longrightarrow> x \<le> y \<Longrightarrow> binade x \<le> binade y"
  using binade_bounds(1) [of x] binade_bounds(2) [of y] powi_less2 [of "binade x" "binade y + 1"]
  by linarith

section \<open>The rounded value\<close>

lemma significand_bounds:
  assumes "0 < x"
  shows "2 ^ 52 \<le> round_even (x / 2 powi (binade x - 52))"
    "round_even (x / 2 powi (binade x - 52)) \<le> 2 ^ 53"
proof -
  let ?u = "(2::rat) powi (binade x - 52)"
  note b = binade_bounds [OF assms]
  have "of_int (2 ^ 52) * ?u = 2 powi binade x" "of_int (2 ^ 53) * ?u = 2 powi (binade x + 1)"
    by (simp_all add: power_int_diff power_int_add)
  then have "of_int (2 ^ 52) \<le> x / ?u" "x / ?u \<le> of_int (2 ^ 53)"
    using b by (simp_all add: pos_le_divide_eq pos_divide_le_eq)
  then show "2 ^ 52 \<le> round_even (x / ?u)" "round_even (x / ?u) \<le> 2 ^ 53"
    using round_even_mono [of "of_int (2 ^ 52)" "x / ?u"] round_even_mono [of "x / ?u" "of_int (2 ^ 53)"]
    by (simp_all only: round_even_int)
qed

lemma round_pos_bounds:
  assumes "0 < x"
  shows "2 powi binade x \<le> round_pos x" "round_pos x \<le> 2 powi (binade x + 1)"
proof -
  let ?u = "(2::rat) powi (binade x - 52)" and ?m = "round_even (x / 2 powi (binade x - 52))"
  have "of_int (2 ^ 52) \<le> (of_int ?m :: rat)" "(of_int ?m :: rat) \<le> of_int (2 ^ 53)"
    using significand_bounds [OF assms] unfolding of_int_le_iff by auto
  moreover have "0 \<le> ?u" by simp
  ultimately have "of_int (2 ^ 52) * ?u \<le> of_int ?m * ?u" "of_int ?m * ?u \<le> of_int (2 ^ 53) * ?u"
    by (blast intro: mult_right_mono)+
  then show "2 powi binade x \<le> round_pos x" "round_pos x \<le> 2 powi (binade x + 1)"
    by (simp_all add: round_pos_def Let_def power_int_diff power_int_add)
qed

lemma round_pos_mono:
  assumes "0 < x" and "x \<le> y"
  shows "round_pos x \<le> round_pos y"
proof (cases "binade x = binade y")
  case True
  have "round_even (x / 2 powi (binade y - 52)) \<le> round_even (y / 2 powi (binade y - 52))"
    by (rule round_even_mono) (simp add: assms divide_right_mono)
  with True show ?thesis by (simp add: round_pos_def Let_def)
next
  case False
  with binade_mono [OF assms] have "(2::rat) powi (binade x + 1) \<le> 2 powi binade y"
    by (intro powi_mono2) simp
  with round_pos_bounds [of x] round_pos_bounds [of y] assms show ?thesis by linarith
qed

lemma round_pos_nonneg: "0 < x \<Longrightarrow> 0 < round_pos x"
  using round_pos_bounds(1) [of x] zero_less_power_int [of "2::rat" "binade x"] by linarith

lemma rnd64_0 [simp]: "rnd64 0 = 0"
  by (simp add: rnd64_def)

lemma rnd64_mono: "x \<le> y \<Longrightarrow> rnd64 x \<le> rnd64 y"
  using round_pos_mono [of x y] round_pos_mono [of "- y" "- x"] round_pos_nonneg [of y]
    round_pos_nonneg [of "- x"]
  by (auto simp: rnd64_def)

lemma rnd64_nonneg: "0 \<le> x \<Longrightarrow> 0 \<le> rnd64 x"
  using rnd64_mono [of 0 x] by simp

lemma rnd64_le:
  assumes "0 \<le> x"
  shows "rnd64 x \<le> (1 + 1 / 2 ^ 53) * x"
proof (cases "x = 0")
  case False
  with assms have x: "0 < x" by simp
  let ?u = "(2::rat) powi (binade x - 52)"
  have "2 ^ 52 * ?u \<le> x" using binade_bounds(1) [OF x] by (simp add: power_int_diff)
  then have "?u / 2 \<le> x / 2 ^ 53" by simp
  moreover have "of_int (round_even (x / ?u)) * ?u \<le> (x / ?u + 1 / 2) * ?u"
    using round_even_near(2) by (rule mult_right_mono) simp
  moreover have "(x / ?u + 1 / 2) * ?u = x + ?u / 2" by (simp add: distrib_right)
  moreover have "rnd64 x = of_int (round_even (x / ?u)) * ?u"
    using x by (simp add: rnd64_def round_pos_def Let_def)
  moreover have "(1 + 1 / 2 ^ 53) * x = x + x / 2 ^ 53" by (simp add: distrib_right)
  ultimately show ?thesis by linarith
qed simp

section \<open>Representable numbers\<close>

lemma is_f64_rnd64 [simp]: "is_f64 (rnd64 x)"
proof -
  have pos: "is_f64 (round_pos y) \<and> is_f64 (- round_pos y)" if "0 < y" for y
  proof -
    let ?m = "round_even (y / 2 powi (binade y - 52))"
    have m: "\<bar>?m\<bar> \<le> 2 ^ 53" "\<bar>- ?m\<bar> \<le> 2 ^ 53" using significand_bounds [OF that] by auto
    have "round_pos y = of_int ?m * 2 powi (binade y - 52)"
      "- round_pos y = of_int (- ?m) * 2 powi (binade y - 52)"
      by (simp_all add: round_pos_def Let_def)
    with m show ?thesis unfolding is_f64_def by blast
  qed
  have "is_f64 0" unfolding is_f64_def by (rule exI [of _ 0]) simp
  with pos [of x] pos [of "- x"] show ?thesis by (auto simp: rnd64_def)
qed

lemma round_pos_f64:
  assumes "0 < x" and "is_f64 x"
  shows "round_pos x = x"
proof -
  obtain m e where m: "\<bar>m\<bar> \<le> 2 ^ 53" and x: "x = of_int m * 2 powi e"
    using assms(2) unfolding is_f64_def by blast
  let ?b = "binade x" let ?u = "(2::rat) powi (?b - 52)"
  have "\<exists>n. x / ?u = of_int n"
  proof (cases "?b - 52 \<le> e")
    case True
    then have "x = of_int m * (of_int (2 ^ nat (e - (?b - 52))) * ?u)"
      unfolding x using powi_split by metis
    then have "x / ?u = of_int (m * 2 ^ nat (e - (?b - 52)))"
      by (subst pos_divide_eq_eq_powi) (simp add: mult.assoc)
    then show ?thesis by blast
  next
    case False
    have "(of_int m :: rat) \<le> of_int (2 ^ 53)" using m unfolding of_int_le_iff by linarith
    then have "x \<le> 2 powi 53 * 2 powi e" by (simp add: x)
    also have "\<dots> = 2 powi (53 + e)" by (rule power_int_add [symmetric]) simp
    also have "\<dots> \<le> 2 powi ?b" using False by (intro powi_mono2) simp
    finally have "x = 2 powi ?b" using binade_bounds(1) [OF assms(1)] by linarith
    then have "x / ?u = 2 powi ?b / 2 powi (?b - 52)" by simp
    then have "x / ?u = of_int (2 ^ 52)" by (simp add: power_int_diff)
    then show ?thesis by blast
  qed
  then obtain n where n: "x / ?u = of_int n" by blast
  then have "round_even (x / ?u) = n" by simp
  moreover have "x = of_int n * ?u" using n by (simp only: pos_divide_eq_eq_powi)
  ultimately show ?thesis unfolding round_pos_def Let_def by (simp only:)
qed

lemma rnd64_f64 [simp]:
  assumes "is_f64 x"
  shows "rnd64 x = x"
proof -
  have "is_f64 (- x)" using assms unfolding is_f64_def
    by (metis abs_minus_cancel mult_minus_left of_int_minus)
  with assms show ?thesis using round_pos_f64 [of x] round_pos_f64 [of "- x"] by (auto simp: rnd64_def)
qed

lemma is_f64_of_int: "\<bar>n\<bar> \<le> 2 ^ 53 \<Longrightarrow> is_f64 (of_int n)"
  unfolding is_f64_def by (rule exI [of _ n], rule exI [of _ 0]) simp

lemma is_f64_numeral: "numeral n \<le> (2::int) ^ 53 \<Longrightarrow> is_f64 (numeral n)"
  using is_f64_of_int [of "numeral n"] by simp

lemma is_f64_0 [simp]: "is_f64 0" and is_f64_1 [simp]: "is_f64 1"
  using is_f64_of_int [of 0] is_f64_of_int [of 1] by simp_all

lemma is_f64_half [simp]: "is_f64 (1 / 2)"
  unfolding is_f64_def by (rule exI [of _ 1], rule exI [of _ "-1"]) simp

text \<open>Taking one away from a number between 1 and \<open>2 ^ 53\<close> is exact.\<close>

lemma fsub_one_exact:
  assumes "is_f64 x" and "1 \<le> x" and "x \<le> 2 ^ 53"
  shows "fsub x 1 = x - 1"
proof (cases "x = 2 ^ 53")
  case True
  have "rnd64 (of_int (2 ^ 53 - 1)) = of_int (2 ^ 53 - 1)"
    by (rule rnd64_f64, rule is_f64_of_int) simp
  with True show ?thesis by simp
next
  case False
  with assms have x: "0 < x" "x < 2 powi 53" by simp_all
  let ?b = "binade x" let ?m = "round_even (x / 2 powi (?b - 52))"
  have b: "?b \<le> 52"
    using binade_bounds(1) [OF x(1)] x(2) powi_less2 [of ?b 53] by linarith
  have xm: "x = of_int ?m * 2 powi (?b - 52)"
    using round_pos_f64 [OF x(1) assms(1)] by (simp add: round_pos_def Let_def)
  have one: "(1::rat) = of_int (2 ^ nat (52 - ?b)) * 2 powi (?b - 52)"
  proof -
    have "?b - 52 \<le> 0" using b by simp
    from powi_split [OF this] show ?thesis by simp
  qed
  have "x - 1 = of_int (?m - 2 ^ nat (52 - ?b)) * 2 powi (?b - 52)"
    by (subst xm, subst one) (simp only: of_int_diff left_diff_distrib)
  moreover have "\<bar>?m - 2 ^ nat (52 - ?b)\<bar> \<le> 2 ^ 53"
  proof -
    have "0 \<le> of_int (?m - 2 ^ nat (52 - ?b)) * (2::rat) powi (?b - 52)"
      using calculation assms(2) by linarith
    moreover have "0 < (2::rat) powi (?b - 52)" by simp
    ultimately have "0 \<le> (of_int (?m - 2 ^ nat (52 - ?b)) :: rat)"
      by (rule zero_le_mult_pos_right)
    then have "0 \<le> ?m - 2 ^ nat (52 - ?b)" unfolding of_int_0_le_iff .
    moreover have "(0::int) \<le> 2 ^ nat (52 - ?b)" by simp
    ultimately show ?thesis using significand_bounds(2) [OF x(1)] by linarith
  qed
  ultimately have "is_f64 (x - 1)" unfolding is_f64_def by blast
  then show ?thesis by simp
qed

end
