(* ===== verification/Quota.thy ===== *)
theory Quota
  imports Float64 Go_Files
begin

text \<open>
  The quota limiter (internal/quota/bucket.go): a table of limits and a table of token buckets per
  agent, both under one mutex, so a run of the limiter is a sequence of whole calls. Times are
  nanoseconds; \<open>time.Now\<close> is the argument \<open>now\<close> of the operations that read the clock.
\<close>

section \<open>Types\<close>

record Limit =
  li_AgentID :: string
  li_RPS :: rat
  li_RPM :: rat
  li_Mode :: string

record QDecision =
  qd_Allowed :: bool
  qd_Mode :: string
  qd_Reason :: string

record bucket =
  bu_tokens :: rat
  bu_capacity :: rat
  bu_rate :: rat
  bu_last :: int

record agentBuckets =
  ab_rps :: "bucket option"
  ab_rpm :: "bucket option"

record Limiter =
  lm_limits :: "(string, Limit) gomap"
  lm_buckets :: "(string, agentBuckets) gomap"
  lm_path :: string

section \<open>Token buckets\<close>

text \<open>\<open>time.Time.Sub\<close> saturates at the bounds of an int64; \<open>Duration.Seconds\<close> splits and recombines.\<close>

definition time_Sub :: "int \<Rightarrow> int \<Rightarrow> int" where
  "time_Sub t u = max (- (2 ^ 63)) (min (2 ^ 63 - 1) (t - u))"

definition Seconds :: "int \<Rightarrow> rat" where
  "Seconds d = (let sec = sgn d * (\<bar>d\<bar> div 10 ^ 9); nsec = sgn d * (\<bar>d\<bar> mod 10 ^ 9) in
     fadd (rnd64 (of_int sec)) (fdiv (rnd64 (of_int nsec)) (10 ^ 9)))"

definition allow :: "int \<Rightarrow> bucket \<Rightarrow> bool \<times> bucket" where
  "allow now b =
    (let elapsed = Seconds (time_Sub now (bu_last b));
         tokens = fadd (bu_tokens b) (fmul elapsed (bu_rate b));
         tokens = (if tokens > bu_capacity b then bu_capacity b else tokens);
         b = b\<lparr>bu_last := now\<rparr>
     in if tokens \<ge> 1 then (True, b\<lparr>bu_tokens := fsub tokens 1\<rparr>)
        else (False, b\<lparr>bu_tokens := tokens\<rparr>))"

definition new_buckets :: "int \<Rightarrow> Limit \<Rightarrow> agentBuckets" where
  "new_buckets now lm =
    \<lparr>ab_rps = (if li_RPS lm > 0 then Some \<lparr>bu_tokens = li_RPS lm, bu_capacity = li_RPS lm,
        bu_rate = li_RPS lm, bu_last = now\<rparr> else None),
     ab_rpm = (if li_RPM lm > 0 then
        (let rpmRate = fdiv (li_RPM lm) 60 in Some \<lparr>bu_tokens = li_RPM lm, bu_capacity = li_RPM lm,
        bu_rate = rpmRate, bu_last = now\<rparr>) else None)\<rparr>"

section \<open>The limiter\<close>

definition with_mode :: "Limit \<Rightarrow> Limit" where
  "with_mode lm = (if li_Mode lm = [] then lm\<lparr>li_Mode := ''hard_stop''\<rparr> else lm)"

fun load_limits :: "int \<Rightarrow> Limit list \<Rightarrow> (string, Limit) gomap \<times> (string, agentBuckets) gomap \<Rightarrow>
    (string, Limit) gomap \<times> (string, agentBuckets) gomap" where
  "load_limits now [] ms = ms"
| "load_limits now (lm # lims) (newLimits, newBuckets) =
    (let lm = with_mode lm in
     load_limits now lims (mput (li_AgentID lm) lm newLimits,
       mput (li_AgentID lm) (new_buckets now lm) newBuckets))"

definition LimiterLoad :: "Limit list json \<Rightarrow> read_result \<Rightarrow> int \<Rightarrow> Limiter \<Rightarrow> error option \<times> Limiter" where
  "LimiterLoad J rd now l = (case rd of
     RNotExist \<Rightarrow> (None, l\<lparr>lm_limits := [], lm_buckets := []\<rparr>)
   | RError e \<Rightarrow> (Some (''read quotas '' @ lm_path l @ '': '' @ e), l)
   | RData data \<Rightarrow> (case unmarshal J data of
       Inl e \<Rightarrow> (Some (''parse quotas '' @ lm_path l @ '': '' @ e), l)
     | Inr lims \<Rightarrow> (let (newLimits, newBuckets) = load_limits now lims ([], []) in
         (None, l\<lparr>lm_limits := newLimits, lm_buckets := newBuckets\<rparr>))))"

definition NewLimiter :: "Limit list json \<Rightarrow> read_result \<Rightarrow> int \<Rightarrow> string \<Rightarrow> error + Limiter" where
  "NewLimiter J rd now path =
    (case LimiterLoad J rd now \<lparr>lm_limits = [], lm_buckets = [], lm_path = path\<rparr> of
       (Some e, _) \<Rightarrow> Inl e | (None, l) \<Rightarrow> Inr l)"

text \<open>
  A bucket is reached through a pointer, so a call of \<open>allow\<close> changes the limiter even when the
  request is refused later.
\<close>

definition put_buckets :: "string \<Rightarrow> agentBuckets \<Rightarrow> Limiter \<Rightarrow> Limiter" where
  "put_buckets i ab l = l\<lparr>lm_buckets := mput i ab (lm_buckets l)\<rparr>"

definition take_token :: "int \<Rightarrow> bucket option \<Rightarrow> bool \<times> bucket option" where
  "take_token now ob = (case ob of None \<Rightarrow> (True, None)
     | Some b \<Rightarrow> (let (ok, b') = allow now b in (ok, Some b')))"

definition Check :: "string \<Rightarrow> int \<Rightarrow> Limiter \<Rightarrow> QDecision \<times> Limiter" where
  "Check agentID now l = (case mget (lm_limits l) agentID of
     None \<Rightarrow> (\<lparr>qd_Allowed = True, qd_Mode = [], qd_Reason = []\<rparr>, l)
   | Some lm \<Rightarrow> (case mget (lm_buckets l) agentID of
       None \<Rightarrow> (\<lparr>qd_Allowed = True, qd_Mode = [], qd_Reason = []\<rparr>, l)
     | Some ab \<Rightarrow>
        (let (ok, rps) = take_token now (ab_rps ab); ab = ab\<lparr>ab_rps := rps\<rparr> in
         if \<not> ok then
           (\<lparr>qd_Allowed = (li_Mode lm = ''alert_only''), qd_Mode = li_Mode lm,
             qd_Reason = ''RPS limit exceeded ('' @ fmt_f0 (li_RPS lm) @ '' rps)''\<rparr>,
            put_buckets agentID ab l)
         else (let (ok, rpm) = take_token now (ab_rpm ab); ab = ab\<lparr>ab_rpm := rpm\<rparr> in
           if \<not> ok then
             (\<lparr>qd_Allowed = (li_Mode lm = ''alert_only''), qd_Mode = li_Mode lm,
               qd_Reason = ''RPM limit exceeded ('' @ fmt_f0 (li_RPM lm) @ '' rpm)''\<rparr>,
              put_buckets agentID ab l)
           else (\<lparr>qd_Allowed = True, qd_Mode = li_Mode lm, qd_Reason = []\<rparr>,
              put_buckets agentID ab l)))))"

definition LimiterAll :: "Limiter \<Rightarrow> Limit list" where
  "LimiterAll l = map snd (lm_limits l)"

definition LimiterLookupByID :: "Limiter \<Rightarrow> string \<Rightarrow> Limit option" where
  "LimiterLookupByID l agentID = mget (lm_limits l) agentID"

definition LimiterSet :: "int \<Rightarrow> Limit \<Rightarrow> Limiter \<Rightarrow> Limiter" where
  "LimiterSet now lm l =
    (let lm = with_mode lm in
     l\<lparr>lm_limits := mput (li_AgentID lm) lm (lm_limits l),
       lm_buckets := mput (li_AgentID lm) (new_buckets now lm) (lm_buckets l)\<rparr>)"

definition LimiterRemove :: "string \<Rightarrow> Limiter \<Rightarrow> bool \<times> Limiter" where
  "LimiterRemove agentID l = (case mget (lm_limits l) agentID of
     None \<Rightarrow> (False, l)
   | Some _ \<Rightarrow> (True, l\<lparr>lm_limits := mdel agentID (lm_limits l),
                          lm_buckets := mdel agentID (lm_buckets l)\<rparr>))"

definition LimiterSave :: "Limit list json \<Rightarrow> faults \<Rightarrow> Limiter \<Rightarrow> fs \<Rightarrow> error option \<times> fs" where
  "LimiterSave J F l fs = (case marshal J (LimiterAll l) of
     Inl e \<Rightarrow> (Some (''marshal quotas: '' @ e), fs)
   | Inr data \<Rightarrow> write_rename F ''write quotas tmp: '' ''rename quotas: '' (lm_path l) data fs)"

text \<open>A run: calls of \<open>Check\<close> in the order in which they hold the mutex.\<close>

fun CheckAll :: "(string \<times> int) list \<Rightarrow> Limiter \<Rightarrow> (string \<times> QDecision) list \<times> Limiter" where
  "CheckAll [] l = ([], l)"
| "CheckAll ((a, t) # cs) l =
    (let (d, l) = Check a t l; (ds, l) = CheckAll cs l in ((a, d) # ds, l))"

section \<open>Invariants\<close>

definition bucket_ok :: "int \<Rightarrow> bucket \<Rightarrow> bool" where
  "bucket_ok now b \<longleftrightarrow> is_f64 (bu_tokens b) \<and> is_f64 (bu_capacity b) \<and> 0 \<le> bu_tokens b \<and>
     bu_tokens b \<le> bu_capacity b \<and> 0 \<le> bu_rate b \<and> bu_last b \<le> now"

text \<open>The bucket of a limit: absent for an unlimited rate, with the limit's capacity and rate otherwise.\<close>

definition slot_ok :: "int \<Rightarrow> rat \<Rightarrow> rat \<Rightarrow> bucket option \<Rightarrow> bool" where
  "slot_ok now cap rate ob \<longleftrightarrow> (case ob of None \<Rightarrow> cap \<le> 0
     | Some b \<Rightarrow> 0 < cap \<and> bucket_ok now b \<and> bu_capacity b = cap \<and> bu_rate b = rate)"

definition limit_ok :: "int \<Rightarrow> Limit \<Rightarrow> agentBuckets \<Rightarrow> bool" where
  "limit_ok now lm ab \<longleftrightarrow> slot_ok now (li_RPS lm) (li_RPS lm) (ab_rps ab) \<and>
     slot_ok now (li_RPM lm) (fdiv (li_RPM lm) 60) (ab_rpm ab)"

definition f64_limit :: "Limit \<Rightarrow> bool" where
  "f64_limit lm \<longleftrightarrow> is_f64 (li_RPS lm) \<and> is_f64 (li_RPM lm)"

definition entry_ok :: "int \<Rightarrow> string \<Rightarrow> Limit option \<Rightarrow> agentBuckets option \<Rightarrow> bool" where
  "entry_ok now i mo bo \<longleftrightarrow> (case mo of None \<Rightarrow> bo = None
     | Some m \<Rightarrow> li_AgentID m = i \<and> li_Mode m \<noteq> [] \<and> (\<exists>ab. bo = Some ab \<and> limit_ok now m ab))"

definition limiter_ok :: "int \<Rightarrow> Limiter \<Rightarrow> bool" where
  "limiter_ok now l \<longleftrightarrow> gomap_ok (lm_limits l) \<and> gomap_ok (lm_buckets l) \<and>
     (\<forall>i. entry_ok now i (mget (lm_limits l) i) (mget (lm_buckets l) i))"

lemma new_buckets_ok: "f64_limit m \<Longrightarrow> limit_ok now m (new_buckets now m)"
  by (auto simp: f64_limit_def limit_ok_def slot_ok_def new_buckets_def bucket_ok_def Let_def
      intro!: rnd64_nonneg)

lemma with_mode_simps [simp]:
  "li_AgentID (with_mode m) = li_AgentID m" "li_RPS (with_mode m) = li_RPS m"
  "li_RPM (with_mode m) = li_RPM m" "li_Mode (with_mode m) \<noteq> []" "f64_limit (with_mode m) = f64_limit m"
  "with_mode (with_mode m) = with_mode m"
  by (simp_all add: with_mode_def f64_limit_def)

lemma with_mode_id: "li_Mode m \<noteq> [] \<Longrightarrow> with_mode m = m"
  by (simp add: with_mode_def)

section \<open>The limiter is a keyed store\<close>

definition tables_ok :: "Limiter \<Rightarrow> bool" where
  "tables_ok l \<longleftrightarrow> gomap_ok (lm_limits l) \<and> gomap_ok (lm_buckets l) \<and>
     (\<forall>i. (mget (lm_limits l) i = None) = (mget (lm_buckets l) i = None)) \<and>
     (\<forall>i m. mget (lm_limits l) i = Some m \<longrightarrow> li_AgentID m = i \<and> li_Mode m \<noteq> [])"

interpretation quota_store: keyed_store LimiterLookupByID "LimiterSet now" LimiterRemove li_AgentID
  with_mode tables_ok
  for now :: int
proof unfold_locales
  fix s :: Limiter and v :: Limit and k k' :: string
  assume ok: "tables_ok s"
  show "LimiterLookupByID (LimiterSet now v s) k =
      (if k = li_AgentID v then Some (with_mode v) else LimiterLookupByID s k)"
    by (simp add: LimiterLookupByID_def LimiterSet_def Let_def)
  show "LimiterLookupByID (snd (LimiterRemove k s)) k' = (if k' = k then None else LimiterLookupByID s k')"
    by (auto simp: LimiterLookupByID_def LimiterRemove_def split: option.splits)
  show "fst (LimiterRemove k s) = (LimiterLookupByID s k \<noteq> None)"
    by (auto simp: LimiterLookupByID_def LimiterRemove_def split: option.splits)
  show "tables_ok (LimiterSet now v s)" using ok by (auto simp: tables_ok_def LimiterSet_def Let_def)
  show "tables_ok (snd (LimiterRemove k s))"
    using ok by (auto simp: tables_ok_def LimiterRemove_def split: option.splits if_splits)
qed

interpretation quota_file: atomic_file "LimiterSave J" "\<lambda>l. marshal J (LimiterAll l)" lm_path
  for J :: "Limit list json"
proof unfold_locales
  fix F l fs fs' err and q :: string
  show "LimiterSave J F l fs = (None, fs') \<Longrightarrow> \<exists>d. marshal J (LimiterAll l) = Inr d \<and> fs' (lm_path l) = Some d"
    by (auto simp: LimiterSave_def dest: write_rename_ok split: sum.splits)
  show "LimiterSave J F l fs = (Some err, fs') \<Longrightarrow> fs' (lm_path l) = fs (lm_path l)"
    by (auto simp: LimiterSave_def dest: write_rename_err split: sum.splits)
  show "q \<noteq> lm_path l \<Longrightarrow> q \<noteq> tmp_path (lm_path l) \<Longrightarrow> snd (LimiterSave J F l fs) q = fs q"
    by (auto simp: LimiterSave_def write_rename_frame split: sum.splits)
qed

section \<open>Loading\<close>

lemma load_limits_fold:
  "load_limits now ms (lm_limits l, lm_buckets l) =
     (lm_limits (fold (LimiterSet now) ms l), lm_buckets (fold (LimiterSet now) ms l))"
proof (induction ms arbitrary: l)
  case (Cons m ms)
  from Cons.IH [of "LimiterSet now m l"] show ?case by (simp add: LimiterSet_def Let_def)
qed simp

lemma lm_path_fold [simp]: "lm_path (fold (LimiterSet now) ms l) = lm_path l"
  by (induction ms arbitrary: l) (simp_all add: LimiterSet_def Let_def)

lemma load_is_fold_set:
  assumes "unmarshal J d = Inr ms"
  shows "LimiterLoad J (RData d) now l =
    (None, fold (LimiterSet now) ms (l\<lparr>lm_limits := [], lm_buckets := []\<rparr>))"
proof -
  let ?e = "l\<lparr>lm_limits := [], lm_buckets := []\<rparr>" let ?f = "fold (LimiterSet now) ms ?e"
  have "load_limits now ms ([], []) = (lm_limits ?f, lm_buckets ?f)"
    using load_limits_fold [of now ms ?e] by simp
  then have "LimiterLoad J (RData d) now l = (None, l\<lparr>lm_limits := lm_limits ?f, lm_buckets := lm_buckets ?f\<rparr>)"
    using assms by (simp add: LimiterLoad_def)
  also have "l\<lparr>lm_limits := lm_limits ?f, lm_buckets := lm_buckets ?f\<rparr> = ?f"
    using lm_path_fold [of now ms ?e] by (intro Limiter.equality) simp_all
  finally show ?thesis .
qed

section \<open>The invariant of the limiter\<close>

lemma limiter_ok_at:
  "limiter_ok now l \<Longrightarrow> entry_ok now i (mget (lm_limits l) i) (mget (lm_buckets l) i)"
  by (simp add: limiter_ok_def)

lemma limiter_ok_cases:
  assumes "limiter_ok now l" and "mget (lm_limits l) i = Some m"
  obtains ab where "li_AgentID m = i" "li_Mode m \<noteq> []" "mget (lm_buckets l) i = Some ab" "limit_ok now m ab"
  using limiter_ok_at [OF assms(1), of i] assms(2) by (auto simp: entry_ok_def)

lemma limiter_ok_none:
  "limiter_ok now l \<Longrightarrow> mget (lm_limits l) i = None \<longleftrightarrow> mget (lm_buckets l) i = None"
  using limiter_ok_at [of now l i] by (cases "mget (lm_limits l) i") (auto simp: entry_ok_def)

lemma limiter_ok_tables:
  assumes "limiter_ok now l"
  shows "tables_ok l"
  unfolding tables_ok_def
proof (intro conjI allI impI)
  show "gomap_ok (lm_limits l)" "gomap_ok (lm_buckets l)" using assms by (simp_all add: limiter_ok_def)
  show "(mget (lm_limits l) i = None) = (mget (lm_buckets l) i = None)" for i
    using limiter_ok_none [OF assms] .
  show "li_AgentID m = i" "li_Mode m \<noteq> []" if "mget (lm_limits l) i = Some m" for i m
    using limiter_ok_cases [OF assms that] by blast+
qed

lemma limiter_ok_empty: "limiter_ok now (l\<lparr>lm_limits := [], lm_buckets := []\<rparr>)"
  by (simp add: limiter_ok_def entry_ok_def)

lemma limiter_okI:
  assumes "limiter_ok now l" and "gomap_ok (lm_limits l')" and "gomap_ok (lm_buckets l')"
    and "\<And>j. j \<noteq> i \<Longrightarrow> mget (lm_limits l') j = mget (lm_limits l) j \<and> mget (lm_buckets l') j = mget (lm_buckets l) j"
    and "entry_ok now i (mget (lm_limits l') i) (mget (lm_buckets l') i)"
  shows "limiter_ok now l'"
  unfolding limiter_ok_def
proof (intro conjI allI)
  fix j
  show "entry_ok now j (mget (lm_limits l') j) (mget (lm_buckets l') j)"
    using assms(4) [of j] assms(5) limiter_ok_at [OF assms(1), of j] by (cases "j = i") simp_all
qed (use assms in auto)

lemma limiter_ok_Set:
  assumes "limiter_ok now l" and "f64_limit m"
  shows "limiter_ok now (LimiterSet now m l)"
proof (rule limiter_okI [OF assms(1), where i = "li_AgentID m"])
  have "gomap_ok (lm_limits l)" "gomap_ok (lm_buckets l)" using assms(1) by (simp_all add: limiter_ok_def)
  then show "gomap_ok (lm_limits (LimiterSet now m l))" "gomap_ok (lm_buckets (LimiterSet now m l))"
    by (simp_all add: LimiterSet_def Let_def)
qed (use assms(2) new_buckets_ok [of "with_mode m" now] in \<open>simp_all add: LimiterSet_def Let_def entry_ok_def\<close>)

lemma limiter_ok_Remove:
  assumes "limiter_ok now l"
  shows "limiter_ok now (snd (LimiterRemove i l))"
proof (cases "mget (lm_limits l) i")
  case (Some m)
  have "gomap_ok (lm_limits l)" "gomap_ok (lm_buckets l)" using assms(1) by (simp_all add: limiter_ok_def)
  then show ?thesis
    by (intro limiter_okI [OF assms, where i = i]) (simp_all add: LimiterRemove_def Some entry_ok_def)
qed (simp add: LimiterRemove_def assms)

lemma limiter_ok_fold_Set:
  "limiter_ok now l \<Longrightarrow> \<forall>m \<in> set ms. f64_limit m \<Longrightarrow> limiter_ok now (fold (LimiterSet now) ms l)"
  by (induction ms arbitrary: l) (simp_all add: limiter_ok_Set)

lemma Seconds_nonneg: "0 \<le> d \<Longrightarrow> 0 \<le> Seconds d"
  by (auto simp: Seconds_def Let_def sgn_if intro!: rnd64_nonneg add_nonneg_nonneg divide_nonneg_nonneg)

lemma allow_ok:
  assumes "bucket_ok t b" and "t \<le> now"
  shows "bucket_ok now (snd (allow now b)) \<and> bu_capacity (snd (allow now b)) = bu_capacity b \<and>
     bu_rate (snd (allow now b)) = bu_rate b \<and> bu_last (snd (allow now b)) = now"
proof -
  let ?r = "fadd (bu_tokens b) (fmul (Seconds (time_Sub now (bu_last b))) (bu_rate b))"
  let ?pre = "if ?r > bu_capacity b then bu_capacity b else ?r"
  have "0 \<le> time_Sub now (bu_last b)" using assms by (simp add: bucket_ok_def time_Sub_def)
  then have "0 \<le> ?r" using assms
    by (intro rnd64_nonneg add_nonneg_nonneg mult_nonneg_nonneg Seconds_nonneg) (auto simp: bucket_ok_def)
  then have pre: "0 \<le> ?pre" "?pre \<le> bu_capacity b" "is_f64 ?pre"
    using assms by (auto simp: bucket_ok_def)
  have "1 \<le> ?pre \<Longrightarrow> 0 \<le> fsub ?pre 1 \<and> fsub ?pre 1 \<le> ?pre"
    using rnd64_nonneg [of "?pre - 1"] rnd64_mono [of "?pre - 1" ?pre] pre(3) by simp
  with pre assms show ?thesis by (auto simp: allow_def Let_def bucket_ok_def)
qed

lemma bucket_ok_later: "bucket_ok t b \<Longrightarrow> t \<le> now \<Longrightarrow> bucket_ok now b"
  by (simp add: bucket_ok_def)

lemma slot_ok_later: "slot_ok t c r ob \<Longrightarrow> t \<le> now \<Longrightarrow> slot_ok now c r ob"
  by (auto simp: slot_ok_def bucket_ok_later split: option.splits)

lemma slot_ok_take: "slot_ok t c r ob \<Longrightarrow> t \<le> now \<Longrightarrow> slot_ok now c r (snd (take_token now ob))"
  using allow_ok [of t "the ob" now]
  by (cases ob) (simp_all add: slot_ok_def take_token_def split_beta)

end
