(* ===== verification/Audit_Log.thy ===== *)
theory Audit_Log
  imports Go_Files
begin

text \<open>
  The audit log (internal/audit): an append-only file of one JSON record per line. \<open>Write\<close> appends a
  record, \<open>Query\<close> reads the file back through a \<open>bufio.Scanner\<close> with a buffer of 256 KiB and filters
  it, \<open>Validate\<close> checks the required fields. \<open>time.Parse\<close> is a parameter; an instant is an integer.
\<close>

section \<open>Events\<close>

record Event =
  ev_Timestamp :: string
  ev_RequestID :: string
  ev_AgentID :: string
  ev_TeamID :: string
  ev_ProjectID :: string
  ev_Environment :: string
  ev_Destination :: string
  ev_Method :: string
  ev_Decision :: string
  ev_PolicyID :: string
  ev_LatencyMs :: int
  ev_BytesOut :: int

record Log =
  lg_path :: string
  lg_open :: bool

text \<open>\<open>MkdirAll\<close> on the parent directories, then an open that creates the file if it is missing.\<close>

definition NewLog :: "faults \<Rightarrow> string \<Rightarrow> fs \<Rightarrow> (error + Log) \<times> fs" where
  "NewLog F path fs = (case f_mkdir F path of
     Some e \<Rightarrow> (Inl (''create audit log dir: '' @ e), fs)
   | None \<Rightarrow> (case f_append F path of
       Some e \<Rightarrow> (Inl (''open audit log '' @ path @ '': '' @ e), fs)
     | None \<Rightarrow> (Inr \<lparr>lg_path = path, lg_open = True\<rparr>,
         (case fs path of None \<Rightarrow> fs(path \<mapsto> []) | Some _ \<Rightarrow> fs))))"

text \<open>\<open>now\<close> is the formatted current time.\<close>

definition AuditWrite :: "Event json \<Rightarrow> faults \<Rightarrow> string \<Rightarrow> Event \<Rightarrow> Log \<Rightarrow> fs \<Rightarrow> error option \<times> fs" where
  "AuditWrite J F now e l fs =
    (let e = (if ev_Timestamp e = [] then e\<lparr>ev_Timestamp := now\<rparr> else e) in
     case marshal J e of
       Inl err \<Rightarrow> (Some (''marshal audit event: '' @ err), fs)
     | Inr data \<Rightarrow>
         if lg_open l then AppendFile F (lg_path l) (data @ [newline]) fs
         else (Some ''file already closed'', fs))"

definition AuditClose :: "Log \<Rightarrow> error option \<times> Log" where
  "AuditClose l = (if lg_open l then (None, l\<lparr>lg_open := False\<rparr>) else (Some ''file already closed'', l))"

definition Validate :: "Event \<Rightarrow> error option" where
  "Validate e =
    (if ev_RequestID e = [] then Some ''missing request_id''
     else if ev_Decision e = [] then Some ''missing decision''
     else if ev_Decision e \<noteq> ''allow'' \<and> ev_Decision e \<noteq> ''deny'' \<and> ev_Decision e \<noteq> ''allow-upstream-error''
       then Some (''invalid decision: '' @ fmt_q (ev_Decision e))
     else if ev_PolicyID e = [] then Some ''missing policy_id''
     else if ev_Destination e = [] then Some ''missing destination''
     else if ev_Method e = [] then Some ''missing http_method''
     else None)"

section \<open>Scanning lines\<close>

text \<open>
  \<open>bufio.ScanLines\<close>: the data between newlines, a final piece without a newline only if it is not
  empty, and a carriage return at the end dropped. A line that does not fit into the buffer together
  with its newline stops the scanner with an error.
\<close>

definition max_token :: nat where "max_token = 262144"

definition dropCR :: "string \<Rightarrow> string" where
  "dropCR l = (if l \<noteq> [] \<and> last l = creturn then butlast l else l)"

definition fits :: "string \<Rightarrow> bool" where
  "fits l \<longleftrightarrow> length l < max_token"

definition ScanLines :: "string \<Rightarrow> string list" where
  "ScanLines d = map dropCR (takeWhile fits (split_lines d))"

definition ScanErr :: "string \<Rightarrow> error option" where
  "ScanErr d = (if list_all fits (split_lines d) then None else Some ''bufio.Scanner: token too long'')"

section \<open>Query\<close>

record Filter =
  ft_AgentID :: string
  ft_Decision :: string
  ft_Since :: string
  ft_Limit :: int

record time_parse =
  tp_RFC3339 :: "string \<Rightarrow> int option"
  tp_RFC3339Nano :: "string \<Rightarrow> int option"

text \<open>The zero \<open>time.Time\<close>, 1 January of year 1, in nanoseconds since 1970.\<close>

definition zero_time :: int where "zero_time = - 62135596800 * 10 ^ 9"

fun query_loop :: "Event json \<Rightarrow> time_parse \<Rightarrow> Filter \<Rightarrow> int \<Rightarrow> string list \<Rightarrow> Event list" where
  "query_loop J T f sinceT [] = []"
| "query_loop J T f sinceT (line # lines) =
    (if length line = 0 then query_loop J T f sinceT lines
     else (case unmarshal J line of
       Inl _ \<Rightarrow> query_loop J T f sinceT lines
     | Inr e \<Rightarrow>
         if ft_AgentID f \<noteq> [] \<and> ev_AgentID e \<noteq> ft_AgentID f then query_loop J T f sinceT lines
         else if ft_Decision f \<noteq> [] \<and> ev_Decision e \<noteq> ft_Decision f then query_loop J T f sinceT lines
         else if sinceT \<noteq> zero_time \<and> ev_Timestamp e \<noteq> [] \<and>
             (case tp_RFC3339Nano T (ev_Timestamp e) of Some t \<Rightarrow> t < sinceT | None \<Rightarrow> False)
           then query_loop J T f sinceT lines
         else e # query_loop J T f sinceT lines))"

definition since_time :: "time_parse \<Rightarrow> Filter \<Rightarrow> int" where
  "since_time T f = (if ft_Since f \<noteq> [] then
     (case tp_RFC3339 T (ft_Since f) of Some t \<Rightarrow> t | None \<Rightarrow> zero_time) else zero_time)"

definition tail_limit :: "int \<Rightarrow> 'a list \<Rightarrow> 'a list" where
  "tail_limit n xs = (if n > 0 \<and> int (length xs) > n then drop (length xs - nat n) xs else xs)"

definition Query :: "Event json \<Rightarrow> time_parse \<Rightarrow> faults \<Rightarrow> fs \<Rightarrow> string \<Rightarrow> Filter \<Rightarrow> Event list \<times> error option" where
  "Query J T F fs path f = (case ReadFile F fs path of
     RNotExist \<Rightarrow> ([], None)
   | RError e \<Rightarrow> ([], Some e)
   | RData d \<Rightarrow> (tail_limit (ft_Limit f) (query_loop J T f (since_time T f) (ScanLines d)), ScanErr d))"

section \<open>Scanning appended lines\<close>

lemma ScanErr_append:
  "ends_line c \<Longrightarrow> ScanErr (c @ d) = (if ScanErr c = None then ScanErr d else ScanErr c)"
  by (simp add: ScanErr_def split_lines_append)

lemma ScanLines_append:
  "ends_line c \<Longrightarrow> ScanErr c = None \<Longrightarrow> ScanLines (c @ d) = ScanLines c @ ScanLines d"
  by (auto simp: ScanErr_def ScanLines_def split_lines_append takeWhile_append2 list_all_iff
      takeWhile_eq_all_conv [THEN iffD2] split: if_splits)

lemma dropCR_id [simp]: "creturn \<notin> set l \<Longrightarrow> dropCR l = l"
  unfolding dropCR_def by (metis last_in_set)

lemma ScanLines_line: "newline \<notin> set l \<Longrightarrow> fits l \<Longrightarrow> ScanLines (l @ [newline]) = [dropCR l]"
  by (simp add: ScanLines_def split_lines_line)

lemma ScanErr_line: "newline \<notin> set l \<Longrightarrow> ScanErr (l @ [newline]) = None \<longleftrightarrow> fits l"
  by (simp add: ScanErr_def split_lines_line)

section \<open>What a query selects\<close>

definition matching :: "time_parse \<Rightarrow> Filter \<Rightarrow> Event \<Rightarrow> bool" where
  "matching T f e \<longleftrightarrow> (ft_AgentID f = [] \<or> ev_AgentID e = ft_AgentID f) \<and>
     (ft_Decision f = [] \<or> ev_Decision e = ft_Decision f) \<and>
     (since_time T f = zero_time \<or> ev_Timestamp e = [] \<or>
       (case tp_RFC3339Nano T (ev_Timestamp e) of Some t \<Rightarrow> since_time T f \<le> t | None \<Rightarrow> True))"

text \<open>The events a line contributes: none when it is empty or malformed.\<close>

definition decode_line :: "Event json \<Rightarrow> string \<Rightarrow> Event list" where
  "decode_line J line = (if line = [] then [] else (case unmarshal J line of Inl _ \<Rightarrow> [] | Inr e \<Rightarrow> [e]))"

lemma query_loop_filter:
  "query_loop J T f (since_time T f) ls = filter (matching T f) (concat (map (decode_line J) ls))"
  by (induction ls) (auto simp: decode_line_def matching_def split: sum.splits option.splits)

definition events_in :: "Event json \<Rightarrow> string \<Rightarrow> Event list" where
  "events_in J d = concat (map (decode_line J) (ScanLines d))"

lemma Query_events:
  "f_read G path = None \<Longrightarrow> fs path = Some d \<Longrightarrow>
   Query J T G fs path f = (tail_limit (ft_Limit f) (filter (matching T f) (events_in J d)), ScanErr d)"
  by (simp add: Query_def ReadFile_def query_loop_filter events_in_def)

lemma events_in_append:
  "ends_line c \<Longrightarrow> ScanErr c = None \<Longrightarrow> events_in J (c @ d) = events_in J c @ events_in J d"
  by (simp add: events_in_def ScanLines_append)

end
