(* ===== verification/Gateway.thy ===== *)
theory Gateway
  imports Policy_Engine Identity_Registry Identity_Jwt Quota Audit_Log "HOL-Library.Word"
begin

text \<open>
  The egress proxy (cmd/clawgress-gateway/main.go). A handler is a function from the gateway's state
  to the list of its effects, in the order in which the code has them, and the next state. What the
  network, the clock and the client connection answer during one request is the record \<open>answers\<close>;
  the effects are the calls that reach the response writer, the network, the audit log and the
  metrics.
\<close>

section \<open>Requests, effects and state\<close>

record URL =
  ur_Path :: string
  ur_Host :: string

type_synonym header = "(string, string list) gomap"

record Request =
  rq_Method :: string
  rq_Host :: string
  rq_URL :: "URL option"
  rq_Header :: header
  rq_RequestURI :: string

record HttpResponse =
  rs_StatusCode :: int
  rs_Header :: header

datatype effect =
    SetHeader string string
  | AddHeader string string
  | HttpError int string
  | WriteHeader int
  | CopyBody
  | DialTCP string
  | DoRequest Request
  | Tunnel
  | AuditEvent Event
  | LogPrintf string
  | CounterInc string "string list"
  | CounterAdd string "string list" rat
  | HistogramObserve string "string list" rat

record proxyHandler =
  ph_reg :: Registry
  ph_eng :: Engine
  ph_lim :: Limiter
  ph_alog :: Log
  ph_jwtSecret :: string
  ph_reqSeq :: "64 word"
  ph_fs :: fs

text \<open>
  The parameters of a run: case tables, token codec, JSON codec of events, file-system faults; and
  the answers to one request.
\<close>

record world =
  wo_unicode :: unicode
  wo_jwt :: jwt_env
  wo_events :: "Event json"
  wo_faults :: faults

record answers =
  an_unixMilli :: int
  an_unix :: int
  an_nanos :: int
  an_timestamp :: string
  an_latencyMs :: int
  an_dial :: "error option"
  an_hijacker :: bool
  an_hijack :: "error option"
  an_bytesOut :: int
  an_do :: "error + HttpResponse"
  an_copied :: int

type_synonym handler = "proxyHandler \<Rightarrow> effect list \<times> proxyHandler"

definition emit :: "effect list \<Rightarrow> handler" where
  "emit es h = (es, h)"

definition and_then :: "handler \<Rightarrow> handler \<Rightarrow> handler" where
  "and_then a b h = (let (es, h) = a h; (es', h) = b h in (es @ es', h))"

section \<open>Helpers\<close>

text \<open>\<open>http.Header.Get\<close> and \<open>Del\<close>, for keys in canonical form.\<close>

definition header_Get :: "header \<Rightarrow> string \<Rightarrow> string" where
  "header_Get m k = (case mget m k of Some (v # _) \<Rightarrow> v | _ \<Rightarrow> [])"

text \<open>\<open>extractProxyAuth\<close> returns the claimed agent id, the API key and the bearer token.\<close>

definition extractProxyAuth :: "Request \<Rightarrow> string \<times> string \<times> string" where
  "extractProxyAuth r =
    (let auth = header_Get (rq_Header r) ''Proxy-Authorization'' in
     if auth = [] then ([], [], [])
     else if HasPrefix auth ''Bearer '' then ([], [], TrimPrefix auth ''Bearer '')
     else if \<not> HasPrefix auth ''Basic '' then ([], [], [])
     else (case b64_decode std_alphabet True (TrimPrefix auth ''Basic '') of
         None \<Rightarrow> ([], [], [])
       | Some decoded \<Rightarrow>
           (let parts = SplitNByte CHR '':'' 2 decoded in
            if length parts \<noteq> 2 then ([], [], []) else (parts ! 0, parts ! 1, []))))"

definition requestHost :: "Request \<Rightarrow> string" where
  "requestHost r = (if rq_Host r \<noteq> [] then rq_Host r
     else (case rq_URL r of Some u \<Rightarrow> ur_Host u | None \<Rightarrow> []))"

definition newRequestID :: "int \<Rightarrow> 64 word \<Rightarrow> string \<times> 64 word" where
  "newRequestID unixMilli reqSeq =
    (let n = reqSeq + 1 in
     (''req-'' @ fmt_d unixMilli @ ''-'' @ pad_left 4 CHR ''0'' (dec_nat (unat n mod 10000)), n))"

text \<open>
  The effect \<open>AuditEvent\<close> is the call of \<open>alog.Write\<close>: it is listed also when the write to the log file
  fails, which the gateway only logs. What reaches the file is in the file system of the result.
\<close>

definition writeAudit :: "world \<Rightarrow> answers \<Rightarrow> Event \<Rightarrow> handler" where
  "writeAudit W a e h =
    (let (err, fs) = AuditWrite (wo_events W) (wo_faults W) (an_timestamp a) e (ph_alog h) (ph_fs h) in
     (AuditEvent e #
      (case err of None \<Rightarrow> [] | Some m \<Rightarrow> [LogPrintf (''audit write error: '' @ m)]) @
      [CounterInc ''requests_total'' [ev_AgentID e, ev_Decision e, ev_PolicyID e],
       HistogramObserve ''request_duration_seconds'' [ev_AgentID e, ev_Decision e]
         (fdiv (rnd64 (of_int (ev_LatencyMs e))) 1000),
       CounterInc ''events_total'' []] @
      (if ev_BytesOut e > 0 then
        [CounterAdd ''bytes_out_total'' [ev_AgentID e] (rnd64 (of_int (ev_BytesOut e)))] else []) @
      (if ev_Decision e = ''deny'' then [CounterInc ''deny_total'' [ev_PolicyID e]] else []),
      h\<lparr>ph_fs := fs\<rparr>))"

section \<open>Forwarding\<close>

definition handleConnect ::
  "world \<Rightarrow> answers \<Rightarrow> Request \<Rightarrow> Agent \<Rightarrow> string \<Rightarrow> Decision \<Rightarrow> handler" where
  "handleConnect W a r ag reqID dec =
    and_then (emit [DialTCP (rq_Host r)])
    (case an_dial a of
      Some _ \<Rightarrow>
        and_then (emit [HttpError 502 (''502 Bad Gateway '' @ emdash @ '' upstream unreachable'')])
          (writeAudit W a \<lparr>ev_Timestamp = [], ev_RequestID = reqID, ev_AgentID = ag_AgentID ag,
            ev_TeamID = ag_TeamID ag, ev_ProjectID = ag_ProjectID ag, ev_Environment = ag_Environment ag,
            ev_Destination = rq_Host r, ev_Method = rq_Method r, ev_Decision = ''allow-upstream-error'',
            ev_PolicyID = de_PolicyID dec, ev_LatencyMs = an_latencyMs a, ev_BytesOut = 0\<rparr>)
    | None \<Rightarrow>
        if \<not> an_hijacker a then
          emit [HttpError 500 (''500 Internal Server Error '' @ emdash @ '' hijack unsupported'')]
        else (case an_hijack a of
          Some _ \<Rightarrow> emit []
        | None \<Rightarrow>
            and_then (emit [Tunnel])
              (writeAudit W a \<lparr>ev_Timestamp = [], ev_RequestID = reqID, ev_AgentID = ag_AgentID ag,
                ev_TeamID = ag_TeamID ag, ev_ProjectID = ag_ProjectID ag,
                ev_Environment = ag_Environment ag, ev_Destination = rq_Host r, ev_Method = rq_Method r,
                ev_Decision = ''allow'', ev_PolicyID = de_PolicyID dec, ev_LatencyMs = an_latencyMs a,
                ev_BytesOut = an_bytesOut a\<rparr>)))"

definition handleHTTP ::
  "world \<Rightarrow> answers \<Rightarrow> Request \<Rightarrow> Agent \<Rightarrow> string \<Rightarrow> Decision \<Rightarrow> handler" where
  "handleHTTP W a r ag reqID dec =
    (let r = r\<lparr>rq_Header := mdel ''Proxy-Connection'' (mdel ''Proxy-Authorization'' (rq_Header r)),
               rq_RequestURI := []\<rparr> in
     and_then (emit [DoRequest r])
     (case an_do a of
       Inl _ \<Rightarrow> emit [HttpError 502 ''502 Bad Gateway'']
     | Inr resp \<Rightarrow>
         and_then
          (emit (concat (map (\<lambda>(k, vv). map (AddHeader k) vv) (rs_Header resp)) @
             [WriteHeader (rs_StatusCode resp), CopyBody]))
          (writeAudit W a \<lparr>ev_Timestamp = [], ev_RequestID = reqID, ev_AgentID = ag_AgentID ag,
             ev_TeamID = ag_TeamID ag, ev_ProjectID = ag_ProjectID ag,
             ev_Environment = ag_Environment ag, ev_Destination = requestHost r,
             ev_Method = rq_Method r, ev_Decision = ''allow'', ev_PolicyID = de_PolicyID dec,
             ev_LatencyMs = an_latencyMs a, ev_BytesOut = an_copied a\<rparr>)))"

section \<open>ServeHTTP\<close>

text \<open>The agent of a request: by API key, else by bearer token; with the id that the log names.\<close>

definition authenticate :: "world \<Rightarrow> answers \<Rightarrow> Request \<Rightarrow> proxyHandler \<Rightarrow> string \<times> Agent option" where
  "authenticate W a r h =
    (let (agentID, apiKey, bearerToken) = extractProxyAuth r;
         ag = (if apiKey \<noteq> [] then LookupByKey (ph_reg h) apiKey else None) in
     if ag = None \<and> bearerToken \<noteq> [] \<and> length (ph_jwtSecret h) > 0 then
       (case VerifyJWT (wo_jwt W) (an_unix a) bearerToken (ph_jwtSecret h) of
         Inr claims \<Rightarrow> (cl_AgentID claims,
           Some \<lparr>ag_AgentID = cl_AgentID claims, ag_TeamID = cl_TeamID claims,
             ag_ProjectID = cl_ProjectID claims, ag_Environment = cl_Environment claims,
             ag_APIKey = [], ag_Status = ''active''\<rparr>)
       | Inl _ \<Rightarrow> (agentID, ag))
     else (agentID, ag))"

definition deny_event :: "answers \<Rightarrow> string \<Rightarrow> Agent \<Rightarrow> Request \<Rightarrow> string \<Rightarrow> Event" where
  "deny_event a reqID ag r policyID =
    \<lparr>ev_Timestamp = [], ev_RequestID = reqID, ev_AgentID = ag_AgentID ag, ev_TeamID = ag_TeamID ag,
     ev_ProjectID = ag_ProjectID ag, ev_Environment = ag_Environment ag,
     ev_Destination = requestHost r, ev_Method = rq_Method r, ev_Decision = ''deny'',
     ev_PolicyID = policyID, ev_LatencyMs = an_latencyMs a, ev_BytesOut = 0\<rparr>"

definition request_context :: "Agent \<Rightarrow> Request \<Rightarrow> RequestContext" where
  "request_context ag r =
    \<lparr>rc_AgentID = ag_AgentID ag, rc_Destination = requestHost r, rc_Method = rq_Method r,
     rc_Path = (case rq_URL r of Some u \<Rightarrow> ur_Path u | None \<Rightarrow> []),
     rc_Environment = ag_Environment ag, rc_TeamID = ag_TeamID ag, rc_ProjectID = ag_ProjectID ag\<rparr>"

definition ServeHTTP :: "world \<Rightarrow> answers \<Rightarrow> Request \<Rightarrow> handler" where
  "ServeHTTP W a r h =
    (let (reqID, sq) = newRequestID (an_unixMilli a) (ph_reqSeq h);
         h = h\<lparr>ph_reqSeq := sq\<rparr>;
         (agentID, ag) = authenticate W a r h in
     case ag of
       None \<Rightarrow>
         and_then
          (writeAudit W a \<lparr>ev_Timestamp = [], ev_RequestID = reqID, ev_AgentID = agentID,
             ev_TeamID = [], ev_ProjectID = [], ev_Environment = [],
             ev_Destination = requestHost r, ev_Method = rq_Method r, ev_Decision = ''deny'',
             ev_PolicyID = ''no-identity'', ev_LatencyMs = an_latencyMs a, ev_BytesOut = 0\<rparr>)
          (emit [SetHeader ''Proxy-Authenticate'' (''Basic realm='' @ [CHR 0x22] @ ''clawgress'' @ [CHR 0x22]),
             HttpError 407 (''407 Proxy Authentication Required '' @ emdash @ '' no valid identity'')]) h
     | Some ag \<Rightarrow>
        (let (qd, limr) = Check (ag_AgentID ag) (an_nanos a) (ph_lim h);
             h = h\<lparr>ph_lim := limr\<rparr> in
         if \<not> qd_Allowed qd then
           and_then (writeAudit W a (deny_event a reqID ag r ''quota-exceeded''))
             (emit [HttpError 429 (''429 Too Many Requests '' @ emdash @ '' '' @ qd_Reason qd)]) h
         else
           and_then
            (emit (if qd_Reason qd \<noteq> [] then
               [LogPrintf (''quota alert: agent='' @ ag_AgentID ag @ '' '' @ qd_Reason qd)] else []))
            (\<lambda>h. (let dec = EvaluateRich (wo_unicode W) (ph_eng h) (request_context ag r) in
              if de_Action dec \<noteq> ''allow'' then
                and_then (writeAudit W a (deny_event a reqID ag r (de_PolicyID dec)))
                  (emit [HttpError 403 (''403 Forbidden '' @ emdash @ '' '' @ de_Reason dec)]) h
              else if rq_Method r = ''CONNECT'' then handleConnect W a r ag reqID dec h
              else handleHTTP W a r ag reqID dec h)) h))"

text \<open>SIGHUP: the three tables are read again; a failed load is logged and leaves its table.\<close>

record reload_io =
  rl_agents :: "Agent list json"
  rl_rules :: "Rule list json"
  rl_limits :: "Limit list json"

definition reload :: "world \<Rightarrow> answers \<Rightarrow> reload_io \<Rightarrow> handler" where
  "reload W a R h =
    (let rd = ReadFile (wo_faults W) (ph_fs h);
         say = (\<lambda>m err. case err of None \<Rightarrow> [] | Some e \<Rightarrow> [LogPrintf (m @ e)]);
         (e1, reg) = RegistryLoad (rl_agents R) (rd (rg_path (ph_reg h))) (ph_reg h);
         (e2, eng) = EngineLoad (rl_rules R) (rd (en_path (ph_eng h))) (ph_eng h);
         (e3, limr) = LimiterLoad (rl_limits R) (rd (lm_path (ph_lim h))) (an_nanos a) (ph_lim h) in
     (LogPrintf ''SIGHUP: reloading identity, policy, and quotas'' #
        say ''reload identity: '' e1 @ say ''reload policy: '' e2 @ say ''reload quotas: '' e3,
      h\<lparr>ph_reg := reg, ph_eng := eng, ph_lim := limr\<rparr>))"

definition getenv :: "(string \<Rightarrow> string) \<Rightarrow> string \<Rightarrow> string \<Rightarrow> string" where
  "getenv env key fallback = (if env key \<noteq> [] then env key else fallback)"

text \<open>Start-up: any table that does not load, or an audit log that does not open, ends the program.\<close>

definition startGateway :: "world \<Rightarrow> answers \<Rightarrow> reload_io \<Rightarrow> (string \<Rightarrow> string) \<Rightarrow> fs \<Rightarrow> error + proxyHandler" where
  "startGateway W a R env fs =
    (let agentsFile = getenv env ''CLAWGRESS_AGENTS_FILE'' ''/etc/clawgress/agents.json'';
         policyFile = getenv env ''CLAWGRESS_POLICY_FILE'' ''/etc/clawgress/policy.json'';
         quotaFile = getenv env ''CLAWGRESS_QUOTA_FILE'' ''/etc/clawgress/quotas.json'';
         auditFile = getenv env ''CLAWGRESS_AUDIT_FILE'' ''/var/log/clawgress/audit.jsonl'';
         jwtSecret = getenv env ''CLAWGRESS_JWT_SECRET'' [];
         rd = ReadFile (wo_faults W) fs in
     case NewRegistry (rl_agents R) (rd agentsFile) agentsFile of
       Inl e \<Rightarrow> Inl (''load identity registry: '' @ e)
     | Inr reg \<Rightarrow>
     case NewEngine (rl_rules R) (rd policyFile) policyFile of
       Inl e \<Rightarrow> Inl (''load policy engine: '' @ e)
     | Inr eng \<Rightarrow>
     case NewLimiter (rl_limits R) (rd quotaFile) (an_nanos a) quotaFile of
       Inl e \<Rightarrow> Inl (''load quota limiter: '' @ e)
     | Inr limr \<Rightarrow>
     case NewLog (wo_faults W) auditFile fs of
       (Inl e, _) \<Rightarrow> Inl (''open audit log: '' @ e)
     | (Inr alog, fs) \<Rightarrow> Inr \<lparr>ph_reg = reg, ph_eng = eng, ph_lim = limr, ph_alog = alog,
         ph_jwtSecret = jwtSecret, ph_reqSeq = 0, ph_fs = fs\<rparr>)"

end
