(* ===== verification/Quota_Props.thy ===== *)
theory Quota_Props
  imports Quota
begin

text \<open>
  What the quota limiter promises: how many requests of an agent it can admit in a window of time,
  that it admits again after waiting, that agents do not affect each other, and what a reload does.
\<close>

section \<open>One check\<close>

text \<open>The part of a check that touches the agent's own record.\<close>

definition agent_check :: "int \<Rightarrow> Limit \<Rightarrow> agentBuckets \<Rightarrow> QDecision \<times> agentBuckets" where
  "agent_check now m ab =
    (let (ok1, rps) = take_token now (ab_rps ab);
         (ok2, rpm) = (if ok1 then take_token now (ab_rpm ab) else (True, ab_rpm ab)) in
     (\<lparr>qd_Allowed = (ok1 \<and> ok2 \<or> li_Mode m = ''alert_only''), qd_Mode = li_Mode m,
       qd_Reason = (if \<not> ok1 then ''RPS limit exceeded ('' @ fmt_f0 (li_RPS m) @ '' rps)''
         else if \<not> ok2 then ''RPM limit exceeded ('' @ fmt_f0 (li_RPM m) @ '' rpm)'' else [])\<rparr>,
      ab\<lparr>ab_rps := rps, ab_rpm := rpm\<rparr>))"

definition unlimited :: QDecision where
  "unlimited = \<lparr>qd_Allowed = True, qd_Mode = [], qd_Reason = []\<rparr>"

lemma Check_configured:
  assumes "mget (lm_limits l) a = Some m" and "mget (lm_buckets l) a = Some ab"
  shows "Check a now l = (fst (agent_check now m ab), put_buckets a (snd (agent_check now m ab)) l)"
  using assms by (auto simp: Check_def agent_check_def Let_def split: prod.splits)

lemma Check_unknown: "mget (lm_limits l) a = None \<Longrightarrow> Check a now l = (unlimited, l)"
  by (simp add: Check_def unlimited_def)

lemma Check_limits [simp]: "lm_limits (snd (Check a now l)) = lm_limits l"
  by (auto simp: Check_def put_buckets_def Let_def split: option.splits prod.splits)

lemma Check_other: "b \<noteq> a \<Longrightarrow> mget (lm_buckets (snd (Check a now l))) b = mget (lm_buckets l) b"
  by (auto simp: Check_def put_buckets_def Let_def split: option.splits prod.splits)

lemma Check_gomap_ok: "gomap_ok (lm_buckets l) \<Longrightarrow> gomap_ok (lm_buckets (snd (Check a now l)))"
  by (auto simp: Check_def put_buckets_def Let_def split: option.splits prod.splits)

lemma limit_ok_agent_check:
  "limit_ok t m ab \<Longrightarrow> t \<le> now \<Longrightarrow> limit_ok now m (snd (agent_check now m ab))"
  using slot_ok_take [of t "li_RPS m" "li_RPS m" "ab_rps ab" now]
    slot_ok_take [of t "li_RPM m" "fdiv (li_RPM m) 60" "ab_rpm ab" now]
    slot_ok_later [of t "li_RPM m" "fdiv (li_RPM m) 60" "ab_rpm ab" now]
  by (auto simp: agent_check_def limit_ok_def Let_def split: prod.splits if_splits)

lemma limit_ok_later: "limit_ok t m ab \<Longrightarrow> t \<le> now \<Longrightarrow> limit_ok now m ab"
  by (auto simp: limit_ok_def intro: slot_ok_later)

lemma limiter_ok_later: "limiter_ok t l \<Longrightarrow> t \<le> now \<Longrightarrow> limiter_ok now l"
  unfolding limiter_ok_def entry_ok_def using limit_ok_later by (fastforce split: option.splits)

lemma limiter_ok_Check:
  assumes ok: "limiter_ok t l" and le: "t \<le> now"
  shows "limiter_ok now (snd (Check a now l))"
proof (cases "mget (lm_limits l) a")
  case None
  then show ?thesis using limiter_ok_later [OF assms] by (simp add: Check_unknown)
next
  case (Some m)
  obtain ab where ab: "li_AgentID m = a" "li_Mode m \<noteq> []" "mget (lm_buckets l) a = Some ab" "limit_ok t m ab"
    using limiter_ok_cases [OF ok Some] by blast
  show ?thesis
  proof (rule limiter_okI [OF limiter_ok_later [OF assms], where i = a])
    show "gomap_ok (lm_limits (snd (Check a now l)))" using ok by (simp add: limiter_ok_def)
    show "gomap_ok (lm_buckets (snd (Check a now l)))"
      using ok by (intro Check_gomap_ok) (simp add: limiter_ok_def)
    show "entry_ok now a (mget (lm_limits (snd (Check a now l))) a) (mget (lm_buckets (snd (Check a now l))) a)"
      using ab limit_ok_agent_check [OF ab(4) le]
      by (simp add: entry_ok_def Some Check_configured put_buckets_def)
  qed (simp add: Check_other)
qed

text \<open>
  what one check does. An agent without a limit is admitted and nothing changes. For a configured
  agent the per-second bucket is asked first and the per-minute bucket only if the first admits; the
  first bucket that is empty names the reason. In mode \<open>alert_only\<close> the request is admitted
  whatever the buckets say; in any other mode it is admitted exactly when both admit. Every check
  keeps the invariant that all buckets hold between 0 and their capacity.
\<close>

theorem quota_check_step:
  assumes "limiter_ok t l" and "t \<le> now"
  shows "(case LimiterLookupByID l a of
       None \<Rightarrow> Check a now l = (\<lparr>qd_Allowed = True, qd_Mode = [], qd_Reason = []\<rparr>, l)
     | Some m \<Rightarrow> (\<exists>ab. mget (lm_buckets l) a = Some ab \<and>
         (let rps = fst (take_token now (ab_rps ab)); rpm = fst (take_token now (ab_rpm ab));
              d = fst (Check a now l) in
          qd_Allowed d = (li_Mode m = ''alert_only'' \<or> rps \<and> rpm) \<and> qd_Mode d = li_Mode m \<and>
          qd_Reason d = (if \<not> rps then ''RPS limit exceeded ('' @ fmt_f0 (li_RPS m) @ '' rps)''
            else if \<not> rpm then ''RPM limit exceeded ('' @ fmt_f0 (li_RPM m) @ '' rpm)'' else []) \<and>
          mget (lm_buckets (snd (Check a now l))) a =
            Some (ab\<lparr>ab_rps := snd (take_token now (ab_rps ab)),
              ab_rpm := (if rps then snd (take_token now (ab_rpm ab)) else ab_rpm ab)\<rparr>)))) \<and>
     limiter_ok now (snd (Check a now l))"
proof (cases "mget (lm_limits l) a")
  case None
  then show ?thesis
    using limiter_ok_Check [OF assms, of a] by (simp add: LimiterLookupByID_def Check_unknown unlimited_def)
next
  case (Some m)
  obtain ab where "mget (lm_buckets l) a = Some ab"
    using limiter_ok_cases [OF assms(1) Some] by blast
  with Some show ?thesis using limiter_ok_Check [OF assms, of a]
    by (auto simp: LimiterLookupByID_def Check_configured agent_check_def put_buckets_def Let_def split_beta)
qed

section \<open>Agents do not affect each other\<close>

text \<open>The run of one agent on its own record.\<close>

fun agent_run :: "Limit \<Rightarrow> int list \<Rightarrow> agentBuckets \<Rightarrow> QDecision list \<times> agentBuckets" where
  "agent_run m [] ab = ([], ab)"
| "agent_run m (t # ts) ab =
    (let (d, ab) = agent_check t m ab; (ds, ab) = agent_run m ts ab in (d # ds, ab))"

abbreviation calls_of :: "string \<Rightarrow> (string \<times> 'a) list \<Rightarrow> 'a list" where
  "calls_of a cs \<equiv> map snd (filter (\<lambda>c. fst c = a) cs)"

lemma CheckAll_unconfigured:
  "mget (lm_limits l) a = None \<Longrightarrow>
   calls_of a (fst (CheckAll cs l)) = map (\<lambda>_. unlimited) (calls_of a cs)"
proof (induction cs l rule: CheckAll.induct)
  case (2 b t cs l)
  from 2(1) [OF refl prod.collapse] 2(2) show ?case
    by (auto simp: Check_unknown split_beta)
qed simp

lemma CheckAll_configured:
  assumes "mget (lm_limits l) a = Some m" and "mget (lm_buckets l) a = Some ab"
  shows "calls_of a (fst (CheckAll cs l)) = fst (agent_run m (calls_of a cs) ab) \<and>
     mget (lm_buckets (snd (CheckAll cs l))) a = Some (snd (agent_run m (calls_of a cs) ab)) \<and>
     mget (lm_limits (snd (CheckAll cs l))) a = Some m"
  using assms
proof (induction cs arbitrary: l ab)
  case (Cons c cs)
  obtain b t where c: "c = (b, t)" by (cases c)
  show ?case
  proof (cases "b = a")
    case True
    let ?ab = "snd (agent_check t m ab)"
    have "mget (lm_buckets (snd (Check a t l))) a = Some ?ab" "mget (lm_limits (snd (Check a t l))) a = Some m"
      using Cons.prems by (simp_all add: Check_configured put_buckets_def)
    from Cons.IH [OF this(2,1)] True c Cons.prems show ?thesis
      by (simp add: split_beta Check_configured)
  next
    case False
    then have "mget (lm_buckets (snd (Check b t l))) a = Some ab" "mget (lm_limits (snd (Check b t l))) a = Some m"
      using Cons.prems by (simp_all add: Check_other)
    from Cons.IH [OF this(2,1)] False c show ?thesis by (simp add: split_beta)
  qed
qed simp

text \<open>
  the answers an agent gets in a run of checks by many agents are the ones it would get if the
  others were not there, at the same times: no agent can use up another agent's budget.
\<close>

theorem quota_agents_isolated:
  assumes "limiter_ok t l"
  shows "filter (\<lambda>c. fst c = a) (fst (CheckAll cs l)) =
     fst (CheckAll (filter (\<lambda>c. fst c = a) cs) l)"
proof -
  have own: "filter (\<lambda>c. fst c = a) (fst (CheckAll (filter (\<lambda>c. fst c = a) cs) l)) =
      fst (CheckAll (filter (\<lambda>c. fst c = a) cs) l)"
    by (induction cs arbitrary: l) (auto simp: split_beta)
  have same: "calls_of a (fst (CheckAll cs l)) = calls_of a (fst (CheckAll (filter (\<lambda>c. fst c = a) cs) l))"
  proof (cases "mget (lm_limits l) a")
    case None
    then show ?thesis by (simp add: CheckAll_unconfigured)
  next
    case (Some m)
    then obtain ab where "mget (lm_buckets l) a = Some ab" using limiter_ok_cases [OF assms] by blast
    from CheckAll_configured [OF Some this] show ?thesis by simp
  qed
  have pair: "filter (\<lambda>c. fst c = a) xs = map (Pair a) (calls_of a xs)" for xs :: "(string \<times> QDecision) list"
    by (induction xs) auto
  show ?thesis by (rule trans [OF _ own], subst (1 2) pair) (simp only: same)
qed

section \<open>How much is admitted\<close>

abbreviation ulp1 :: rat where "ulp1 \<equiv> 1 + 1 / 2 ^ 53"

text \<open>What a bucket of capacity \<open>cap\<close> and rate \<open>rate\<close> admits in \<open>n\<close> calls within \<open>T\<close> nanoseconds.\<close>

definition budget :: "rat \<Rightarrow> rat \<Rightarrow> nat \<Rightarrow> int \<Rightarrow> rat" where
  "budget cap rate n T = cap + rate * ulp1 ^ 4 * (of_int T / 10 ^ 9) + of_nat n * (cap / 2 ^ 53)"

lemma Seconds_le:
  assumes "0 \<le> d"
  shows "Seconds d \<le> ulp1 ^ 2 * (of_int d / 10 ^ 9)"
proof -
  let ?s = "of_int (d div 10 ^ 9) :: rat" and ?n = "of_int (d mod 10 ^ 9) :: rat"
  have sgn: "sgn d * (\<bar>d\<bar> div 10 ^ 9) = d div 10 ^ 9" "sgn d * (\<bar>d\<bar> mod 10 ^ 9) = d mod 10 ^ 9"
    using assms by (auto simp: sgn_if)
  have "\<bar>d mod 10 ^ 9\<bar> \<le> 2 ^ 53" using pos_mod_bound [of "10 ^ 9" d] pos_mod_sign [of "10 ^ 9" d] by simp
  then have n: "rnd64 ?n = ?n" by (simp add: is_f64_of_int)
  have nn: "0 \<le> ?s" "0 \<le> ?n" "0 \<le> ?n / 10 ^ 9" 
  proof -
    have "0 \<le> d div 10 ^ 9" by (rule pos_imp_zdiv_nonneg_iff [THEN iffD2]) (simp_all add: assms)
    moreover have "0 \<le> d mod 10 ^ 9" by (rule pos_mod_sign) simp
    ultimately show "0 \<le> ?s" "0 \<le> ?n" "0 \<le> ?n / 10 ^ 9" by (simp_all only: of_int_0_le_iff) simp
  qed
  have "rnd64 ?s + fdiv ?n (10 ^ 9) \<le> ulp1 * ?s + ulp1 * (?n / 10 ^ 9)"
    by (intro add_mono rnd64_le nn)
  then have "Seconds d \<le> ulp1 * (ulp1 * ?s + ulp1 * (?n / 10 ^ 9))"
    unfolding Seconds_def Let_def sgn n
    by (rule order_trans [OF rnd64_le mult_left_mono, rotated 1])
      (simp, intro add_nonneg_nonneg rnd64_nonneg nn)
  also have "\<dots> = ulp1 ^ 2 * (?s + ?n / 10 ^ 9)"
  proof -
    have "u * (u * a + u * b) = u ^ 2 * (a + b)" for u a b :: rat
      by (simp add: power2_eq_square algebra_simps)
    then show ?thesis .
  qed
  also have "?s + ?n / 10 ^ 9 = of_int d / 10 ^ 9"
  proof -
    have "(of_int d :: rat) = of_int (10 ^ 9 * (d div 10 ^ 9) + d mod 10 ^ 9)" by simp
    then have "(of_int d :: rat) = 10 ^ 9 * ?s + ?n" by (simp only: of_int_add of_int_mult of_int_power of_int_numeral)
    then show ?thesis by (simp add: field_simps)
  qed
  finally show ?thesis .
qed

text \<open>One call spends a token or not, and earns at most what the elapsed time is worth.\<close>

lemma allow_spend:
  assumes ok: "bucket_ok t b" and le: "t \<le> now" and cap: "bu_capacity b \<le> 2 ^ 53"
  shows "bu_tokens (snd (allow now b)) + of_bool (fst (allow now b)) \<le> bu_capacity b"
    "bu_tokens (snd (allow now b)) + of_bool (fst (allow now b)) \<le>
       bu_tokens b + bu_rate b * ulp1 ^ 4 * (of_int (now - bu_last b) / 10 ^ 9) + bu_capacity b / 2 ^ 53"
proof -
  let ?d = "time_Sub now (bu_last b)" let ?e = "Seconds ?d"
  let ?r = "fadd (bu_tokens b) (fmul ?e (bu_rate b))"
  let ?pre = "if ?r > bu_capacity b then bu_capacity b else ?r"
  have d: "0 \<le> ?d" "?d \<le> now - bu_last b" using ok le by (simp_all add: bucket_ok_def time_Sub_def)
  have b: "0 \<le> bu_tokens b" "0 \<le> bu_rate b" "bu_tokens b \<le> bu_capacity b" using ok by (simp_all add: bucket_ok_def)
  have e: "0 \<le> ?e" "?e \<le> ulp1 ^ 2 * (of_int (now - bu_last b) / 10 ^ 9)"

  proof -
    have "of_int ?d / 10 ^ 9 \<le> (of_int (now - bu_last b) :: rat) / 10 ^ 9"
      using d(2) by (intro divide_right_mono) (simp_all only: of_int_le_iff, simp)
    then have "ulp1 ^ 2 * (of_int ?d / 10 ^ 9) \<le> ulp1 ^ 2 * (of_int (now - bu_last b) / 10 ^ 9)"
      by (intro mult_left_mono) simp_all
    with Seconds_nonneg [OF d(1)] Seconds_le [OF d(1)]
    show "0 \<le> ?e" "?e \<le> ulp1 ^ 2 * (of_int (now - bu_last b) / 10 ^ 9)"
      by (blast intro: order_trans)+
  qed
  have er: "0 \<le> ?e * bu_rate b" using e b by simp
  have f64: "is_f64 ?pre" using ok by (simp add: bucket_ok_def)
  have spend: "bu_tokens (snd (allow now b)) + of_bool (fst (allow now b)) = ?pre"
    using fsub_one_exact [OF f64] cap by (auto simp: allow_def Let_def)
  then show "bu_tokens (snd (allow now b)) + of_bool (fst (allow now b)) \<le> bu_capacity b" by simp
  have "?r \<le> ulp1 * (bu_tokens b + fmul ?e (bu_rate b))"
    using b rnd64_nonneg [OF er] by (intro rnd64_le add_nonneg_nonneg)
  also have "\<dots> \<le> ulp1 * (bu_tokens b + ulp1 * (?e * bu_rate b))"
    by (intro mult_left_mono add_left_mono rnd64_le [OF er]) simp
  also have "\<dots> = bu_tokens b + bu_tokens b / 2 ^ 53 + ulp1 ^ 2 * ?e * bu_rate b"
    by (simp add: power2_eq_square distrib_left distrib_right)
  also have "ulp1 ^ 2 * ?e * bu_rate b \<le> ulp1 ^ 2 * (ulp1 ^ 2 * (of_int (now - bu_last b) / 10 ^ 9)) * bu_rate b"
    using e(2) b(2) by (intro mult_right_mono mult_left_mono) simp_all
  also have "\<dots> = bu_rate b * ulp1 ^ 4 * (of_int (now - bu_last b) / 10 ^ 9)" by (simp add: power_add [symmetric] power4_eq_xxxx power2_eq_square)
  finally have "?r \<le> bu_tokens b + bu_tokens b / 2 ^ 53 + bu_rate b * ulp1 ^ 4 * (of_int (now - bu_last b) / 10 ^ 9)"
    by simp
  moreover have "bu_tokens b / 2 ^ 53 \<le> bu_capacity b / 2 ^ 53" using b(3) by (intro divide_right_mono) simp_all
  moreover have "?pre \<le> ?r" by simp
  ultimately show "bu_tokens (snd (allow now b)) + of_bool (fst (allow now b)) \<le>
       bu_tokens b + bu_rate b * ulp1 ^ 4 * (of_int (now - bu_last b) / 10 ^ 9) + bu_capacity b / 2 ^ 53"
    unfolding spend by linarith
qed

text \<open>The number of calls at the times \<open>ts\<close> that find a token.\<close>

fun spent :: "int list \<Rightarrow> bucket \<Rightarrow> nat" where
  "spent [] b = 0"
| "spent (t # ts) b = (let (ok, b) = allow t b in of_bool ok + spent ts b)"

lemma spent_le:
  assumes "bucket_ok t0 b" and "sorted (t0 # ts)" and "\<forall>t \<in> set (t0 # ts). t \<le> T"
    and "bu_capacity b \<le> 2 ^ 53"
  shows "of_nat (spent ts b) \<le> bu_tokens b + bu_rate b * ulp1 ^ 4 * (of_int (T - bu_last b) / 10 ^ 9) +
     of_nat (length ts) * (bu_capacity b / 2 ^ 53)"
  using assms
proof (induction ts arbitrary: t0 b)
  case Nil
  then have "0 \<le> bu_rate b * ulp1 ^ 4 * (of_int (T - bu_last b) / 10 ^ 9)"
    by (intro mult_nonneg_nonneg divide_nonneg_nonneg) (auto simp: bucket_ok_def)
  with Nil show ?case by (simp add: bucket_ok_def)
next
  case (Cons t ts)
  let ?b = "snd (allow t b)"
  have le: "t0 \<le> t" using Cons.prems(2) by simp
  note ok = allow_ok [OF Cons.prems(1) le]
  have "of_nat (spent ts ?b) \<le> bu_tokens ?b + bu_rate b * ulp1 ^ 4 * (of_int (T - t) / 10 ^ 9) +
      of_nat (length ts) * (bu_capacity b / 2 ^ 53)"
    using Cons.IH [of t ?b] Cons.prems ok by simp
  moreover note allow_spend(2) [OF Cons.prems(1) le Cons.prems(4)]
  moreover have "(of_int (T - bu_last b) :: rat) / 10 ^ 9 = of_int (T - t) / 10 ^ 9 + of_int (t - bu_last b) / 10 ^ 9"
    by (simp add: add_divide_distrib [symmetric])
  then have "bu_rate b * ulp1 ^ 4 * (of_int (T - bu_last b) / 10 ^ 9) =
      bu_rate b * ulp1 ^ 4 * (of_int (T - t) / 10 ^ 9) + bu_rate b * ulp1 ^ 4 * (of_int (t - bu_last b) / 10 ^ 9)"
    by (simp only: distrib_left)
  moreover have "(of_nat (spent (t # ts) b) :: rat) = of_bool (fst (allow t b)) + of_nat (spent ts ?b)"
    by (simp add: split_beta)
  moreover have "of_nat (length (t # ts)) * (bu_capacity b / 2 ^ 53) =
      of_nat (length ts) * (bu_capacity b / 2 ^ 53) + bu_capacity b / 2 ^ 53"
    by (simp add: distrib_right)
  ultimately show ?case by linarith
qed

text \<open>In a window, whatever happened before it: the capacity, and what the window is worth.\<close>

lemma spent_window:
  assumes ok: "bucket_ok t0 b" and "sorted (t0 # ts)" and "\<forall>t \<in> set ts. T1 \<le> t \<and> t \<le> T2"
    and "T1 \<le> T2" and cap: "bu_capacity b \<le> 2 ^ 53"
  shows "of_nat (spent ts b) \<le> budget (bu_capacity b) (bu_rate b) (length ts) (T2 - T1)"
proof (cases ts)
  case Nil
  have "0 \<le> bu_rate b * ulp1 ^ 4 * (of_int (T2 - T1) / 10 ^ 9)" using ok assms(4)
    by (intro mult_nonneg_nonneg divide_nonneg_nonneg) (auto simp: bucket_ok_def)
  with Nil ok show ?thesis by (simp add: budget_def bucket_ok_def)
next
  case (Cons t ts')
  let ?b = "snd (allow t b)" let ?K = "bu_rate b * ulp1 ^ 4"
  have le: "t0 \<le> t" using assms(2) Cons by simp
  note ok' = allow_ok [OF ok le]
  have "of_nat (spent ts' ?b) \<le> bu_tokens ?b + ?K * (of_int (T2 - t) / 10 ^ 9) +
      of_nat (length ts') * (bu_capacity b / 2 ^ 53)"
    using spent_le [of t ?b ts' T2] ok' assms Cons by simp
  moreover note allow_spend(1) [OF ok le cap]
  moreover have "(of_nat (spent ts b) :: rat) = of_bool (fst (allow t b)) + of_nat (spent ts' ?b)"
    by (simp add: Cons split_beta)
  moreover have "?K * (of_int (T2 - t) / 10 ^ 9) \<le> ?K * (of_int (T2 - T1) / 10 ^ 9)"
    using ok assms(3) Cons by (intro mult_left_mono divide_right_mono) (auto simp: bucket_ok_def)
  moreover have "0 \<le> bu_capacity b / 2 ^ 53" using ok by (simp add: bucket_ok_def)
  moreover have "of_nat (length ts) * (bu_capacity b / 2 ^ 53) =
      of_nat (length ts') * (bu_capacity b / 2 ^ 53) + bu_capacity b / 2 ^ 53"
    by (simp add: Cons distrib_right)
  ultimately show ?thesis unfolding budget_def by linarith
qed

lemma budget_mono: "0 \<le> cap \<Longrightarrow> n \<le> k \<Longrightarrow> budget cap rate n T \<le> budget cap rate k T"
  unfolding budget_def by (intro add_left_mono mult_right_mono) simp_all

definition admitted :: "QDecision list \<Rightarrow> nat" where
  "admitted ds = length (filter qd_Allowed ds)"

lemma admitted_Cons [simp]: "admitted [] = 0" "admitted (d # ds) = of_bool (qd_Allowed d) + admitted ds"
  by (simp_all add: admitted_def)

lemma agent_run_rps:
  assumes "li_Mode m \<noteq> ''alert_only''" and "ab_rps ab = Some b"
  shows "admitted (fst (agent_run m ts ab)) \<le> spent ts b"
  using assms(2)
proof (induction ts arbitrary: ab b)
  case (Cons t ts)
  have "ab_rps (snd (agent_check t m ab)) = Some (snd (allow t b))"
    using Cons.prems by (auto simp: agent_check_def take_token_def split_beta Let_def)
  from Cons.IH [OF this] Cons.prems assms(1) show ?case
    by (auto simp: agent_check_def take_token_def split_beta Let_def)
qed simp

lemma agent_run_rpm:
  assumes "li_Mode m \<noteq> ''alert_only''" and "ab_rpm ab = Some b"
  shows "\<exists>us. subseq us ts \<and> admitted (fst (agent_run m ts ab)) \<le> spent us b"
  using assms(2)
proof (induction ts arbitrary: ab b)
  case (Cons t ts)
  show ?case
  proof (cases "fst (take_token t (ab_rps ab))")
    case True
    then have "ab_rpm (snd (agent_check t m ab)) = Some (snd (allow t b))"
      using Cons.prems by (auto simp: agent_check_def take_token_def split_beta Let_def)
    from Cons.IH [OF this] obtain us where us: "subseq us ts"
      "admitted (fst (agent_run m ts (snd (agent_check t m ab)))) \<le> spent us (snd (allow t b))" by blast
    moreover have "qd_Allowed (fst (agent_check t m ab)) = fst (allow t b)"
      using True Cons.prems assms(1) by (auto simp: agent_check_def take_token_def split_beta Let_def)
    ultimately have "admitted (fst (agent_run m (t # ts) ab)) \<le> spent (t # us) b"
      by (simp add: split_beta)
    with us(1) show ?thesis by (metis subseq_Cons2)
  next
    case False
    then have "ab_rpm (snd (agent_check t m ab)) = Some b"
      using Cons.prems by (auto simp: agent_check_def split_beta Let_def)
    from Cons.IH [OF this] obtain us where us: "subseq us ts"
      "admitted (fst (agent_run m ts (snd (agent_check t m ab)))) \<le> spent us b" by blast
    moreover have "\<not> qd_Allowed (fst (agent_check t m ab))"
      using False assms(1) by (auto simp: agent_check_def split_beta Let_def)
    ultimately have "admitted (fst (agent_run m (t # ts) ab)) \<le> spent us b"
      by (simp add: split_beta)
    with us(1) show ?thesis by (metis list_emb_Cons)
  qed
qed (auto intro: exI [of _ "[]"])

lemma sorted_calls_of: "sorted (t0 # map snd cs) \<Longrightarrow> sorted (t0 # calls_of a cs)"
  by (auto simp: sorted_filter)

lemma subseq_facts:
  "subseq us ts \<Longrightarrow> set us \<subseteq> set ts \<and> (sorted ts \<longrightarrow> sorted us)"
  by (induction us ts rule: list_emb.induct) auto

lemma sorted_subseq: "sorted (t0 # ts) \<Longrightarrow> subseq us ts \<Longrightarrow> sorted (t0 # us)"
  using subseq_facts by fastforce

lemma admission_bound:
  assumes "limiter_ok t0 l" and "LimiterLookupByID l a = Some m" and "li_Mode m \<noteq> ''alert_only''"
    and "sorted (t0 # map snd cs)" and "\<forall>t \<in> set (calls_of a cs). T1 \<le> t \<and> t \<le> T2" and "T1 \<le> T2"
    and "li_RPS m \<le> 2 ^ 53" and "li_RPM m \<le> 2 ^ 53"
  defines "n \<equiv> of_nat (admitted (calls_of a (fst (CheckAll cs l))))"
    and "calls \<equiv> length (calls_of a cs)"
  shows "(0 < li_RPS m \<longrightarrow> n \<le> budget (li_RPS m) (li_RPS m) calls (T2 - T1)) \<and>
     (0 < li_RPM m \<longrightarrow> n \<le> budget (li_RPM m) (fdiv (li_RPM m) 60) calls (T2 - T1))"
proof (intro conjI impI)
  have lm: "mget (lm_limits l) a = Some m" using assms(2) by (simp add: LimiterLookupByID_def)
  then obtain ab where ab: "mget (lm_buckets l) a = Some ab" "limit_ok t0 m ab"
    using limiter_ok_cases [OF assms(1)] by blast
  let ?ts = "calls_of a cs"
  note srt = sorted_calls_of [OF assms(4), of a]
  have n: "n = of_nat (admitted (fst (agent_run m ?ts ab)))"
    using CheckAll_configured [OF lm ab(1)] by (simp add: n_def)
  show "n \<le> budget (li_RPS m) (li_RPS m) calls (T2 - T1)" if pos: "0 < li_RPS m"
  proof -
    obtain b where b: "ab_rps ab = Some b" "bucket_ok t0 b" "bu_capacity b = li_RPS m" "bu_rate b = li_RPS m"
      using pos ab(2) by (auto simp: limit_ok_def slot_ok_def split: option.splits)
    have "n \<le> of_nat (spent ?ts b)" unfolding n using agent_run_rps [OF assms(3) b(1)] by simp
    also have "\<dots> \<le> budget (bu_capacity b) (bu_rate b) (length ?ts) (T2 - T1)"
      using spent_window [OF b(2) srt assms(5,6)] b(3) assms(7) by simp
    finally show ?thesis by (simp add: b calls_def)
  qed
  show "n \<le> budget (li_RPM m) (fdiv (li_RPM m) 60) calls (T2 - T1)" if pos: "0 < li_RPM m"
  proof -
    obtain b where b: "ab_rpm ab = Some b" "bucket_ok t0 b" "bu_capacity b = li_RPM m"
        "bu_rate b = fdiv (li_RPM m) 60"
      using pos ab(2) by (auto simp: limit_ok_def slot_ok_def split: option.splits)
    obtain us where us: "subseq us ?ts" "admitted (fst (agent_run m ?ts ab)) \<le> spent us b"
      using agent_run_rpm [OF assms(3) b(1)] by blast
    have "\<forall>t \<in> set us. T1 \<le> t \<and> t \<le> T2" using assms(5) subseq_facts [OF us(1)] by blast
    then have "of_nat (spent us b) \<le> budget (bu_capacity b) (bu_rate b) (length us) (T2 - T1)"
      using spent_window [OF b(2) sorted_subseq [OF srt us(1)] _ assms(6)] b(3) assms(8) by simp
    also have "\<dots> \<le> budget (bu_capacity b) (bu_rate b) (length ?ts) (T2 - T1)"
      using pos b(3) by (intro budget_mono list_emb_length [OF us(1)]) simp
    finally have "(of_nat (spent us b) :: rat) \<le> budget (li_RPM m) (fdiv (li_RPM m) 60) calls (T2 - T1)"
      by (simp add: b calls_def)
    moreover have "n \<le> of_nat (spent us b)" unfolding n using us(2) by simp
    ultimately show ?thesis by linarith
  qed
qed

text \<open>
  C6: the admission bound. For an agent with an enforcing mode, in every window between \<open>T1\<close> and
  \<open>T2\<close> that contains its checks, whatever other agents do and whatever happened before, the
  number of admitted requests is at most the capacity plus the rate times the length of the window,
  up to the rounding of the floating-point arithmetic: a factor of \<open>(1 + 2^-53)^4\<close> on the rate and
  \<open>2^-53\<close> of the capacity per request. This holds for the per-second limit and for the per-minute
  limit at the same time.
\<close>

theorem quota_admission_bound:
  assumes "limiter_ok t0 l" and "LimiterLookupByID l a = Some m" and "li_Mode m \<noteq> ''alert_only''"
    and "sorted (t0 # map snd cs)" and "\<forall>t \<in> set (calls_of a cs). T1 \<le> t \<and> t \<le> T2" and "T1 \<le> T2"
    and "li_RPS m \<le> 2 ^ 53" and "li_RPM m \<le> 2 ^ 53"
  defines "n \<equiv> of_nat (admitted (calls_of a (fst (CheckAll cs l))))"
    and "calls \<equiv> length (calls_of a cs)"
  shows "(0 < li_RPS m \<longrightarrow> n \<le> budget (li_RPS m) (li_RPS m) calls (T2 - T1)) \<and>
     (0 < li_RPM m \<longrightarrow> n \<le> budget (li_RPM m) (fdiv (li_RPM m) 60) calls (T2 - T1))"
  unfolding n_def calls_def by (rule admission_bound [OF assms(1-8)])

section \<open>Waiting helps, unless the limit is below one\<close>

lemma Seconds_at_least:
  assumes "k * 10 ^ 9 \<le> d" and "0 \<le> k" and "k \<le> 2 ^ 53"
  shows "of_int k \<le> Seconds d"
proof -
  have d: "0 \<le> d" using assms by (meson mult_nonneg_nonneg order_trans zero_le_numeral zero_le_power)
  then have sgn: "sgn d * (\<bar>d\<bar> div 10 ^ 9) = d div 10 ^ 9" "sgn d * (\<bar>d\<bar> mod 10 ^ 9) = d mod 10 ^ 9"
    by (auto simp: sgn_if)
  have "k \<le> d div 10 ^ 9" using zdiv_mono1 [OF assms(1), of "10 ^ 9"] by simp
  then have "(of_int k :: rat) \<le> of_int (d div 10 ^ 9)" unfolding of_int_le_iff .
  then have "rnd64 (of_int k) \<le> rnd64 (of_int (d div 10 ^ 9))" by (rule rnd64_mono)
  moreover have fk: "is_f64 (of_int k)" using assms(2,3) by (intro is_f64_of_int) simp
  moreover have "0 \<le> fdiv (rnd64 (of_int (d mod 10 ^ 9))) (10 ^ 9)"
    by (intro rnd64_nonneg divide_nonneg_nonneg) (simp_all add: pos_mod_sign)
  ultimately have "of_int k \<le> rnd64 (of_int (d div 10 ^ 9)) + fdiv (rnd64 (of_int (d mod 10 ^ 9))) (10 ^ 9)"
    by simp
  from rnd64_mono [OF this] show ?thesis unfolding Seconds_def Let_def sgn rnd64_f64 [OF fk] .
qed

lemma allow_after_wait:
  assumes "bucket_ok t b" and "1 \<le> bu_capacity b" and "1 \<le> Seconds (time_Sub now (bu_last b)) * bu_rate b"
  shows "fst (allow now b)"
proof -
  have "1 \<le> fmul (Seconds (time_Sub now (bu_last b))) (bu_rate b)" using rnd64_mono [OF assms(3)] by simp
  then have "1 \<le> bu_tokens b + fmul (Seconds (time_Sub now (bu_last b))) (bu_rate b)"
    using assms(1) by (simp add: bucket_ok_def)
  from rnd64_mono [OF this] show ?thesis using assms(2) by (simp add: allow_def Let_def)
qed

lemma limiter_ok_CheckAll:
  assumes "limiter_ok t0 l" and "sorted (t0 # map snd cs)" and "\<forall>t \<in> set (t0 # map snd cs). t \<le> T"
  shows "limiter_ok T (snd (CheckAll cs l))"
  using assms
proof (induction cs arbitrary: t0 l)
  case Nil
  then show ?case using limiter_ok_later by auto
next
  case (Cons c cs)
  obtain b t where c: "c = (b, t)" by (cases c)
  have "limiter_ok t (snd (Check b t l))" using Cons.prems c by (intro limiter_ok_Check) auto
  from Cons.IH [OF this] Cons.prems c show ?case by (simp add: split_beta)
qed

lemma CheckAll_limits [simp]: "lm_limits (snd (CheckAll cs l)) = lm_limits l"
  by (induction cs arbitrary: l) (auto simp: split_beta)

text \<open>
  C23: waiting always helps. However many requests an agent has sent until \<open>T\<close>, a request 61 seconds
  later is admitted, provided each of its limits is either off or at least one.
\<close>

theorem quota_recovers:
  assumes "limiter_ok t0 l" and "LimiterLookupByID l a = Some m"
    and "li_RPS m \<le> 0 \<or> 1 \<le> li_RPS m" and "li_RPM m \<le> 0 \<or> 1 \<le> li_RPM m"
    and "sorted (t0 # map snd cs)" and "\<forall>t \<in> set (t0 # map snd cs). t \<le> T"
    and "T + 61 * 10 ^ 9 \<le> now"
  shows "qd_Allowed (fst (Check a now (snd (CheckAll cs l))))"
proof -
  let ?l = "snd (CheckAll cs l)"
  have ok: "limiter_ok T ?l" by (rule limiter_ok_CheckAll [OF assms(1,5,6)])
  have m: "mget (lm_limits ?l) a = Some m" using assms(2) by (simp add: LimiterLookupByID_def)
  then obtain ab where ab: "mget (lm_buckets ?l) a = Some ab" "limit_ok T m ab"
    using limiter_ok_cases [OF ok] by blast
  have wait: "61 \<le> Seconds (time_Sub now (bu_last b))" if "bucket_ok T b" for b
    using Seconds_at_least [of 61 "time_Sub now (bu_last b)"] that assms(7)
    by (simp add: bucket_ok_def time_Sub_def)
  have pass: "fst (allow now b)" if "bucket_ok T b" "1 \<le> bu_capacity b" "1 / 61 \<le> bu_rate b" for b
  proof (rule allow_after_wait [OF that(1,2)])
    have "61 * (1 / 61) \<le> Seconds (time_Sub now (bu_last b)) * bu_rate b"
      using wait [OF that(1)] that(3) by (intro mult_mono) auto
    then show "1 \<le> Seconds (time_Sub now (bu_last b)) * bu_rate b" by simp
  qed
  have "(17 / 1024 :: rat) = of_int 17 * 2 powi (- 10)" by (simp add: power_int_def power_divide)
  then have "is_f64 (17 / 1024)" unfolding is_f64_def by (intro exI [of _ 17] exI [of _ "- 10"]) simp
  then have "17 / 1024 \<le> fdiv (li_RPM m) 60" if "1 \<le> li_RPM m"
    using that rnd64_mono [of "17 / 1024" "li_RPM m / 60"] by simp
  then have rate: "1 / 61 \<le> fdiv (li_RPM m) 60" if "1 \<le> li_RPM m" using that by fastforce
  have "fst (take_token now (ab_rps ab))" "fst (take_token now (ab_rpm ab))"
    using ab(2) assms(3,4) pass rate
    by (auto simp: limit_ok_def slot_ok_def take_token_def split_beta split: option.splits)
  then show ?thesis by (simp add: Check_configured [OF m ab(1)] agent_check_def split_beta Let_def)
qed

lemma spent_below_one: "bu_capacity b < 1 \<Longrightarrow> spent ts b = 0"
proof (induction ts arbitrary: b)
  case (Cons t ts)
  have "\<not> fst (allow t b)" "bu_capacity (snd (allow t b)) = bu_capacity b"
    using Cons.prems by (auto simp: allow_def Let_def)
  with Cons show ?case by (simp add: split_beta)
qed simp

text \<open>
  a limit between zero and one admits nothing. The capacity of a bucket is its rate, so a bucket
  for, say, half a request per second never holds a whole token: an agent with such a limit in an
  enforcing mode is refused every request forever, however long it waits.
\<close>

theorem quota_below_one_blocks:
  assumes "limiter_ok t0 l" and "LimiterLookupByID l a = Some m" and "li_Mode m \<noteq> ''alert_only''"
    and "0 < li_RPS m \<and> li_RPS m < 1 \<or> 0 < li_RPM m \<and> li_RPM m < 1"
    and "(a, d) \<in> set (fst (CheckAll cs l))"
  shows "\<not> qd_Allowed d"
proof -
  have lm: "mget (lm_limits l) a = Some m" using assms(2) by (simp add: LimiterLookupByID_def)
  then obtain ab where ab: "mget (lm_buckets l) a = Some ab" "limit_ok t0 m ab"
    using limiter_ok_cases [OF assms(1)] by blast
  have "admitted (fst (agent_run m (calls_of a cs) ab)) = 0"
  proof (cases "0 < li_RPS m \<and> li_RPS m < 1")
    case True
    then obtain b where "ab_rps ab = Some b" "bu_capacity b < 1"
      using ab(2) by (auto simp: limit_ok_def slot_ok_def split: option.splits)
    then show ?thesis using agent_run_rps [OF assms(3), of ab b "calls_of a cs"] spent_below_one by simp
  next
    case False
    then obtain b where "ab_rpm ab = Some b" "bu_capacity b < 1"
      using ab(2) assms(4) by (auto simp: limit_ok_def slot_ok_def split: option.splits)
    then show ?thesis using agent_run_rpm [OF assms(3), of ab b "calls_of a cs"] spent_below_one by force
  qed
  then have none: "admitted (calls_of a (fst (CheckAll cs l))) = 0"
    using CheckAll_configured [OF lm ab(1)] by simp
  have "d \<in> set (calls_of a (fst (CheckAll cs l)))" using assms(5) by force
  then show ?thesis using none by (auto simp: admitted_def filter_empty_conv)
qed

section \<open>A reload\<close>

lemma mem_LimiterAll:
  assumes "limiter_ok t l"
  shows "m \<in> set (LimiterAll l) \<longleftrightarrow> LimiterLookupByID l (li_AgentID m) = Some m"
proof
  assume "m \<in> set (LimiterAll l)"
  then obtain i where "(i, m) \<in> set (lm_limits l)" by (auto simp: LimiterAll_def)
  then have "mget (lm_limits l) i = Some m"
    using assms by (simp add: limiter_ok_def gomap_ok_mem_iff)
  then show "LimiterLookupByID l (li_AgentID m) = Some m"
    using limiter_ok_cases [OF assms] by (metis LimiterLookupByID_def)
next
  assume "LimiterLookupByID l (li_AgentID m) = Some m"
  then have "(li_AgentID m, m) \<in> set (lm_limits l)" by (simp add: LimiterLookupByID_def map_of_SomeD)
  then show "m \<in> set (LimiterAll l)" unfolding LimiterAll_def by force
qed

lemma distinct_LimiterAll:
  assumes "limiter_ok t l"
  shows "distinct (map li_AgentID (LimiterAll l))"
proof -
  have g: "gomap_ok (lm_limits l)" using assms by (simp add: limiter_ok_def)
  have "\<forall>p \<in> set (lm_limits l). li_AgentID (snd p) = fst p"
    using limiter_ok_cases [OF assms] gomap_ok_mem_iff [OF g] by (metis prod.collapse)
  then have "map li_AgentID (LimiterAll l) = map fst (lm_limits l)" by (simp add: LimiterAll_def)
  then show ?thesis using g by (simp add: gomap_ok_def)
qed

lemma fold_Set_buckets:
  "\<forall>i. mget (lm_buckets l) i = map_option (new_buckets now) (mget (lm_limits l) i) \<Longrightarrow>
   mget (lm_buckets (fold (LimiterSet now) ms l)) i =
     map_option (new_buckets now) (mget (lm_limits (fold (LimiterSet now) ms l)) i)"
proof (induction ms arbitrary: l)
  case (Cons m ms)
  have "\<forall>i. mget (lm_buckets (LimiterSet now m l)) i =
      map_option (new_buckets now) (mget (lm_limits (LimiterSet now m l)) i)"
    using Cons.prems by (simp add: LimiterSet_def Let_def)
  from Cons.IH [OF this] show ?case by simp
qed simp

text \<open>
  a save and a reload restore every limit exactly, and forget what was spent: after the reload
  all buckets are full again, whatever state the limiter was in when it was saved. (The gateway
  reloads on every SIGHUP, so each reload grants every agent a fresh burst.)
\<close>

theorem quota_reload_refills:
  fixes now :: int
  assumes "limiter_ok t l" and "LimiterSave J F l fs = (None, fs')"
    and "json_roundtrip J (LimiterAll l)" and "f_read G (lm_path l) = None"
    and "lm_path g = lm_path l"
  defines "r \<equiv> LimiterLoad J (ReadFile G fs' (lm_path g)) now g"
  shows "fst r = None \<and> LimiterLookupByID (snd r) i = LimiterLookupByID l i \<and>
     mget (lm_buckets (snd r)) i = map_option (new_buckets now) (LimiterLookupByID l i)"
proof -
  obtain d where d: "marshal J (LimiterAll l) = Inr d" "ReadFile G fs' (lm_path l) = RData d"
    using quota_file.ok_readable assms(2,4) by blast
  let ?e = "g\<lparr>lm_limits := [], lm_buckets := []\<rparr>"
  have "unmarshal J d = Inr (LimiterAll l)" using assms(3) d(1) by (simp add: json_roundtrip_def)
  then have r: "r = (None, fold (LimiterSet now) (LimiterAll l) ?e)"
    using d(2) assms(5) load_is_fold_set by (simp add: r_def)
  have te: "tables_ok ?e" by (simp add: tables_ok_def)
  have look: "LimiterLookupByID (fold (LimiterSet now) (LimiterAll l) ?e) i = LimiterLookupByID l i"
  proof (cases "LimiterLookupByID l i")
    case (Some m)
    then have im: "li_AgentID m = i" "li_Mode m \<noteq> []"
      using limiter_ok_cases [OF assms(1)] by (auto simp: LimiterLookupByID_def)
    then have "m \<in> set (LimiterAll l)" using Some mem_LimiterAll [OF assms(1)] by simp
    with quota_store.lookup_fold_add_distinct [OF te distinct_LimiterAll [OF assms(1)] this] im Some
    show ?thesis by (simp add: with_mode_id)
  next
    case None
    then have "find (\<lambda>m. li_AgentID m = i) (rev (LimiterAll l)) = None"
      using mem_LimiterAll [OF assms(1)] by (auto simp: find_None_iff)
    with None show ?thesis
      using quota_store.lookup_fold_add [OF te, of now "LimiterAll l" i]
      by (simp add: LimiterLookupByID_def)
  qed
  have "mget (lm_buckets (fold (LimiterSet now) (LimiterAll l) ?e)) i =
      map_option (new_buckets now) (LimiterLookupByID (fold (LimiterSet now) (LimiterAll l) ?e) i)"
    unfolding LimiterLookupByID_def by (rule fold_Set_buckets) simp
  with look show ?thesis by (simp add: r)
qed

section \<open>Concrete runs\<close>

definition no_limits :: Limiter where
  "no_limits = \<lparr>lm_limits = [], lm_buckets = [], lm_path = ''quotas.json''\<rparr>"

definition demo_limit :: "rat \<Rightarrow> Limit" where
  "demo_limit rps = \<lparr>li_AgentID = ''a'', li_RPS = rps, li_RPM = 0, li_Mode = []\<rparr>"

definition two_rps :: Limiter where
  "two_rps = LimiterSet 0 (demo_limit 2) no_limits"

lemma limiter_ok_no_limits: "limiter_ok now no_limits"
  by (simp add: limiter_ok_def entry_ok_def no_limits_def)

lemma limiter_ok_demo: "is_f64 r \<Longrightarrow> limiter_ok 0 (LimiterSet 0 (demo_limit r) no_limits)"
  by (rule limiter_ok_Set [OF limiter_ok_no_limits]) (simp add: f64_limit_def demo_limit_def)

lemma limiter_ok_two_rps: "limiter_ok 0 two_rps"
  unfolding two_rps_def by (rule limiter_ok_demo) (simp add: is_f64_numeral)

lemma demo_lookup:
  "LimiterLookupByID (LimiterSet 0 (demo_limit r) no_limits) ''a'' = Some (demo_limit r\<lparr>li_Mode := ''hard_stop''\<rparr>)"
  by (simp add: LimiterLookupByID_def LimiterSet_def with_mode_def demo_limit_def no_limits_def Let_def)

theorem quota_check_step_witness:
  "qd_Mode (fst (Check ''a'' 5 two_rps)) = ''hard_stop'' \<and> limiter_ok 5 (snd (Check ''a'' 5 two_rps))"
  using quota_check_step [OF limiter_ok_two_rps, of 5 "''a''"]
  by (auto simp: two_rps_def demo_lookup Let_def)

theorem quota_agents_isolated_witness:
  "filter (\<lambda>c. fst c = ''a'') (fst (CheckAll [(''b'', 0), (''a'', 0), (''b'', 1), (''a'', 1)] two_rps)) =
     fst (CheckAll [(''a'', 0), (''a'', 1)] two_rps)"
  using quota_agents_isolated [OF limiter_ok_two_rps,
    of "''a''" "[(''b'', 0), (''a'', 0), (''b'', 1), (''a'', 1)]"] by simp

theorem quota_admission_bound_witness:
  "admitted (calls_of ''a'' (fst (CheckAll [(''a'', 0), (''a'', 0), (''b'', 0), (''a'', 0)] two_rps))) \<le> 2"
proof -
  let ?cs = "[(''a'', 0), (''a'', 0), (''b'', 0), (''a'', 0)] :: (string \<times> int) list"
  let ?n = "admitted (calls_of ''a'' (fst (CheckAll ?cs two_rps)))"
  have "(of_nat ?n :: rat) \<le> budget 2 2 (length (calls_of ''a'' ?cs)) (0 - 0)"
    using quota_admission_bound [OF limiter_ok_two_rps demo_lookup [of 2, folded two_rps_def],
      of ?cs 0 0] by (simp add: demo_limit_def)
  then have "(of_nat ?n :: rat) < of_nat 3" by (simp add: budget_def)
  then have "?n < 3" by (simp only: of_nat_less_iff)
  then show ?thesis by linarith
qed

theorem quota_recovers_witness:
  "qd_Allowed (fst (Check ''a'' (61 * 10 ^ 9) (snd (CheckAll (replicate 100 (''a'', 0)) two_rps))))"
  by (rule quota_recovers [OF limiter_ok_two_rps demo_lookup [of 2, folded two_rps_def], where T = 0])
    (simp_all add: demo_limit_def map_replicate_const sorted_replicate)

theorem quota_below_one_blocks_witness:
  "\<not> qd_Allowed (fst (Check ''a'' (10 ^ 18) (LimiterSet 0 (demo_limit (1 / 2)) no_limits)))"
  by (rule quota_below_one_blocks [OF limiter_ok_demo demo_lookup, where cs = "[(''a'', 10 ^ 18)]"])
    (simp_all add: demo_limit_def split_beta)

definition one_limit_json :: "Limit list json" where
  "one_limit_json = \<lparr>marshal = (\<lambda>_. Inr ''Q''), unmarshal = (\<lambda>_. Inr (LimiterAll two_rps))\<rparr>"

theorem quota_reload_refills_witness:
  defines "spent_all \<equiv> snd (CheckAll [(''a'', 0), (''a'', 0)] two_rps)"
  shows "LimiterLookupByID (snd (LimiterLoad one_limit_json (ReadFile no_faults
     (snd (LimiterSave one_limit_json no_faults spent_all (\<lambda>_. None))) ''quotas.json'') 7 no_limits)) ''a'' =
     LimiterLookupByID two_rps ''a''"
proof -
  have ok: "limiter_ok 0 spent_all"
    unfolding spent_all_def by (rule limiter_ok_CheckAll [OF limiter_ok_two_rps]) simp_all
  have sv: "LimiterSave one_limit_json no_faults spent_all (\<lambda>_. None) =
      (None, snd (LimiterSave one_limit_json no_faults spent_all (\<lambda>_. None)))"
    by (simp add: LimiterSave_def one_limit_json_def write_rename_no_faults)
  have p: "lm_path spent_all = ''quotas.json''" by (simp add: spent_all_def) code_simp
  have rt: "json_roundtrip one_limit_json (LimiterAll spent_all)"
    
    by (simp add: json_roundtrip_def one_limit_json_def spent_all_def LimiterAll_def del: CheckAll.simps)
  have pe: "lm_path no_limits = lm_path spent_all" "lm_path no_limits = ''quotas.json''"
    by (simp_all add: p no_limits_def)
  show ?thesis
    using quota_reload_refills [OF ok sv rt no_faults_simps(1) pe(1), of 7 "''a''"]
    by (simp add: pe(2) LimiterLookupByID_def spent_all_def del: CheckAll.simps)
qed

end
