(* ===== verification/Audit_Props.thy ===== *)
theory Audit_Props
  imports Audit_Log
begin

text \<open>
  The audit log as a record of what happened: what is written is what a query finds, what a damaged
  line costs, and the one line that hides everything after it.
\<close>

section \<open>Writing and querying\<close>

definition stamped :: "string \<Rightarrow> Event \<Rightarrow> Event" where
  "stamped now e = (if ev_Timestamp e = [] then e\<lparr>ev_Timestamp := now\<rparr> else e)"

text \<open>
  What \<open>encoding/json\<close> documents of \<open>Marshal\<close> on a record of strings and integers: it succeeds, the
  output is not empty and has no control characters, and decoding gives the record back; and the
  record is short enough for one line of the scanner.
\<close>

definition line_ok :: "Event json \<Rightarrow> Event \<Rightarrow> bool" where
  "line_ok J e \<longleftrightarrow> (case marshal J e of Inl _ \<Rightarrow> False
     | Inr d \<Rightarrow> unmarshal J d = Inr e \<and> d \<noteq> [] \<and> newline \<notin> set d \<and> creturn \<notin> set d \<and> fits d)"

fun write_all :: "Event json \<Rightarrow> faults \<Rightarrow> (string \<times> Event) list \<Rightarrow> Log \<Rightarrow> fs \<Rightarrow> fs" where
  "write_all J F [] l fs = fs"
| "write_all J F ((now, e) # es) l fs = write_all J F es l (snd (AuditWrite J F now e l fs))"

definition log_ok :: "Log \<Rightarrow> fs \<Rightarrow> bool" where
  "log_ok l fs \<longleftrightarrow> (\<exists>c. fs (lg_path l) = Some c \<and> ends_line c \<and> ScanErr c = None)"

definition logged :: "Event json \<Rightarrow> Log \<Rightarrow> fs \<Rightarrow> Event list" where
  "logged J l fs = (case fs (lg_path l) of None \<Rightarrow> [] | Some c \<Rightarrow> events_in J c)"

lemma AuditWrite_appends:
  assumes "log_ok l fs" and "lg_open l" and "f_append F (lg_path l) = None" and "line_ok J (stamped now e)"
  shows "log_ok l (snd (AuditWrite J F now e l fs)) \<and>
     fst (AuditWrite J F now e l fs) = None \<and>
     logged J l (snd (AuditWrite J F now e l fs)) = logged J l fs @ [stamped now e]"
proof -
  obtain c where c: "fs (lg_path l) = Some c" "ends_line c" "ScanErr c = None"
    using assms(1) by (auto simp: log_ok_def)
  obtain d where d: "marshal J (stamped now e) = Inr d" "unmarshal J d = Inr (stamped now e)" "d \<noteq> []"
      "newline \<notin> set d" "creturn \<notin> set d" "fits d"
    using assms(4) by (auto simp: line_ok_def split: sum.splits)
  have w: "AuditWrite J F now e l fs = (None, fs(lg_path l \<mapsto> c @ d @ [newline]))"
    using d(1) c(1) assms(2,3) by (simp add: AuditWrite_def AppendFile_def stamped_def [symmetric])
  have "events_in J (d @ [newline]) = [stamped now e]"
    using d by (auto simp: events_in_def ScanLines_line decode_line_def)
  with c w d show ?thesis
    by (simp add: log_ok_def logged_def events_in_append ends_line_append ScanErr_append ScanErr_line)
qed

lemma write_all_appends:
  assumes "log_ok l fs" and "lg_open l" and "f_append F (lg_path l) = None"
    and "\<forall>(now, e) \<in> set es. line_ok J (stamped now e)"
  shows "log_ok l (write_all J F es l fs) \<and>
     logged J l (write_all J F es l fs) = logged J l fs @ map (\<lambda>(now, e). stamped now e) es"
  using assms
proof (induction es arbitrary: fs)
  case (Cons p es)
  obtain now e where p: "p = (now, e)" by (cases p)
  note w = AuditWrite_appends [OF Cons.prems(1-3), of J now e]
  from Cons.IH [of "snd (AuditWrite J F now e l fs)"] w Cons.prems p show ?case by simp
qed simp

text \<open>
  C19: what is written is what a query finds. Starting from a readable log, after any sequence of
  writes a query returns, in the order of writing and after the matching events that were there
  before, exactly the written events that match the filter, each with its timestamp or the time of
  its write, cut to the last \<open>Limit\<close>; and it reports no error.
\<close>

theorem audit_write_then_query:
  assumes "log_ok l fs" and "lg_open l" and "f_append F (lg_path l) = None"
    and "\<forall>(now, e) \<in> set es. line_ok J (stamped now e)" and "f_read G (lg_path l) = None"
  shows "Query J T G (write_all J F es l fs) (lg_path l) f =
     (tail_limit (ft_Limit f)
        (filter (matching T f) (logged J l fs @ map (\<lambda>(now, e). stamped now e) es)), None)"
proof -
  note w = write_all_appends [OF assms(1-4)]
  then obtain c where c: "write_all J F es l fs (lg_path l) = Some c" "ScanErr c = None"
    by (auto simp: log_ok_def)
  with w show ?thesis
    by (simp add: Query_events [where fs = "write_all J F es l fs", OF assms(5) c(1)] logged_def)
qed

section \<open>Damaged lines\<close>

text \<open>
  a torn record takes the next one with it, and nothing else. If a write fails after a part of
  its line (without the newline) reached the file, the next successful write continues the same
  line; when the two halves together are not valid JSON, a query finds everything that was written
  before and after, and neither of the two events.
\<close>

theorem audit_torn_record:
  assumes "ends_line c" and "ScanErr c = None" and "newline \<notin> set part" and "newline \<notin> set d"
    and "fits (part @ d)" and "unmarshal J (dropCR (part @ d)) = Inl err"
    and "f_read G path = None" and "fs path = Some (c @ part @ d @ newline # rest)"
    and "gs path = Some (c @ rest)"
  shows "Query J T G fs path f = Query J T G gs path f"
proof -
  let ?l = "part @ d"
  have eq: "c @ part @ d @ newline # rest = (c @ (?l @ [newline])) @ rest" by simp
  have nl: "newline \<notin> set ?l" using assms(3,4) by simp
  have e: "ends_line (c @ (?l @ [newline]))" by (simp add: ends_line_def)
  have s: "ScanErr (c @ (?l @ [newline])) = None"
    using ScanErr_append [OF assms(1), of "?l @ [newline]"] assms(2,5) ScanErr_line [OF nl] by simp
  have none: "events_in J (?l @ [newline]) = []"
    unfolding events_in_def ScanLines_line [OF nl assms(5)] using assms(6) by (simp add: decode_line_def)
  have "events_in J (c @ part @ d @ newline # rest) = events_in J (c @ rest)"
    unfolding eq events_in_append [OF e s] events_in_append [OF assms(1,2)] using none by simp
  moreover have "ScanErr (c @ part @ d @ newline # rest) = ScanErr (c @ rest)"
    
    unfolding eq ScanErr_append [OF e] ScanErr_append [OF assms(1), of rest] s assms(2) by simp
  ultimately show ?thesis
    
    by (simp only: Query_events [where fs = fs, OF assms(7,8)] Query_events [where fs = gs, OF assms(7,9)])
qed

text \<open>
  A line of 256 KiB hides everything after it: every query, with any filter, returns only events from
  before that line, together with an error, and no later write can change that.
\<close>

lemma long_line_hides_rest:
  assumes "ends_line c" and "ScanErr c = None" and "newline \<notin> set l" and "262144 \<le> length l"
    and "f_read G path = None" and "fs path = Some (c @ l @ newline # rest)"
  shows "Query J T G fs path f =
     (tail_limit (ft_Limit f) (filter (matching T f) (events_in J c)),
      Some ''bufio.Scanner: token too long'')"
proof -
  have nf: "\<not> fits l" using assms(4) by (simp add: fits_def max_token_def)
  have eq: "c @ l @ newline # rest = c @ ((l @ [newline]) @ rest)" by simp
  have "split_lines ((l @ [newline]) @ rest) = l # split_lines rest"
    using split_lines_append [of "l @ [newline]" rest] split_lines_line [OF assms(3)] by simp
  then have "ScanLines ((l @ [newline]) @ rest) = []"
    "ScanErr ((l @ [newline]) @ rest) = Some ''bufio.Scanner: token too long''"
    using nf by (simp_all add: ScanLines_def ScanErr_def)
  then have "events_in J (c @ l @ newline # rest) = events_in J c"
    "ScanErr (c @ l @ newline # rest) = Some ''bufio.Scanner: token too long''"
    unfolding eq events_in_append [OF assms(1,2)] ScanErr_append [OF assms(1)]
    using assms(2) by (simp_all add: events_in_def)
  then show ?thesis by (simp add: Query_events [where fs = fs, OF assms(5,6)])
qed

section \<open>Concrete logs\<close>

definition demo_event :: "string \<Rightarrow> Event" where
  "demo_event a = \<lparr>ev_Timestamp = ''t'', ev_RequestID = ''r'', ev_AgentID = a, ev_TeamID = [],
     ev_ProjectID = [], ev_Environment = [], ev_Destination = ''x.com'', ev_Method = ''GET'',
     ev_Decision = ''deny'', ev_PolicyID = ''p'', ev_LatencyMs = 0, ev_BytesOut = 0\<rparr>"

definition demo_event_json :: "Event json" where
  "demo_event_json = \<lparr>marshal = (\<lambda>e. Inr (CHR ''E'' # ev_AgentID e)),
     unmarshal = (\<lambda>s. if length s = 2 \<and> hd s = CHR ''E'' then Inr (demo_event (tl s)) else Inl ''bad'')\<rparr>"

definition demo_log :: Log where
  "demo_log = \<lparr>lg_path = ''audit.jsonl'', lg_open = True\<rparr>"

definition all_events :: Filter where
  "all_events = \<lparr>ft_AgentID = [], ft_Decision = [], ft_Since = [], ft_Limit = 0\<rparr>"

definition no_times :: time_parse where
  "no_times = \<lparr>tp_RFC3339 = (\<lambda>_. None), tp_RFC3339Nano = (\<lambda>_. None)\<rparr>"

theorem audit_write_then_query_witness:
  "Query demo_event_json no_times no_faults
     (write_all demo_event_json no_faults [(''t'', demo_event ''a''), (''t'', demo_event ''b'')]
        demo_log [''audit.jsonl'' \<mapsto> []]) ''audit.jsonl'' (all_events\<lparr>ft_AgentID := ''b''\<rparr>) =
     ([demo_event ''b''], None)"
proof -
  have ok: "log_ok demo_log [''audit.jsonl'' \<mapsto> []]"
    by (simp add: log_ok_def demo_log_def ends_line_def ScanErr_def)
  have lines: "\<forall>(now, e) \<in> set [(''t'', demo_event ''a''), (''t'', demo_event ''b'')].
      line_ok demo_event_json (stamped now e)"
    by (simp add: line_ok_def stamped_def demo_event_def demo_event_json_def newline_def creturn_def
        fits_def max_token_def)
  have p: "lg_path demo_log = ''audit.jsonl''" "lg_open demo_log" by (simp_all add: demo_log_def)
  note q = audit_write_then_query [OF ok p(2) no_faults_simps(3) lines no_faults_simps(1),
    of no_times "all_events\<lparr>ft_AgentID := ''b''\<rparr>", unfolded p]
  show ?thesis unfolding q
    by (simp add: logged_def p events_in_def ScanLines_def stamped_def matching_def demo_event_def
        all_events_def since_time_def tail_limit_def)
qed

theorem audit_torn_record_witness:
  "Query demo_event_json no_times no_faults [''f'' \<mapsto> ''E'' @ ''Eb'' @ [newline] @ ''Ec'' @ [newline]] ''f'' all_events =
   Query demo_event_json no_times no_faults [''f'' \<mapsto> ''Ec'' @ [newline]] ''f'' all_events"
  by (rule audit_torn_record [where c = "[]" and part = "''E''" and d = "''Eb''"])
    (simp_all add: ends_line_def ScanErr_def newline_def creturn_def fits_def max_token_def dropCR_def
      demo_event_json_def no_faults_simps)

end
