(* ===== verification/Gateway_Props.thy ===== *)
theory Gateway_Props
  imports Gateway Policy_Props Identity_Props Quota_Props Audit_Props
begin

text \<open>
  What the proxy guarantees for every request: who is let through, what is recorded and in which
  order, what reaches the upstream, and how the guarantees of the identity, quota, policy and audit
  components combine over a run of requests.
\<close>

section \<open>Reading the effects\<close>

fun target :: "effect \<Rightarrow> string option" where
  "target (DialTCP h) = Some h"
| "target (DoRequest r) = Some (case rq_URL r of Some u \<Rightarrow> ur_Host u | None \<Rightarrow> [])"
| "target _ = None"

definition upstreams :: "effect list \<Rightarrow> string list" where
  "upstreams es = List.map_filter target es"

fun audited :: "effect \<Rightarrow> Event option" where
  "audited (AuditEvent e) = Some e"
| "audited _ = None"

definition audits :: "effect list \<Rightarrow> Event list" where
  "audits es = List.map_filter audited es"

fun status :: "effect \<Rightarrow> int option" where
  "status (HttpError c m) = Some c"
| "status (WriteHeader c) = Some c"
| "status _ = None"

definition statuses :: "effect list \<Rightarrow> int list" where
  "statuses es = List.map_filter status es"

lemma map_filter_append: "List.map_filter f (xs @ ys) = List.map_filter f xs @ List.map_filter f ys"
  by (induction xs) (simp_all add: List.map_filter_simps split: option.splits)

lemmas read_simps = upstreams_def audits_def statuses_def map_filter_append List.map_filter_simps

lemma no_effect_of_headers [simp]:
  "List.map_filter target (concat (map (\<lambda>(k, vv). map (AddHeader k) vv) hs)) = []"
  "List.map_filter audited (concat (map (\<lambda>(k, vv). map (AddHeader k) vv) hs)) = []"
  "List.map_filter status (concat (map (\<lambda>(k, vv). map (AddHeader k) vv) hs)) = []"
proof -
  have "List.map_filter target (map (AddHeader k) vv) = []" "List.map_filter audited (map (AddHeader k) vv) = []"
    "List.map_filter status (map (AddHeader k) vv) = []" for k vv
    by (induction vv) (simp_all add: List.map_filter_simps)
  then show "List.map_filter target (concat (map (\<lambda>(k, vv). map (AddHeader k) vv) hs)) = []"
    "List.map_filter audited (concat (map (\<lambda>(k, vv). map (AddHeader k) vv) hs)) = []"
    "List.map_filter status (concat (map (\<lambda>(k, vv). map (AddHeader k) vv) hs)) = []"
    by (induction hs) (auto simp: List.map_filter_simps map_filter_append)
qed

lemma writeAudit_reads [simp]:
  "upstreams (fst (writeAudit W a e h)) = []" "audits (fst (writeAudit W a e h)) = [e]"
  "statuses (fst (writeAudit W a e h)) = []"
  by (auto simp: writeAudit_def read_simps split_beta split: option.splits)

lemma and_then_reads [simp]:
  "upstreams (fst (and_then p q h)) = upstreams (fst (p h)) @ upstreams (fst (q (snd (p h))))"
  "audits (fst (and_then p q h)) = audits (fst (p h)) @ audits (fst (q (snd (p h))))"
  "statuses (fst (and_then p q h)) = statuses (fst (p h)) @ statuses (fst (q (snd (p h))))"
  by (simp_all add: and_then_def read_simps split_beta)

lemma emit_reads [simp]: "fst (emit es h) = es" "snd (emit es h) = h"
  by (simp_all add: emit_def)

lemma and_then_state [simp]: "snd (and_then p q h) = snd (q (snd (p h)))"
  by (simp add: and_then_def split_beta)

lemma writeAudit_state:
  "snd (writeAudit W a e h) =
     h\<lparr>ph_fs := snd (AuditWrite (wo_events W) (wo_faults W) (an_timestamp a) e (ph_alog h) (ph_fs h))\<rparr>"
  by (simp add: writeAudit_def split_beta)

section \<open>The verdict\<close>

datatype verdict = NoIdentity string | OverQuota Agent QDecision | Refused Agent Decision | Forward Agent Decision

definition verdict :: "world \<Rightarrow> answers \<Rightarrow> Request \<Rightarrow> proxyHandler \<Rightarrow> verdict" where
  "verdict W a r h = (case authenticate W a r h of
     (agentID, None) \<Rightarrow> NoIdentity agentID
   | (_, Some ag) \<Rightarrow>
      (let qd = fst (Check (ag_AgentID ag) (an_nanos a) (ph_lim h));
           dec = EvaluateRich (wo_unicode W) (ph_eng h) (request_context ag r) in
       if \<not> qd_Allowed qd then OverQuota ag qd
       else if de_Action dec \<noteq> ''allow'' then Refused ag dec else Forward ag dec))"

lemma authenticate_cong:
  assumes "ph_reg h = ph_reg g" and "ph_jwtSecret h = ph_jwtSecret g"
  shows "authenticate W a r h = authenticate W a r g"
  unfolding authenticate_def assms by (rule refl)

lemma authenticate_state [simp]:
  "authenticate W a r (h\<lparr>ph_reqSeq := s\<rparr>) = authenticate W a r h"
  by (rule authenticate_cong) simp_all

definition request_id :: "answers \<Rightarrow> proxyHandler \<Rightarrow> string" where
  "request_id a h = fst (newRequestID (an_unixMilli a) (ph_reqSeq h))"

text \<open>The state in which the answer is given: the sequence number counted, the budget charged.\<close>

definition charged :: "world \<Rightarrow> answers \<Rightarrow> Request \<Rightarrow> proxyHandler \<Rightarrow> proxyHandler" where
  "charged W a r h = h\<lparr>ph_reqSeq := ph_reqSeq h + 1, ph_lim := (case snd (authenticate W a r h) of
     None \<Rightarrow> ph_lim h | Some ag \<Rightarrow> snd (Check (ag_AgentID ag) (an_nanos a) (ph_lim h)))\<rparr>"

definition no_identity_event :: "answers \<Rightarrow> string \<Rightarrow> string \<Rightarrow> Request \<Rightarrow> Event" where
  "no_identity_event a reqID agentID r =
    \<lparr>ev_Timestamp = [], ev_RequestID = reqID, ev_AgentID = agentID, ev_TeamID = [], ev_ProjectID = [],
     ev_Environment = [], ev_Destination = requestHost r, ev_Method = rq_Method r,
     ev_Decision = ''deny'', ev_PolicyID = ''no-identity'', ev_LatencyMs = an_latencyMs a, ev_BytesOut = 0\<rparr>"

definition quota_alert :: "answers \<Rightarrow> Agent \<Rightarrow> proxyHandler \<Rightarrow> effect list" where
  "quota_alert a ag h = (let qd = fst (Check (ag_AgentID ag) (an_nanos a) (ph_lim h)) in
     if qd_Reason qd \<noteq> [] then [LogPrintf (''quota alert: agent='' @ ag_AgentID ag @ '' '' @ qd_Reason qd)] else [])"

lemma newRequestID_simp: "newRequestID (an_unixMilli a) (ph_reqSeq h) = (request_id a h, ph_reqSeq h + 1)"
  by (simp add: newRequestID_def request_id_def Let_def)

text \<open>The handler, verdict by verdict.\<close>

lemma ServeHTTP_verdict:
  "ServeHTTP W a r h = (case verdict W a r h of
     NoIdentity i \<Rightarrow> and_then (writeAudit W a (no_identity_event a (request_id a h) i r))
       (emit [SetHeader ''Proxy-Authenticate'' (''Basic realm='' @ [CHR 0x22] @ ''clawgress'' @ [CHR 0x22]),
             HttpError 407 (''407 Proxy Authentication Required '' @ emdash @ '' no valid identity'')])
       (charged W a r h)
   | OverQuota ag qd \<Rightarrow> and_then (writeAudit W a (deny_event a (request_id a h) ag r ''quota-exceeded''))
       (emit [HttpError 429 (''429 Too Many Requests '' @ emdash @ '' '' @ qd_Reason qd)]) (charged W a r h)
   | Refused ag dec \<Rightarrow> and_then (emit (quota_alert a ag h))
       (and_then (writeAudit W a (deny_event a (request_id a h) ag r (de_PolicyID dec)))
         (emit [HttpError 403 (''403 Forbidden '' @ emdash @ '' '' @ de_Reason dec)])) (charged W a r h)
   | Forward ag dec \<Rightarrow> and_then (emit (quota_alert a ag h))
       (if rq_Method r = ''CONNECT'' then handleConnect W a r ag (request_id a h) dec
        else handleHTTP W a r ag (request_id a h) dec) (charged W a r h))"
proof -
  obtain i oa where au: "authenticate W a r h = (i, oa)" by (cases "authenticate W a r h")
  show ?thesis
  proof (cases oa)
    case None
    then show ?thesis
      by (simp add: ServeHTTP_def newRequestID_simp verdict_def au charged_def no_identity_event_def)
  next
    case (Some ag)
    obtain qd l where ch: "Check (ag_AgentID ag) (an_nanos a) (ph_lim h) = (qd, l)" by force
    show ?thesis
      by (simp add: ServeHTTP_def newRequestID_simp verdict_def au Some charged_def ch Let_def
          quota_alert_def and_then_def emit_def split_beta)
  qed
qed

text \<open>Cases in which the code forwards and then returns without a record.\<close>

definition unrecorded :: "answers \<Rightarrow> Request \<Rightarrow> bool" where
  "unrecorded a r \<longleftrightarrow> (if rq_Method r = ''CONNECT''
     then an_dial a = None \<and> (\<not> an_hijacker a \<or> an_hijack a \<noteq> None)
     else (\<exists>e. an_do a = Inl e))"

definition destination :: "Request \<Rightarrow> string" where
  "destination r = (if rq_Method r = ''CONNECT'' then rq_Host r
     else (case rq_URL r of Some u \<Rightarrow> ur_Host u | None \<Rightarrow> []))"

lemma list_reads [simp]:
  "upstreams [] = []" "audits [] = []" "statuses [] = []"
  "upstreams (e # es) = (case target e of None \<Rightarrow> upstreams es | Some t \<Rightarrow> t # upstreams es)"
  "audits (e # es) = (case audited e of None \<Rightarrow> audits es | Some t \<Rightarrow> t # audits es)"
  "statuses (e # es) = (case status e of None \<Rightarrow> statuses es | Some t \<Rightarrow> t # statuses es)"
  "upstreams (es @ fs) = upstreams es @ upstreams fs" "audits (es @ fs) = audits es @ audits fs"
  "statuses (es @ fs) = statuses es @ statuses fs"
  by (simp_all add: read_simps split: option.splits)

lemma header_effects [simp]:
  "upstreams (concat (map (\<lambda>(k, vv). map (AddHeader k) vv) hs)) = []"
  "audits (concat (map (\<lambda>(k, vv). map (AddHeader k) vv) hs)) = []"
  "statuses (concat (map (\<lambda>(k, vv). map (AddHeader k) vv) hs)) = []"
  by (simp_all add: upstreams_def audits_def statuses_def)

lemma quota_alert_reads [simp]:
  "upstreams (quota_alert a ag h) = []" "audits (quota_alert a ag h) = []" "statuses (quota_alert a ag h) = []"
  by (simp_all add: quota_alert_def Let_def)

lemma if_fun: "(if b then f else g) x = (if b then f x else g x)"
  by simp

lemma connect_reads:
  assumes "rq_Method r = ''CONNECT''"
  shows "upstreams (fst (handleConnect W a r ag i dec h)) = [destination r]"
    "map ev_AgentID (audits (fst (handleConnect W a r ag i dec h))) = (if unrecorded a r then [] else [ag_AgentID ag])"
  using assms by (auto simp: handleConnect_def destination_def unrecorded_def if_fun split: option.splits)

lemma http_reads:
  assumes "rq_Method r \<noteq> ''CONNECT''"
  shows "upstreams (fst (handleHTTP W a r ag i dec h)) = [destination r]"
    "map ev_AgentID (audits (fst (handleHTTP W a r ag i dec h))) = (if unrecorded a r then [] else [ag_AgentID ag])"
  using assms by (auto simp: handleHTTP_def destination_def unrecorded_def Let_def split: sum.splits)

lemma ServeHTTP_upstreams:
  "upstreams (fst (ServeHTTP W a r h)) = (case verdict W a r h of Forward ag dec \<Rightarrow> [destination r] | _ \<Rightarrow> [])"
  by (simp add: ServeHTTP_verdict connect_reads http_reads split: verdict.splits)

lemma ServeHTTP_agents:
  "map ev_AgentID (audits (fst (ServeHTTP W a r h))) = (case verdict W a r h of
     NoIdentity i \<Rightarrow> [i] | OverQuota ag qd \<Rightarrow> [ag_AgentID ag] | Refused ag dec \<Rightarrow> [ag_AgentID ag]
   | Forward ag dec \<Rightarrow> if unrecorded a r then [] else [ag_AgentID ag])"
proof (cases "verdict W a r h")
  case (Forward ag dec)
  then show ?thesis
    using connect_reads(2) [of r W a ag "request_id a h" dec "charged W a r h"]
      http_reads(2) [of r W a ag "request_id a h" dec "charged W a r h"]
    by (cases "rq_Method r = ''CONNECT''") (simp_all add: ServeHTTP_verdict)
qed (simp_all add: ServeHTTP_verdict no_identity_event_def deny_event_def)

lemma verdict_Forward:
  "verdict W a r h = Forward ag dec \<longleftrightarrow> (\<exists>i. authenticate W a r h = (i, Some ag)) \<and>
     qd_Allowed (fst (Check (ag_AgentID ag) (an_nanos a) (ph_lim h))) \<and>
     dec = EvaluateRich (wo_unicode W) (ph_eng h) (request_context ag r) \<and> de_Action dec = ''allow''"
  by (auto simp: verdict_def Let_def split: prod.splits option.splits)

section \<open>Who is let through\<close>

text \<open>
  C1: complete mediation. A request reaches an upstream exactly when it carries an identity, the
  quota of that identity admits it and the policy allows it; there is then exactly one upstream
  contact, to the destination of the request. And no request reaches an upstream without an explicit
  allow rule in the policy that applies to this agent, host, method, path and conditions.
\<close>

theorem gateway_lets_through:
  "(upstreams (fst (ServeHTTP W a r h)) \<noteq> [] \<longleftrightarrow>
     (\<exists>i ag. authenticate W a r h = (i, Some ag) \<and>
        qd_Allowed (fst (Check (ag_AgentID ag) (an_nanos a) (ph_lim h))) \<and>
        de_Action (EvaluateRich (wo_unicode W) (ph_eng h) (request_context ag r)) = ''allow'')) \<and>
   (upstreams (fst (ServeHTTP W a r h)) \<noteq> [] \<longrightarrow>
     upstreams (fst (ServeHTTP W a r h)) = [destination r] \<and>
     (\<exists>i ag p. authenticate W a r h = (i, Some ag) \<and> p \<in> set (en_rules (ph_eng h)) \<and>
        ru_Action p = ''allow'' \<and>
        ruleApplies (wo_unicode W) (evalHost (wo_unicode W) (request_context ag r)) (request_context ag r) p))"
proof (cases "\<exists>ag dec. verdict W a r h = Forward ag dec")
  case True
  then obtain ag dec where v: "verdict W a r h = Forward ag dec" by blast
  then obtain i where i: "authenticate W a r h = (i, Some ag)"
      "qd_Allowed (fst (Check (ag_AgentID ag) (an_nanos a) (ph_lim h)))"
      "de_Action (EvaluateRich (wo_unicode W) (ph_eng h) (request_context ag r)) = ''allow''"
    by (auto simp: verdict_Forward)
  have "upstreams (fst (ServeHTTP W a r h)) = [destination r]" by (simp add: ServeHTTP_upstreams v)
  with i evaluate_allow [OF i(3)] show ?thesis by auto
next
  case False
  then have "upstreams (fst (ServeHTTP W a r h)) = []"
    by (auto simp: ServeHTTP_upstreams split: verdict.splits)
  moreover have "\<not> (\<exists>i ag. authenticate W a r h = (i, Some ag) \<and>
        qd_Allowed (fst (Check (ag_AgentID ag) (an_nanos a) (ph_lim h))) \<and>
        de_Action (EvaluateRich (wo_unicode W) (ph_eng h) (request_context ag r)) = ''allow'')"
    using False by (auto simp: verdict_Forward)
  ultimately show ?thesis by simp
qed

text \<open>
  C2: every refusal is answered and recorded. Without an identity the answer is 407, over quota 429
  and on a policy denial 403; each time nothing is sent upstream and exactly one event is recorded, a
  denial with the request's id, destination and method and with the reason as its policy id. The
  budget of an agent is charged only for requests that identify it.
\<close>

theorem gateway_refusals:
  "case authenticate W a r h of
     (i, None) \<Rightarrow> statuses (fst (ServeHTTP W a r h)) = [407] \<and> upstreams (fst (ServeHTTP W a r h)) = [] \<and>
       audits (fst (ServeHTTP W a r h)) = [no_identity_event a (request_id a h) i r] \<and>
       ph_lim (snd (ServeHTTP W a r h)) = ph_lim h
   | (i, Some ag) \<Rightarrow>
       (let qd = fst (Check (ag_AgentID ag) (an_nanos a) (ph_lim h));
            dec = EvaluateRich (wo_unicode W) (ph_eng h) (request_context ag r) in
        (if \<not> qd_Allowed qd then statuses (fst (ServeHTTP W a r h)) = [429] \<and>
           upstreams (fst (ServeHTTP W a r h)) = [] \<and>
           audits (fst (ServeHTTP W a r h)) = [deny_event a (request_id a h) ag r ''quota-exceeded'']
         else if de_Action dec \<noteq> ''allow'' then statuses (fst (ServeHTTP W a r h)) = [403] \<and>
           upstreams (fst (ServeHTTP W a r h)) = [] \<and>
           audits (fst (ServeHTTP W a r h)) = [deny_event a (request_id a h) ag r (de_PolicyID dec)]
         else upstreams (fst (ServeHTTP W a r h)) = [destination r]))"
proof (cases "authenticate W a r h")
  case (Pair i oa)
  show ?thesis
  proof (cases oa)
    case None
    then show ?thesis using Pair
      by (simp add: ServeHTTP_verdict verdict_def charged_def writeAudit_state)
  next
    case (Some ag)
    then show ?thesis using Pair
      by (simp add: ServeHTTP_verdict verdict_def Let_def connect_reads http_reads)
  qed
qed

text \<open>
  C20: what the audit log does not show. Every request produces exactly one event, except a forwarded
  one whose upstream fails (or whose connection cannot be taken over), which produces none; and for
  every forwarded request the upstream is contacted before any event is recorded.
\<close>

theorem gateway_audit_coverage:
  "length (audits (fst (ServeHTTP W a r h))) =
     (if upstreams (fst (ServeHTTP W a r h)) \<noteq> [] \<and> unrecorded a r then 0 else 1) \<and>
   (upstreams (fst (ServeHTTP W a r h)) \<noteq> [] \<longrightarrow>
     (\<exists>before u after. fst (ServeHTTP W a r h) = before @ u # after \<and> target u \<noteq> None \<and>
        audits before = []))"
proof (intro conjI impI)
  have "length (map ev_AgentID (audits (fst (ServeHTTP W a r h)))) =
      (if upstreams (fst (ServeHTTP W a r h)) \<noteq> [] \<and> unrecorded a r then 0 else 1)"
    unfolding ServeHTTP_agents ServeHTTP_upstreams by (simp split: verdict.splits)
  then show "length (audits (fst (ServeHTTP W a r h))) =
      (if upstreams (fst (ServeHTTP W a r h)) \<noteq> [] \<and> unrecorded a r then 0 else 1)" by simp
  assume "upstreams (fst (ServeHTTP W a r h)) \<noteq> []"
  then obtain ag dec where v: "verdict W a r h = Forward ag dec"
    by (auto simp: ServeHTTP_upstreams split: verdict.splits)
  have "\<exists>u after. fst ((if rq_Method r = ''CONNECT'' then handleConnect W a r ag i dec
        else handleHTTP W a r ag i dec) g) = u # after \<and> target u \<noteq> None" for i g
    by (simp add: handleConnect_def handleHTTP_def and_then_def emit_def Let_def split_beta)
  then obtain u after where u: "target u \<noteq> None"
    "fst ((if rq_Method r = ''CONNECT'' then handleConnect W a r ag (request_id a h) dec
        else handleHTTP W a r ag (request_id a h) dec) (charged W a r h)) = u # after" by blast
  have "fst (ServeHTTP W a r h) = quota_alert a ag h @ u # after"
    using u(2) by (simp add: ServeHTTP_verdict v and_then_def emit_def split_beta)
  with u(1) show "\<exists>before u after. fst (ServeHTTP W a r h) = before @ u # after \<and> target u \<noteq> None \<and>
      audits before = []"
    using quota_alert_reads(2) by blast
qed

section \<open>Whose name is recorded\<close>

definition basic_auth :: "string \<Rightarrow> string \<Rightarrow> string" where
  "basic_auth claimed key = ''Basic '' @ b64_encode std_alphabet True (claimed @ CHR '':'' # key)"

lemma extract_basic:
  assumes "header_Get (rq_Header r) ''Proxy-Authorization'' = basic_auth claimed key"
    and "CHR '':'' \<notin> set claimed"
  shows "extractProxyAuth r = (claimed, key, [])"
proof -
  have "SplitNByte CHR '':'' 2 (claimed @ CHR '':'' # key) = [claimed, key]"
    using assms(2) by (simp add: numeral_2_eq_2)
  then show ?thesis
    using assms(1) by (simp add: extractProxyAuth_def basic_auth_def HasPrefix_def TrimPrefix_def base64_std.dec_enc)
qed

lemma extract_bearer:
  "header_Get (rq_Header r) ''Proxy-Authorization'' = ''Bearer '' @ token \<Longrightarrow>
   extractProxyAuth r = ([], [], token)"
  by (simp add: extractProxyAuth_def HasPrefix_def TrimPrefix_def)

text \<open>
  the recorded agent is the owner of the key. A request with Basic credentials is identified by
  its key alone: whatever id the client claims, every event of the request carries the id of the
  agent to which the key belongs. Only when the key belongs to nobody is the claimed id recorded,
  and then the request is refused.
\<close>

theorem gateway_records_key_owner:
  assumes "header_Get (rq_Header r) ''Proxy-Authorization'' = basic_auth claimed key"
    and "CHR '':'' \<notin> set claimed" and "key \<noteq> []"
  shows "case LookupByKey (ph_reg h) key of
     Some ag \<Rightarrow> authenticate W a r h = (claimed, Some ag) \<and>
       (\<forall>e \<in> set (audits (fst (ServeHTTP W a r h))). ev_AgentID e = ag_AgentID ag)
   | None \<Rightarrow> upstreams (fst (ServeHTTP W a r h)) = [] \<and>
       map ev_AgentID (audits (fst (ServeHTTP W a r h))) = [claimed]"
proof (cases "LookupByKey (ph_reg h) key")
  case None
  then have "authenticate W a r h = (claimed, None)"
    using assms(3) by (simp add: authenticate_def extract_basic [OF assms(1,2)])
  then have "verdict W a r h = NoIdentity claimed" by (simp add: verdict_def)
  then show ?thesis by (simp add: None ServeHTTP_upstreams ServeHTTP_agents del: map_eq_Cons_conv)
next
  case (Some ag)
  then have au: "authenticate W a r h = (claimed, Some ag)"
    using assms(3) by (simp add: authenticate_def extract_basic [OF assms(1,2)])
  then have "set (map ev_AgentID (audits (fst (ServeHTTP W a r h)))) \<subseteq> {ag_AgentID ag}"
    unfolding ServeHTTP_agents by (simp add: verdict_def Let_def)
  with au show ?thesis by (auto simp: Some)
qed

definition claims_agent :: "JWTClaims \<Rightarrow> Agent" where
  "claims_agent c = \<lparr>ag_AgentID = cl_AgentID c, ag_TeamID = cl_TeamID c, ag_ProjectID = cl_ProjectID c,
     ag_Environment = cl_Environment c, ag_APIKey = [], ag_Status = ''active''\<rparr>"

text \<open>
  a bearer token is not checked against the registry. While the secret is set, a token that
  verifies identifies its agent whatever the registry holds, so an agent that has been removed or
  suspended keeps its access until its token expires; with an empty secret no token identifies
  anyone.
\<close>

theorem gateway_token_bypasses_registry:
  assumes "header_Get (rq_Header r) ''Proxy-Authorization'' = ''Bearer '' @ token"
    and "VerifyJWT (wo_jwt W) (an_unix a) token (ph_jwtSecret h) = Inr c"
  shows "authenticate W a r (h\<lparr>ph_reg := reg\<rparr>) =
     (if ph_jwtSecret h = [] then ([], None) else (cl_AgentID c, Some (claims_agent c)))"
proof -
  have "token \<noteq> []" using assms(2) by (auto simp: VerifyJWT_def Let_def numeral_3_eq_3)
  with assms(2) show ?thesis
    by (simp add: authenticate_def extract_bearer [OF assms(1)] claims_agent_def)
qed

section \<open>What reaches the upstream\<close>

text \<open>
  the proxy's own headers stay here. A request sent upstream is the client's request, for the
  same URL and with the same method and headers, without \<open>Proxy-Authorization\<close> and
  \<open>Proxy-Connection\<close>.
\<close>

theorem gateway_strips_credentials:
  assumes "DoRequest q \<in> set (fst (ServeHTTP W a r h))"
  shows "rq_URL q = rq_URL r \<and> rq_Method q = rq_Method r \<and>
     mget (rq_Header q) k = (if k \<in> {''Proxy-Authorization'', ''Proxy-Connection''} then None
       else mget (rq_Header r) k)"
proof -
  have w: "DoRequest q \<notin> set (fst (writeAudit W a e g))" for e g
    by (auto simp: writeAudit_def split_beta split: option.splits)
  have qa: "DoRequest q \<notin> set (quota_alert a ag h)" for ag
    by (simp add: quota_alert_def Let_def)
  have hd: "DoRequest q \<notin> set (concat (map (\<lambda>(k, vv). map (AddHeader k) vv) hs))" for hs
    by auto
  have "q = r\<lparr>rq_Header := mdel ''Proxy-Connection'' (mdel ''Proxy-Authorization'' (rq_Header r)), rq_RequestURI := []\<rparr>"
    using assms
    by (auto simp: ServeHTTP_verdict and_then_def emit_def split_beta w qa handleConnect_def
        handleHTTP_def Let_def if_fun split: verdict.splits if_splits option.splits sum.splits)
  then show ?thesis by simp
qed

section \<open>Request ids\<close>

lemma length_dec_nat: "0 < k \<Longrightarrow> n < 10 ^ k \<Longrightarrow> length (dec_nat n) \<le> k"
proof (induction n arbitrary: k rule: dec_nat.induct)
  case (1 n)
  show ?case
  proof (cases "n < 10")
    case True
    with 1(2) show ?thesis by (simp add: dec_nat.simps [of n])
  next
    case False
    then obtain j where k: "k = Suc j" "0 < j" using 1(2,3) by (cases k; cases "k = 1") auto
    with 1(3) have "n div 10 < 10 ^ j" by (simp add: less_mult_imp_div_less mult.commute)
    with 1(1) [OF False] k False show ?thesis by (simp add: dec_nat.simps [of n])
  qed
qed

lemma undec_zeros: "undec 0 (replicate k CHR ''0'' @ s) = undec 0 s"
  by (induction k) (simp_all add: digit_val_def)

lemma pad_left_inject: "pad_left k CHR ''0'' (dec_nat m) = pad_left k CHR ''0'' (dec_nat n) \<longleftrightarrow> m = n"
  by (metis undec_dec_nat undec_zeros option.inject pad_left_def)

lemma fmt_d_inject: "fmt_d i = fmt_d j \<longleftrightarrow> i = j"
proof
  assume e: "fmt_d i = fmt_d j"
  have dash: "dec_nat n \<noteq> CHR ''-'' # s" for n s
    using set_dec_nat [of "CHR ''-''" n] by auto
  show "i = j"
    using e dash by (auto simp: fmt_d_def dec_nat_inject dash [symmetric] split: if_splits)
qed simp

text \<open>
  request ids repeat only after ten thousand requests in a millisecond. Two ids are equal exactly
  when they were made in the same millisecond and their sequence numbers, 64-bit words that wrap
  around, leave the same remainder modulo ten thousand.
\<close>

theorem request_ids_equal_iff:
  "fst (newRequestID t s) = fst (newRequestID u v) \<longleftrightarrow>
     t = u \<and> unat (s + 1) mod 10000 = unat (v + 1) mod 10000"
proof -
  have len: "length (pad_left 4 CHR ''0'' (dec_nat (n mod 10000))) = 4" for n
    using length_dec_nat [of 4 "n mod 10000"] by (simp add: pad_left_def)
  show ?thesis
    by (simp add: newRequestID_def Let_def len pad_left_inject fmt_d_inject append_eq_append_conv)
qed

section \<open>Concrete requests\<close>

definition demo_world :: world where
  "demo_world = \<lparr>wo_unicode = ascii_only, wo_jwt = demo_env, wo_events = demo_event_json,
     wo_faults = no_faults\<rparr>"

definition demo_answers :: answers where
  "demo_answers = \<lparr>an_unixMilli = 7, an_unix = 50, an_nanos = 0, an_timestamp = ''t'', an_latencyMs = 1,
     an_dial = None, an_hijacker = True, an_hijack = None, an_bytesOut = 10,
     an_do = Inr \<lparr>rs_StatusCode = 200, rs_Header = []\<rparr>, an_copied = 5\<rparr>"

definition demo_gateway :: proxyHandler where
  "demo_gateway = \<lparr>ph_reg = RegistryAdd (demo_agent ''a1'' ''k1'') empty_registry, ph_eng = evil_engine,
     ph_lim = no_limits, ph_alog = demo_log, ph_jwtSecret = ''k'', ph_reqSeq = 0, ph_fs = [''audit.jsonl'' \<mapsto> []]\<rparr>"

definition demo_request :: "string \<Rightarrow> string \<Rightarrow> Request" where
  "demo_request host auth = \<lparr>rq_Method = ''GET'', rq_Host = host,
     rq_URL = Some \<lparr>ur_Path = ''/'', ur_Host = host\<rparr>,
     rq_Header = [(''Proxy-Authorization'', [auth])], rq_RequestURI = ''/''\<rparr>"

lemma demo_auth [simp]: "header_Get (rq_Header (demo_request host auth)) ''Proxy-Authorization'' = auth"
  by (simp add: demo_request_def header_Get_def)

lemma demo_key: "LookupByKey (ph_reg demo_gateway) ''k1'' = Some (demo_agent ''a1'' ''k1'')"
  by (simp add: LookupByKey_def RegistryAdd_def demo_agent_def demo_gateway_def)

lemma demo_authenticate:
  "authenticate demo_world demo_answers (demo_request host (basic_auth ''me'' ''k1'')) demo_gateway =
     (''me'', Some (demo_agent ''a1'' ''k1''))"
  using demo_key by (simp add: authenticate_def extract_basic [OF demo_auth])

lemma demo_check: "Check i t (ph_lim demo_gateway) = (unlimited, ph_lim demo_gateway)"
  by (simp add: Check_unknown demo_gateway_def no_limits_def)

lemma demo_decision:
  "de_Action (EvaluateRich (wo_unicode demo_world) (ph_eng demo_gateway)
     (request_context (demo_agent ''a1'' ''k1'') (demo_request ''www.example.org'' auth))) = ''allow''"
  unfolding demo_world_def demo_gateway_def demo_request_def by code_simp

lemma demo_upstreams:
  "upstreams (fst (ServeHTTP demo_world demo_answers
     (demo_request ''www.example.org'' (basic_auth ''me'' ''k1'')) demo_gateway)) = [''www.example.org'']"
  using demo_decision by (simp add: ServeHTTP_upstreams verdict_def demo_authenticate demo_check
      unlimited_def destination_def) (simp add: demo_request_def)

theorem gateway_lets_through_witness:
  "upstreams (fst (ServeHTTP demo_world demo_answers
     (demo_request ''www.example.org'' (basic_auth ''me'' ''k1'')) demo_gateway)) \<noteq> []"
  using gateway_lets_through [of demo_world demo_answers
      "demo_request ''www.example.org'' (basic_auth ''me'' ''k1'')" demo_gateway]
    demo_authenticate demo_decision demo_check by (auto simp: unlimited_def)

theorem gateway_audit_coverage_witness:
  "\<exists>before u after. fst (ServeHTTP demo_world demo_answers
     (demo_request ''www.example.org'' (basic_auth ''me'' ''k1'')) demo_gateway) = before @ u # after \<and>
     target u \<noteq> None \<and> audits before = []"
  using gateway_audit_coverage [of demo_world demo_answers
      "demo_request ''www.example.org'' (basic_auth ''me'' ''k1'')" demo_gateway]
  by (simp add: demo_upstreams)

theorem gateway_records_key_owner_witness:
  "map ev_AgentID (audits (fst (ServeHTTP demo_world demo_answers
     (demo_request ''www.example.org'' (basic_auth ''admin'' ''k2'')) demo_gateway))) = [''admin'']"
proof -
  have "LookupByKey (ph_reg demo_gateway) ''k2'' = None"
    by (simp add: LookupByKey_def RegistryAdd_def demo_agent_def demo_gateway_def empty_registry_def)
  with gateway_records_key_owner [where claimed = "''admin''" and key = "''k2''" and h = demo_gateway
      and W = demo_world and a = demo_answers, OF demo_auth]
  show ?thesis by (simp del: map_eq_Cons_conv)
qed

theorem gateway_token_bypasses_registry_witness:
  "authenticate demo_world demo_answers
     (demo_request ''www.example.org'' (''Bearer '' @ SignJWT demo_env demo_claims ''k''))
     (demo_gateway\<lparr>ph_reg := empty_registry\<rparr>) = (''a1'', Some (claims_agent demo_claims))"
proof -
  have "good_token demo_env 50 ''k'' (SignJWT demo_env demo_claims ''k'') demo_claims"
    by (rule good_token_sign [of _ _ "''C''"]) (simp_all add: demo_env_def json_roundtrip_def demo_claims_def)
  then have v: "VerifyJWT (wo_jwt demo_world) (an_unix demo_answers) (SignJWT demo_env demo_claims ''k'')
      (ph_jwtSecret demo_gateway) = Inr demo_claims"
    by (simp add: VerifyJWT_iff demo_world_def demo_answers_def demo_gateway_def)
  have s: "ph_jwtSecret demo_gateway \<noteq> []" "cl_AgentID demo_claims = ''a1''"
    by (simp_all add: demo_gateway_def demo_claims_def)
  show ?thesis using gateway_token_bypasses_registry [where reg = empty_registry, OF demo_auth v] s by simp
qed

theorem gateway_strips_credentials_witness:
  "\<exists>q. DoRequest q \<in> set (fst (ServeHTTP demo_world demo_answers
     (demo_request ''www.example.org'' (basic_auth ''me'' ''k1'')) demo_gateway)) \<and>
     mget (rq_Header q) ''Proxy-Authorization'' = None"
proof -
  let ?r = "demo_request ''www.example.org'' (basic_auth ''me'' ''k1'')"
  have v: "verdict demo_world demo_answers ?r demo_gateway = Forward (demo_agent ''a1'' ''k1'')
      (EvaluateRich (wo_unicode demo_world) (ph_eng demo_gateway) (request_context (demo_agent ''a1'' ''k1'') ?r))"
    using demo_decision by (simp add: verdict_Forward demo_authenticate demo_check unlimited_def)
  have "rq_Method ?r \<noteq> ''CONNECT''" by (simp add: demo_request_def)
  then have "\<exists>q. DoRequest q \<in> set (fst (ServeHTTP demo_world demo_answers ?r demo_gateway))"
    by (auto simp: ServeHTTP_verdict v and_then_def emit_def split_beta handleHTTP_def Let_def)
  then obtain q where q: "DoRequest q \<in> set (fst (ServeHTTP demo_world demo_answers ?r demo_gateway))" ..
  then have "mget (rq_Header q) ''Proxy-Authorization'' = None"
    using gateway_strips_credentials [OF q, of "''Proxy-Authorization''"] by simp
  with q show ?thesis by blast
qed

end
