(* ===== verification/Gateway_Runs.thy ===== *)
theory Gateway_Runs
  imports Gateway_Props
begin

text \<open>
  Runs of the proxy: how much one agent can send in a window of time, what one request can do to the
  audit log, and what a reload changes.
\<close>

section \<open>The state after a request\<close>

lemma forward_state:
  "\<exists>f. snd ((if rq_Method r = ''CONNECT'' then handleConnect W a r ag i dec else handleHTTP W a r ag i dec) h) =
     h\<lparr>ph_fs := f\<rparr>"
proof -
  have id: "\<exists>f. h = h\<lparr>ph_fs := f\<rparr>" by (rule exI [of _ "ph_fs h"]) simp
  have w: "\<exists>f. snd (writeAudit W a e h) = h\<lparr>ph_fs := f\<rparr>" for e by (auto simp: writeAudit_state)
  show ?thesis
    using id w by (auto simp: handleConnect_def handleHTTP_def Let_def if_fun split: option.splits sum.splits)
qed

lemma ServeHTTP_state: "\<exists>f. snd (ServeHTTP W a r h) = (charged W a r h)\<lparr>ph_fs := f\<rparr>"
  using forward_state [of r W a _ "request_id a h" _ "charged W a r h"]
  by (cases "verdict W a r h") (auto simp: ServeHTTP_verdict writeAudit_state)

lemma ServeHTTP_keeps [simp]:
  "ph_reg (snd (ServeHTTP W a r h)) = ph_reg h" "ph_eng (snd (ServeHTTP W a r h)) = ph_eng h"
  "ph_jwtSecret (snd (ServeHTTP W a r h)) = ph_jwtSecret h" "ph_alog (snd (ServeHTTP W a r h)) = ph_alog h"
  "ph_lim (snd (ServeHTTP W a r h)) = (case snd (authenticate W a r h) of
     None \<Rightarrow> ph_lim h | Some ag \<Rightarrow> snd (Check (ag_AgentID ag) (an_nanos a) (ph_lim h)))"
  using ServeHTTP_state [of W a r h] by (auto simp: charged_def)

lemma authenticate_after [simp]:
  "authenticate W b q (snd (ServeHTTP W a r h)) = authenticate W b q h"
  by (rule authenticate_cong) simp_all

section \<open>How much one agent can send\<close>

text \<open>
  A run: requests, and reloads of the tables from whatever files the signal finds. The events are in the
  order in which they reach the limiter, whose mutex orders the checks of concurrent requests and the
  exchange of its tables. \<open>sent i\<close> counts the upstream contacts made for the agent with id \<open>i\<close>,
  however it identified itself.
\<close>

datatype gateway_event = Served answers Request | Reloaded answers reload_io fs

fun gateway_step :: "world \<Rightarrow> gateway_event \<Rightarrow> handler" where
  "gateway_step W (Served a r) h = ServeHTTP W a r h"
| "gateway_step W (Reloaded b R fs) h = reload W b R (h\<lparr>ph_fs := fs\<rparr>)"

fun event_nanos :: "gateway_event \<Rightarrow> int" where
  "event_nanos (Served a r) = an_nanos a"
| "event_nanos (Reloaded b R fs) = an_nanos b"

fun sent :: "string \<Rightarrow> world \<Rightarrow> gateway_event list \<Rightarrow> proxyHandler \<Rightarrow> nat" where
  "sent i W [] h = 0"
| "sent i W (Served a r # es) h =
    (if map_option ag_AgentID (snd (authenticate W a r h)) = Some i
     then length (upstreams (fst (ServeHTTP W a r h))) else 0) + sent i W es (snd (ServeHTTP W a r h))"
| "sent i W (Reloaded b R fs # es) h = sent i W es (snd (gateway_step W (Reloaded b R fs) h))"

fun reloads :: "gateway_event list \<Rightarrow> nat" where
  "reloads [] = 0"
| "reloads (Served a r # es) = reloads es"
| "reloads (Reloaded b R fs # es) = Suc (reloads es)"

text \<open>The limit of an agent is the same at every point of the run, whatever the reloads find.\<close>

fun limit_stays :: "string \<Rightarrow> Limit \<Rightarrow> world \<Rightarrow> gateway_event list \<Rightarrow> proxyHandler \<Rightarrow> bool" where
  "limit_stays i m W [] h \<longleftrightarrow> LimiterLookupByID (ph_lim h) i = Some m"
| "limit_stays i m W (e # es) h \<longleftrightarrow>
     LimiterLookupByID (ph_lim h) i = Some m \<and> limit_stays i m W es (snd (gateway_step W e h))"

text \<open>The decoder of the quota file gives values of the type \<open>float64\<close>.\<close>

fun decodes_floats :: "gateway_event \<Rightarrow> bool" where
  "decodes_floats (Served a r) \<longleftrightarrow> True"
| "decodes_floats (Reloaded b R fs) \<longleftrightarrow> (\<forall>d ms. unmarshal (rl_limits R) d = Inr ms \<longrightarrow> list_all f64_limit ms)"

text \<open>The requests between two reloads.\<close>

fun requests_sent :: "string \<Rightarrow> world \<Rightarrow> (answers \<times> Request) list \<Rightarrow> proxyHandler \<Rightarrow> nat" where
  "requests_sent i W [] h = 0"
| "requests_sent i W ((a, r) # cs) h =
    (if map_option ag_AgentID (snd (authenticate W a r h)) = Some i
     then length (upstreams (fst (ServeHTTP W a r h))) else 0) + requests_sent i W cs (snd (ServeHTTP W a r h))"

definition serve_each :: "world \<Rightarrow> (answers \<times> Request) list \<Rightarrow> proxyHandler \<Rightarrow> proxyHandler" where
  "serve_each W cs = fold (\<lambda>(a, r) h. snd (ServeHTTP W a r h)) cs"

abbreviation served :: "(answers \<times> Request) list \<Rightarrow> gateway_event list" where
  "served cs \<equiv> map (\<lambda>(a, r). Served a r) cs"

fun checks :: "world \<Rightarrow> (answers \<times> Request) list \<Rightarrow> proxyHandler \<Rightarrow> (string \<times> int) list" where
  "checks W [] h = []"
| "checks W ((a, r) # cs) h =
    (case snd (authenticate W a r h) of None \<Rightarrow> [] | Some ag \<Rightarrow> [(ag_AgentID ag, an_nanos a)]) @
    checks W cs (snd (ServeHTTP W a r h))"

lemma sent_le_admitted:
  "requests_sent i W cs h \<le> admitted (calls_of i (fst (CheckAll (checks W cs h) (ph_lim h))))"
proof (induction cs arbitrary: h)
  case (Cons c cs)
  obtain a r where c: "c = (a, r)" by (cases c)
  let ?h = "snd (ServeHTTP W a r h)"
  show ?case
  proof (cases "snd (authenticate W a r h)")
    case None
    with Cons.IH [of ?h] c show ?thesis by simp
  next
    case (Some ag)
    have up: "length (upstreams (fst (ServeHTTP W a r h))) \<le>
        of_bool (qd_Allowed (fst (Check (ag_AgentID ag) (an_nanos a) (ph_lim h))))"
      using Some by (cases "authenticate W a r h") (auto simp: ServeHTTP_upstreams verdict_def Let_def)
    have "checks W (c # cs) h = (ag_AgentID ag, an_nanos a) # checks W cs ?h" using Some c by simp
    with Cons.IH [of ?h] up Some c show ?thesis by (auto simp: split_beta)
  qed
qed simp

lemma checks_times:
  "set (map snd (checks W cs h)) \<subseteq> set (map (\<lambda>c. an_nanos (fst c)) cs) \<and>
   length (checks W cs h) \<le> length cs \<and>
   (sorted (map (\<lambda>c. an_nanos (fst c)) cs) \<longrightarrow> sorted (map snd (checks W cs h)))"
proof (induction cs arbitrary: h)
  case (Cons c cs)
  obtain a r where c: "c = (a, r)" by (cases c)
  from Cons.IH [of "snd (ServeHTTP W a r h)"] c show ?case by (fastforce split: option.splits)
qed simp

lemma segment_bound:
  assumes "limiter_ok t0 (ph_lim h)" and "LimiterLookupByID (ph_lim h) i = Some m"
    and "li_Mode m \<noteq> ''alert_only''"
    and "sorted (t0 # map (\<lambda>c. an_nanos (fst c)) cs)"
    and "\<forall>c \<in> set cs. T1 \<le> an_nanos (fst c) \<and> an_nanos (fst c) \<le> T2" and "T1 \<le> T2"
    and "li_RPS m \<le> 2 ^ 53" and "li_RPM m \<le> 2 ^ 53"
  shows "(0 < li_RPS m \<longrightarrow> of_nat (requests_sent i W cs h) \<le> budget (li_RPS m) (li_RPS m) (length cs) (T2 - T1)) \<and>
     (0 < li_RPM m \<longrightarrow>
        of_nat (requests_sent i W cs h) \<le> budget (li_RPM m) (fdiv (li_RPM m) 60) (length cs) (T2 - T1))"
proof -
  let ?cs = "checks W cs h" let ?n = "length (calls_of i ?cs)"
  note ct = checks_times [of W cs h]
  have srt: "sorted (t0 # map snd ?cs)" using assms(4) ct by fastforce
  have win: "\<forall>t \<in> set (calls_of i ?cs). T1 \<le> t \<and> t \<le> T2" using assms(5) ct by fastforce
  have len: "?n \<le> length cs" using ct length_filter_le [of _ ?cs] le_trans by (metis (no_types, lifting) length_map)
  have le: "(of_nat (requests_sent i W cs h) :: rat) \<le> of_nat (admitted (calls_of i (fst (CheckAll ?cs (ph_lim h)))))"
    using sent_le_admitted by simp
  show ?thesis
    using admission_bound [OF assms(1-3) srt win assms(6-8)] le
      budget_mono [of "li_RPS m" ?n "length cs" "li_RPS m" "T2 - T1"]
      budget_mono [of "li_RPM m" ?n "length cs" "fdiv (li_RPM m) 60" "T2 - T1"] len
    by auto
qed

text \<open>A run is requests only, or requests up to its first reload.\<close>

lemma first_reload:
  obtains (only) cs where "es = served cs"
  | (more) cs b R fs rest where "es = served cs @ Reloaded b R fs # rest"
proof (induction es arbitrary: thesis)
  case (Cons e es)
  show ?case
  proof (cases e)
    case (Served a r)
    show ?thesis
      by (rule Cons.IH) (use Served Cons.prems(1) [of "(a, r) # _"] Cons.prems(2) [of "(a, r) # _"] in auto)
  next
    case (Reloaded b R fs)
    then show ?thesis using Cons.prems(2) [of "[]"] by simp
  qed
qed simp

lemma serve_each_limiter: "ph_lim (serve_each W cs h) = snd (CheckAll (checks W cs h) (ph_lim h))"
  unfolding serve_each_def by (induction cs arbitrary: h) (auto simp: split_beta split: option.splits)

lemma serve_each_limit [simp]: "LimiterLookupByID (ph_lim (serve_each W cs h)) i = LimiterLookupByID (ph_lim h) i"
  by (simp add: serve_each_limiter LimiterLookupByID_def)

lemma sent_served: "sent i W (served cs @ es) h = requests_sent i W cs h + sent i W es (serve_each W cs h)"
  unfolding serve_each_def by (induction cs arbitrary: h) auto

lemma reloads_served: "reloads (served cs @ es) = reloads es"
  by (induction cs) auto

lemma limit_stays_served: "limit_stays i m W (served cs @ es) h \<Longrightarrow> limit_stays i m W es (serve_each W cs h)"
  unfolding serve_each_def by (induction cs arbitrary: h) auto

lemma limit_stays_now: "limit_stays i m W es h \<Longrightarrow> LimiterLookupByID (ph_lim h) i = Some m"
  by (cases es) simp_all

lemma limit_staysI:
  assumes "LimiterLookupByID (ph_lim h) i = Some m" and "limit_stays i m W es (serve_each W cs h)"
  shows "limit_stays i m W (served cs @ es) h"
  using assms
proof (induction cs arbitrary: h)
  case (Cons c cs)
  obtain a r where c: "c = (a, r)" by (cases c)
  have "LimiterLookupByID (ph_lim (snd (ServeHTTP W a r h))) i = Some m"
    using Cons.prems(1) by (simp add: LimiterLookupByID_def split: option.split)
  with Cons c show ?case by (simp add: serve_each_def)
qed (simp add: serve_each_def)

lemma limiter_ok_load:
  assumes "limiter_ok t l" and "t \<le> now" and "\<forall>d ms. unmarshal J d = Inr ms \<longrightarrow> list_all f64_limit ms"
  shows "limiter_ok now (snd (LimiterLoad J rd now l))"
proof (cases rd)
  case (RData d)
  show ?thesis
  proof (cases "unmarshal J d")
    case (Inr ms)
    then show ?thesis
      using limiter_ok_fold_Set [OF limiter_ok_empty] assms(3) by (simp add: RData load_is_fold_set list_all_iff)
  qed (simp add: RData LimiterLoad_def limiter_ok_later [OF assms(1,2)])
qed (simp_all add: LimiterLoad_def limiter_ok_empty limiter_ok_later [OF assms(1,2)])

lemma limiter_after_reload:
  "ph_lim (snd (gateway_step W (Reloaded b R fs) h)) =
     snd (LimiterLoad (rl_limits R) (ReadFile (wo_faults W) fs (lm_path (ph_lim h))) (an_nanos b) (ph_lim h))"
  by (simp add: reload_def Let_def split: prod.split)

text \<open>What a reload can add: one more capacity.\<close>

definition run_budget :: "rat \<Rightarrow> rat \<Rightarrow> gateway_event list \<Rightarrow> int \<Rightarrow> rat" where
  "run_budget cap rate es T = budget cap rate (length es) T + of_nat (reloads es) * cap"

lemma budget_split:
  assumes "0 \<le> cap"
  shows "budget cap rate (length cs) (T - T1) + run_budget cap rate es (T2 - T) \<le>
    run_budget cap rate (served cs @ Reloaded b R fs # es) (T2 - T1)"
proof -
  let ?c = "cap / 2 ^ 53"
  define earn where "earn D = rate * ulp1 ^ 4 * (of_int D / 10 ^ 9)" for D :: int
  have "(of_int (T2 - T1) :: rat) = of_int (T - T1) + of_int (T2 - T)" by simp
  then have e: "earn (T2 - T1) = earn (T - T1) + earn (T2 - T)"
    unfolding earn_def by (simp only: add_divide_distrib distrib_left)
  have n: "of_nat (length (served cs @ Reloaded b R fs # es)) * ?c =
      of_nat (length cs) * ?c + of_nat (length es) * ?c + ?c"
    by (simp add: algebra_simps)
  have r: "of_nat (reloads (served cs @ Reloaded b R fs # es)) * cap = of_nat (reloads es) * cap + cap"
    unfolding reloads_served by (simp add: algebra_simps)
  have "0 \<le> ?c" using assms by simp
  then show ?thesis unfolding run_budget_def budget_def earn_def [symmetric] e n r by linarith
qed

lemma served_or_before:
  assumes "sorted (t0 # map event_nanos (served cs @ Reloaded b R fs # es))"
  shows "sorted (t0 # map (\<lambda>c. an_nanos (fst c)) cs) \<and> t0 \<le> an_nanos b \<and> sorted (an_nanos b # map event_nanos es) \<and>
     (\<forall>c \<in> set cs. an_nanos (fst c) \<le> an_nanos b)"
  using assms by (auto simp: sorted_append comp_def split_beta)

lemma run_bound:
  assumes "limiter_ok t0 (ph_lim h)" and "limit_stays i m W es h" and "li_Mode m \<noteq> ''alert_only''"
    and "sorted (t0 # map event_nanos es)" and "\<forall>e \<in> set es. T1 \<le> event_nanos e \<and> event_nanos e \<le> T2" and "T1 \<le> T2"
    and "li_RPS m \<le> 2 ^ 53" and "li_RPM m \<le> 2 ^ 53" and "list_all decodes_floats es"
  shows "(0 < li_RPS m \<longrightarrow> of_nat (sent i W es h) \<le> run_budget (li_RPS m) (li_RPS m) es (T2 - T1)) \<and>
     (0 < li_RPM m \<longrightarrow> of_nat (sent i W es h) \<le> run_budget (li_RPM m) (fdiv (li_RPM m) 60) es (T2 - T1))"
  using assms
proof (induction es arbitrary: t0 h T1 rule: length_induct)
  case (1 es)
  note now = limit_stays_now [OF "1.prems"(2)]
  show ?case
  proof (cases es rule: first_reload)
    case (only cs)
    have "reloads es = 0" "sent i W es h = requests_sent i W cs h"
      using reloads_served [of cs "[]"] sent_served [of i W cs "[]" h] only by simp_all
    then show ?thesis
      using segment_bound [OF "1.prems"(1) now "1.prems"(3) _ _ "1.prems"(6-8), of cs W] "1.prems"(4,5)
      by (simp add: only run_budget_def comp_def split_beta)
  next
    case (more cs b R fs rest)
    let ?h = "snd (gateway_step W (Reloaded b R fs) (serve_each W cs h))" let ?t = "an_nanos b"
    note srt = served_or_before [OF "1.prems"(4) [unfolded more]]
    have win: "T1 \<le> ?t" "?t \<le> T2" "\<forall>e \<in> set rest. ?t \<le> event_nanos e \<and> event_nanos e \<le> T2"
      using "1.prems"(5) srt by (auto simp: more)
    have early: "\<forall>c \<in> set cs. T1 \<le> an_nanos (fst c)"
    proof
      fix c assume "c \<in> set cs"
      then have "Served (fst c) (snd c) \<in> set es" by (force simp: more)
      then show "T1 \<le> an_nanos (fst c)" using "1.prems"(5) by fastforce
    qed
    have "sorted (t0 # map snd (checks W cs h))" "\<forall>t \<in> set (t0 # map snd (checks W cs h)). t \<le> ?t"
      using checks_times [of W cs h] srt by fastforce+
    then have "limiter_ok ?t (ph_lim (serve_each W cs h))"
      unfolding serve_each_limiter by (rule limiter_ok_CheckAll [OF "1.prems"(1)])
    then have ok: "limiter_ok ?t (ph_lim ?h)"
      unfolding limiter_after_reload using "1.prems"(9) by (intro limiter_ok_load [where t = ?t]) (simp_all add: more)
    have stays: "limit_stays i m W rest ?h"
      using limit_stays_served [of i m W cs "Reloaded b R fs # rest" h] "1.prems"(2) by (simp add: more)
    have ih: "(0 < li_RPS m \<longrightarrow> of_nat (sent i W rest ?h) \<le> run_budget (li_RPS m) (li_RPS m) rest (T2 - ?t)) \<and>
       (0 < li_RPM m \<longrightarrow> of_nat (sent i W rest ?h) \<le> run_budget (li_RPM m) (fdiv (li_RPM m) 60) rest (T2 - ?t))"
      using "1.IH" ok stays "1.prems"(3) srt win "1.prems"(7-9) by (simp add: more)
    have seg: "(0 < li_RPS m \<longrightarrow> of_nat (requests_sent i W cs h) \<le> budget (li_RPS m) (li_RPS m) (length cs) (?t - T1)) \<and>
       (0 < li_RPM m \<longrightarrow> of_nat (requests_sent i W cs h) \<le> budget (li_RPM m) (fdiv (li_RPM m) 60) (length cs) (?t - T1))"
      using srt win early by (intro segment_bound [OF "1.prems"(1) now "1.prems"(3) _ _ _ "1.prems"(7,8)]) auto
    have "(of_nat (sent i W es h) :: rat) = of_nat (requests_sent i W cs h) + of_nat (sent i W rest ?h)"
      by (simp add: more sent_served)
    then show ?thesis
      using ih seg budget_split [of "li_RPS m" "li_RPS m" cs ?t T1 rest T2 b R fs]
        budget_split [of "li_RPM m" "fdiv (li_RPM m) 60" cs ?t T1 rest T2 b R fs]
      unfolding more by linarith
  qed
qed

text \<open>
  C7: the traffic of an agent is bounded end to end, reloads included. In every window of a run, as long
  as the quota file gives the agent the same limit in an enforcing mode, the number of requests that
  reach an upstream on its behalf, by key or by token, whatever the other agents send, is at most the
  capacity of its bucket plus its rate times the length of the window (up to rounding), plus one more
  capacity for every reload in the window: a reload fills the buckets again. This holds for the
  per-second and for the per-minute limit.
\<close>

theorem gateway_agent_budget:
  assumes "limiter_ok t0 (ph_lim h)" and "limit_stays i m W es h" and "li_Mode m \<noteq> ''alert_only''"
    and "sorted (t0 # map event_nanos es)" and "\<forall>e \<in> set es. T1 \<le> event_nanos e \<and> event_nanos e \<le> T2" and "T1 \<le> T2"
    and "li_RPS m \<le> 2 ^ 53" and "li_RPM m \<le> 2 ^ 53" and "list_all decodes_floats es"
  shows "(0 < li_RPS m \<longrightarrow> of_nat (sent i W es h) \<le>
        budget (li_RPS m) (li_RPS m) (length es) (T2 - T1) + of_nat (reloads es) * li_RPS m) \<and>
     (0 < li_RPM m \<longrightarrow> of_nat (sent i W es h) \<le>
        budget (li_RPM m) (fdiv (li_RPM m) 60) (length es) (T2 - T1) + of_nat (reloads es) * li_RPM m)"
  using run_bound [OF assms] by (simp only: run_budget_def)

section \<open>One request against the audit log\<close>

text \<open>
  C21: anyone who can reach the proxy can blind the audit query. A request without credentials is
  answered 407 and recorded with its destination; if that makes a record of 262144 bytes or more
  (the HTTP server admits headers of a megabyte), every later query of the log, with any filter and
  whatever is written afterwards, returns only events from before it, with an error.
\<close>

theorem gateway_log_poisoning:
  fixes h :: proxyHandler and r :: Request and a :: answers and W :: world
  defines "e \<equiv> stamped (an_timestamp a) (no_identity_event a (request_id a h) [] r)"
    and "h' \<equiv> snd (ServeHTTP W a r h)" and "p \<equiv> lg_path (ph_alog h)"
  assumes "header_Get (rq_Header r) ''Proxy-Authorization'' = []"
    and "marshal (wo_events W) e = Inr l" and "newline \<notin> set l" and "262144 \<le> length l"
    and "log_ok (ph_alog h) (ph_fs h)" and "lg_open (ph_alog h)" and "f_append (wo_faults W) p = None"
    and "ph_fs h' p = Some c" and "later p = Some (c @ rest)" and "f_read G p = None"
  shows "statuses (fst (ServeHTTP W a r h)) = [407] \<and>
     Query J T G later p f =
       (tail_limit (ft_Limit f) (filter (matching T f) (logged J (ph_alog h) (ph_fs h))),
        Some ''bufio.Scanner: token too long'')"
proof -
  have "extractProxyAuth r = ([], [], [])" using assms(4) by (simp add: extractProxyAuth_def)
  then have "authenticate W a r h = ([], None)" by (simp add: authenticate_def)
  then have v: "verdict W a r h = NoIdentity []" by (simp add: verdict_def)
  obtain c0 where c0: "ph_fs h p = Some c0" "ends_line c0" "ScanErr c0 = None"
    using assms(8) by (auto simp: log_ok_def p_def)
  have "h' = (charged W a r h)\<lparr>ph_fs := snd (AuditWrite (wo_events W) (wo_faults W) (an_timestamp a)
      (no_identity_event a (request_id a h) [] r) (ph_alog h) (ph_fs h))\<rparr>"
    by (simp add: h'_def ServeHTTP_verdict v writeAudit_state charged_def)
  then have "ph_fs h' p = Some (c0 @ l @ [newline])"
    using assms(5,9,10) c0(1)
    by (simp add: AuditWrite_def stamped_def [symmetric] e_def [symmetric] AppendFile_def p_def)
  then have "later p = Some (c0 @ l @ newline # rest)" using assms(11,12) by simp
  from long_line_hides_rest [OF c0(2,3) assms(6,7,13), of later rest J T f, OF this]
  show ?thesis using c0(1) by (simp add: ServeHTTP_verdict v logged_def p_def)
qed

section \<open>Reload\<close>

lemma loaded_limit:
  "(LimiterLookupByID (snd (LimiterLoad J rd now l)) i, mget (lm_buckets (snd (LimiterLoad J rd now l))) i) =
     (case rd of RNotExist \<Rightarrow> (None, None)
      | RError e \<Rightarrow> (LimiterLookupByID l i, mget (lm_buckets l) i)
      | RData d \<Rightarrow> (case unmarshal J d of
          Inl e \<Rightarrow> (LimiterLookupByID l i, mget (lm_buckets l) i)
        | Inr ms \<Rightarrow> (case find (\<lambda>m. li_AgentID m = i) (rev ms) of
            Some m \<Rightarrow> (Some (with_mode m), Some (new_buckets now (with_mode m))) | None \<Rightarrow> (None, None))))"
proof (cases rd)
  case (RData d)
  show ?thesis
  proof (cases "unmarshal J d")
    case (Inr ms)
    let ?e = "l\<lparr>lm_limits := [], lm_buckets := []\<rparr>" let ?f = "fold (LimiterSet now) ms ?e"
    have "tables_ok ?e" by (simp add: tables_ok_def)
    moreover have "LimiterLookupByID ?e i = None" by (simp add: LimiterLookupByID_def)
    ultimately have look: "LimiterLookupByID ?f i = (case find (\<lambda>m. li_AgentID m = i) (rev ms) of
        Some m \<Rightarrow> Some (with_mode m) | None \<Rightarrow> None)"
      using quota_store.lookup_fold_add [of ?e now ms i] by (simp only:)
    have "mget (lm_buckets ?f) i = map_option (new_buckets now) (LimiterLookupByID ?f i)"
      unfolding LimiterLookupByID_def by (rule fold_Set_buckets) simp
    then show ?thesis using look Inr by (simp add: RData load_is_fold_set [OF Inr] split: option.split)
  qed (simp add: RData LimiterLoad_def)
qed (simp_all add: LimiterLoad_def LimiterLookupByID_def)

text \<open>
  C22: what a reload does. For each of the three tables: a file that cannot be read or parsed leaves it as
  it was, a missing file empties it, and a good file replaces it. So after a successful load a key
  identifies exactly the last record of the file that has it, if that record is active; the rules are
  those of the file, and none (everything is denied) if it is missing; the limit of an agent is the last
  one of the file, none if it has none, and its buckets are full. Nothing else of the gateway changes.
\<close>

theorem gateway_reload:
  fixes W :: world
  defines "F \<equiv> wo_faults W"
  shows "(let h' = snd (reload W b R h) in
     LookupByKey (ph_reg h') key =
      (case ReadFile F (ph_fs h) (rg_path (ph_reg h)) of
         RNotExist \<Rightarrow> None
       | RError e \<Rightarrow> LookupByKey (ph_reg h) key
       | RData d \<Rightarrow> (case unmarshal (rl_agents R) d of
           Inl e \<Rightarrow> LookupByKey (ph_reg h) key
         | Inr as \<Rightarrow> (case find (\<lambda>g. ag_APIKey g = key) (rev as) of
             Some g \<Rightarrow> if ag_Status g = ''active'' then Some g else None
           | None \<Rightarrow> None))) \<and>
     EvaluateRich (wo_unicode W) (ph_eng h') ctx =
      (case ReadFile F (ph_fs h) (en_path (ph_eng h)) of
         RNotExist \<Rightarrow> default_deny
       | RError e \<Rightarrow> EvaluateRich (wo_unicode W) (ph_eng h) ctx
       | RData d \<Rightarrow> (case unmarshal (rl_rules R) d of
           Inl e \<Rightarrow> EvaluateRich (wo_unicode W) (ph_eng h) ctx
         | Inr rs \<Rightarrow> EvaluateRich (wo_unicode W) ((ph_eng h)\<lparr>en_rules := rs\<rparr>) ctx)) \<and>
     (LimiterLookupByID (ph_lim h') i, mget (lm_buckets (ph_lim h')) i) =
      (case ReadFile F (ph_fs h) (lm_path (ph_lim h)) of
         RNotExist \<Rightarrow> (None, None)
       | RError e \<Rightarrow> (LimiterLookupByID (ph_lim h) i, mget (lm_buckets (ph_lim h)) i)
       | RData d \<Rightarrow> (case unmarshal (rl_limits R) d of
           Inl e \<Rightarrow> (LimiterLookupByID (ph_lim h) i, mget (lm_buckets (ph_lim h)) i)
         | Inr ms \<Rightarrow> (case find (\<lambda>m. li_AgentID m = i) (rev ms) of
             Some m \<Rightarrow> (Some (with_mode m), Some (new_buckets (an_nanos b) (with_mode m)))
           | None \<Rightarrow> (None, None)))) \<and>
     ph_reqSeq h' = ph_reqSeq h \<and> ph_fs h' = ph_fs h \<and> ph_jwtSecret h' = ph_jwtSecret h \<and> ph_alog h' = ph_alog h)"
proof -
  let ?h = "snd (reload W b R h)"
  have st: "ph_reg ?h = snd (RegistryLoad (rl_agents R) (ReadFile F (ph_fs h) (rg_path (ph_reg h))) (ph_reg h))"
    "ph_eng ?h = snd (EngineLoad (rl_rules R) (ReadFile F (ph_fs h) (en_path (ph_eng h))) (ph_eng h))"
    "ph_lim ?h = snd (LimiterLoad (rl_limits R) (ReadFile F (ph_fs h) (lm_path (ph_lim h))) (an_nanos b) (ph_lim h))"
    "ph_reqSeq ?h = ph_reqSeq h" "ph_fs ?h = ph_fs h" "ph_jwtSecret ?h = ph_jwtSecret h" "ph_alog ?h = ph_alog h"
    by (simp_all add: reload_def split_beta F_def Let_def)
  have keys: "LookupByKey (snd (RegistryLoad (rl_agents R) rd (ph_reg h))) key =
      (case rd of RNotExist \<Rightarrow> None | RError e \<Rightarrow> LookupByKey (ph_reg h) key
       | RData d \<Rightarrow> (case unmarshal (rl_agents R) d of Inl e \<Rightarrow> LookupByKey (ph_reg h) key
         | Inr as \<Rightarrow> (case find (\<lambda>g. ag_APIKey g = key) (rev as) of
             Some g \<Rightarrow> if ag_Status g = ''active'' then Some g else None | None \<Rightarrow> None)))" for rd
  proof (cases rd)
    case (RData d)
    show ?thesis
    proof (cases "unmarshal (rl_agents R) d")
      case (Inr as)
      then show ?thesis
        by (simp add: RData load_is_fold_add LookupByKey_def byKey_fold_add split: option.splits)
    qed (simp add: RData RegistryLoad_def)
  qed (simp_all add: RegistryLoad_def LookupByKey_def)
  have rules: "EvaluateRich U (snd (EngineLoad (rl_rules R) rd (ph_eng h))) ctx =
      (case rd of RNotExist \<Rightarrow> default_deny | RError e \<Rightarrow> EvaluateRich U (ph_eng h) ctx
       | RData d \<Rightarrow> (case unmarshal (rl_rules R) d of Inl e \<Rightarrow> EvaluateRich U (ph_eng h) ctx
         | Inr rs \<Rightarrow> EvaluateRich U ((ph_eng h)\<lparr>en_rules := rs\<rparr>) ctx))" for rd U
    by (auto simp: EngineLoad_def EvaluateRich_def default_deny_def split: read_result.splits sum.splits)
  show ?thesis unfolding Let_def st keys rules loaded_limit by (intro conjI refl)
qed

section \<open>Concrete runs\<close>

definition limited_gateway :: proxyHandler where
  "limited_gateway = demo_gateway\<lparr>ph_lim := LimiterSet 0 ((demo_limit 1)\<lparr>li_AgentID := ''a1''\<rparr>) no_limits\<rparr>"

definition demo_reload :: reload_io where
  "demo_reload = \<lparr>rl_agents = \<lparr>marshal = (\<lambda>_. Inr ''A''), unmarshal = (\<lambda>_. Inr [demo_agent ''a1'' ''k1''])\<rparr>,
     rl_rules = \<lparr>marshal = (\<lambda>_. Inr ''R''), unmarshal = (\<lambda>_. Inr (en_rules evil_engine))\<rparr>,
     rl_limits = \<lparr>marshal = (\<lambda>_. Inr ''L''), unmarshal = (\<lambda>_. Inr [(demo_limit 1)\<lparr>li_AgentID := ''a1''\<rparr>])\<rparr>\<rparr>"

theorem gateway_agent_budget_witness:
  defines "five \<equiv> replicate 5 (demo_answers, demo_request ''www.example.org'' (basic_auth ''me'' ''k1''))"
  shows "sent ''a1'' demo_world (served five @ Reloaded demo_answers demo_reload (\<lambda>_. Some ''Q'') # served five) limited_gateway \<le> 2"
proof -
  let ?re = "Reloaded demo_answers demo_reload (\<lambda>_. Some ''Q'')" let ?es = "served five @ ?re # served five"
  let ?m = "(demo_limit 1)\<lparr>li_AgentID := ''a1''\<rparr>" let ?m' = "?m\<lparr>li_Mode := ''hard_stop''\<rparr>"
  have l: "ph_lim limited_gateway = LimiterSet 0 ?m no_limits" by (simp add: limited_gateway_def)
  have ok: "limiter_ok 0 (ph_lim limited_gateway)"
    unfolding l by (rule limiter_ok_Set [OF limiter_ok_no_limits]) (simp add: f64_limit_def demo_limit_def)
  have look: "LimiterLookupByID (LimiterSet t ?m x) ''a1'' = Some ?m'" for t x
    by (simp add: LimiterLookupByID_def LimiterSet_def with_mode_def demo_limit_def Let_def)
  have again: "LimiterLookupByID (ph_lim (snd (gateway_step demo_world ?re h))) ''a1'' = Some ?m'" for h
    unfolding limiter_after_reload
    by (simp add: ReadFile_def demo_world_def no_faults_simps demo_reload_def load_is_fold_set look)
  have stays: "limit_stays ''a1'' ?m' demo_world ?es limited_gateway"
    using look again limit_staysI [of _ "''a1''" ?m' demo_world "[]"] by (intro limit_staysI) (simp_all add: l del: gateway_step.simps)
  have t: "event_nanos e = 0" if "e \<in> set ?es" for e using that by (auto simp: five_def demo_answers_def)
  have srt: "sorted (0 # map event_nanos ?es)"
    using t by (simp add: five_def map_replicate_const sorted_append demo_answers_def del: replicate.simps)
  have dec: "list_all decodes_floats ?es"
    by (auto simp: list_all_iff five_def demo_reload_def f64_limit_def demo_limit_def)
  have n: "length ?es = 11" "reloads ?es = 1"
    using reloads_served [of five "?re # served five"] reloads_served [of five "[]"] by (simp_all add: five_def)
  have "(of_nat (sent ''a1'' demo_world ?es limited_gateway) :: rat) \<le> budget 1 1 11 (0 - 0) + 1 * 1"
    using gateway_agent_budget [OF ok stays _ srt _ _ _ _ dec, of 0 0] t n by (simp add: demo_limit_def)
  then have "(of_nat (sent ''a1'' demo_world ?es limited_gateway) :: rat) < of_nat 3" by (simp add: budget_def)
  then show ?thesis by (simp only: of_nat_less_iff)
qed

definition long_line :: string where
  "long_line = replicate 262144 (CHR ''x'')"

definition wide_json :: "Event json" where
  "wide_json = \<lparr>marshal = (\<lambda>e. Inr long_line), unmarshal = (\<lambda>_. Inl ''bad'')\<rparr>"

theorem gateway_log_poisoning_witness:
  "\<exists>c. Query demo_event_json no_times no_faults [''audit.jsonl'' \<mapsto> c @ ''Ea'' @ [newline]] ''audit.jsonl'' all_events =
     ([], Some ''bufio.Scanner: token too long'')"
proof -
  let ?W = "demo_world\<lparr>wo_events := wide_json\<rparr>" and ?r = "demo_request ''x'' []"
  have l: "newline \<notin> set long_line" "262144 \<le> length long_line"
    unfolding long_line_def
    by (simp only: set_replicate_conv_if, simp add: newline_def) (simp only: length_replicate)
  have p: "lg_path (ph_alog demo_gateway) = ''audit.jsonl''" "lg_open (ph_alog demo_gateway)"
    "f_append (wo_faults ?W) (lg_path (ph_alog demo_gateway)) = None"
    by (simp_all add: demo_gateway_def demo_log_def demo_world_def no_faults_simps)
  have ok: "log_ok (ph_alog demo_gateway) (ph_fs demo_gateway)"
    by (simp add: log_ok_def demo_gateway_def demo_log_def ends_line_def ScanErr_def)
  have lg: "logged demo_event_json (ph_alog demo_gateway) (ph_fs demo_gateway) = []"
    by (simp add: logged_def demo_gateway_def demo_log_def events_in_def ScanLines_def)
  have m: "marshal (wo_events ?W) e = Inr long_line" for e
    by (simp add: wide_json_def)
  have mw: "marshal wide_json e = Inr long_line" for e by (simp add: wide_json_def)
  obtain c where c: "ph_fs (snd (ServeHTTP ?W demo_answers ?r demo_gateway)) ''audit.jsonl'' = Some c"
  proof -
    have "verdict ?W demo_answers ?r demo_gateway = NoIdentity []"
      by (simp add: verdict_def authenticate_def extractProxyAuth_def demo_auth)
    then have "\<exists>c. ph_fs (snd (ServeHTTP ?W demo_answers ?r demo_gateway)) ''audit.jsonl'' = Some c"
      by (simp only: ServeHTTP_verdict verdict.case and_then_state emit_reads writeAudit_state)
        (simp add: AuditWrite_def Let_def mw AppendFile_def charged_def demo_gateway_def demo_log_def
          demo_world_def no_faults_simps)
    then show ?thesis using that by blast
  qed
  have rd: "f_read no_faults (lg_path (ph_alog demo_gateway)) = None" by (simp add: no_faults_simps)
  have "Query demo_event_json no_times no_faults [''audit.jsonl'' \<mapsto> c @ ''Ea'' @ [newline]] ''audit.jsonl'' all_events =
     ([], Some ''bufio.Scanner: token too long'')"
    using gateway_log_poisoning [where h = demo_gateway and r = ?r and W = ?W and a = demo_answers,
      OF demo_auth m l ok p(2,3), unfolded p(1), OF c, of "[''audit.jsonl'' \<mapsto> c @ ''Ea'' @ [newline]]"
        "''Ea'' @ [newline]" no_faults demo_event_json no_times all_events]
    by (simp add: no_faults_simps lg tail_limit_def)
  then show ?thesis by blast
qed

theorem gateway_reload_witness:
  "LookupByKey (ph_reg (snd (reload demo_world demo_answers
     \<lparr>rl_agents = one_agent_json, rl_rules = undefined, rl_limits = undefined\<rparr> demo_gateway))) ''k1'' = None"
  using gateway_reload [of demo_world demo_answers
    "\<lparr>rl_agents = one_agent_json, rl_rules = undefined, rl_limits = undefined\<rparr>" demo_gateway "''k1''"]
  by (simp add: Let_def ReadFile_def demo_world_def no_faults_simps demo_gateway_def RegistryAdd_def empty_registry_def)

end
