(* ===== verification/Json_Values.thy ===== *)
theory Json_Values
  imports Go_Text Complex_Main
begin

text \<open>
  The dynamic values that configuration changes are made of: what \<open>encoding/json\<close> puts into an \<open>any\<close>
  (\<open>nil\<close>, \<open>bool\<close>, \<open>float64\<close>, \<open>string\<close>, \<open>[]any\<close>, \<open>map[string]any\<close>), and \<open>int\<close>, which Go code can
  put there itself. A number is a rational; the infinities and NaN, which \<open>strconv.ParseFloat\<close> can give,
  are \<open>VSpecial\<close> with the text \<open>fmt\<close> prints for them. The order of the entries of a map stands for Go's
  unspecified iteration order.
\<close>

datatype val =
    VNil
  | VBool bool
  | VFloat rat
  | VInt int
  | VStr string
  | VArr "val list"
  | VMap "(string \<times> val) list"
  | VSpecial string

type_synonym vmap = "(string, val) gomap"

text \<open>All maps inside a value have distinct keys.\<close>

fun val_ok :: "val \<Rightarrow> bool" where
  "val_ok (VArr xs) = (\<forall>x \<in> set xs. val_ok x)"
| "val_ok (VMap m) = (gomap_ok m \<and> (\<forall>p \<in> set m. val_ok (snd p)))"
| "val_ok _ = True"

text \<open>Type assertions with the comma-ok form.\<close>

definition as_map :: "val \<Rightarrow> vmap option" where
  "as_map v = (case v of VMap m \<Rightarrow> Some m | _ \<Rightarrow> None)"

definition as_string :: "val \<Rightarrow> string option" where
  "as_string v = (case v of VStr s \<Rightarrow> Some s | _ \<Rightarrow> None)"

definition as_bool :: "val \<Rightarrow> bool option" where
  "as_bool v = (case v of VBool b \<Rightarrow> Some b | _ \<Rightarrow> None)"

lemma as_simps [simp]:
  "as_map (VMap m) = Some m" "as_map VNil = None" "as_map (VStr s) = None" "as_map (VArr xs) = None"
  "as_map (VBool b) = None" "as_map (VFloat x) = None" "as_map (VInt i) = None" "as_map (VSpecial t) = None"
  "as_string (VStr s) = Some s" "as_string VNil = None" "as_string (VMap m) = None"
  "as_string (VArr xs) = None" "as_string (VBool b) = None" "as_string (VFloat x) = None"
  "as_string (VInt i) = None" "as_string (VSpecial t) = None"
  "as_bool (VBool b) = Some b" "as_bool VNil = None" "as_bool (VMap m) = None"
  "as_bool (VStr s) = None" "as_bool (VArr xs) = None" "as_bool (VFloat x) = None" "as_bool (VInt i) = None"
  "as_bool (VSpecial t) = None"
  by (simp_all add: as_map_def as_string_def as_bool_def)

lemma as_map_Some: "as_map v = Some m \<longleftrightarrow> v = VMap m"
  by (cases v) auto

text \<open>Indexing a map with a missing key gives the zero value of \<open>any\<close>.\<close>

definition mindex :: "vmap \<Rightarrow> string \<Rightarrow> val" where
  "mindex m k = (case mget m k of Some v \<Rightarrow> v | None \<Rightarrow> VNil)"

text \<open>The loop that the accessors of the planner and of the command line share: it ends early on a value
  that is not a map or a missing key.\<close>

fun walk :: "val \<Rightarrow> string list \<Rightarrow> val option" where
  "walk cur [] = Some cur"
| "walk cur (p # path) = (case as_map cur of None \<Rightarrow> None
     | Some m \<Rightarrow> (case mget m p of None \<Rightarrow> None | Some v \<Rightarrow> walk v path))"

end
