(* ===== verification/Opmode_Store.thy ===== *)
theory Opmode_Store
  imports Json_Values Go_Files
begin

text \<open>
  The commit store (internal/opmode/store.go): a staged revision, an active revision, a history of
  commits and an audit file, each a file of one directory. Every operation runs under the store's
  mutex, so a run is a sequence of whole operations. The clock, the random bytes and the JSON codecs
  are the record \<open>op_env\<close>; the file faults are a parameter of each operation.
\<close>

section \<open>Types\<close>

record ConfigureRequest =
  cr_Actor :: string
  cr_Changes :: vmap

record ConfigureResponse =
  cs_RevisionID :: string
  cs_Status :: string
  cs_Validated :: bool
  cs_Timestamp :: int

record CommitRequest =
  cq_Actor :: string
  cq_ExpectedRevisionID :: string
  cq_OpsMode :: string

text \<open>The fields of \<open>CommitResponse\<close> that this package sets; the admin API fills in the others.\<close>

record CommitResponse =
  cp_CommitID :: string
  cp_RevisionID :: string
  cp_Status :: string
  cp_Timestamp :: int

record Revision =
  rv_RevisionID :: string
  rv_Actor :: string
  rv_Changes :: vmap
  rv_CreatedAt :: int

record CommitRecord =
  co_CommitID :: string
  co_RevisionID :: string
  co_Actor :: string
  co_Committed :: int

record StateView =
  sv_Staged :: "Revision option"
  sv_Active :: "Revision option"
  sv_LastCommit :: "CommitRecord option"
  sv_HistorySize :: nat

record Store =
  st_baseDir :: string

datatype store_error = ErrNoStagedRevision | ErrRevisionMismatch | StoreError error

record op_env =
  oe_revision :: "Revision json"
  oe_commit :: "CommitRecord json"
  oe_audit :: "(string \<times> string) list \<Rightarrow> error + string"
  oe_now :: int
  oe_stamp :: string
  oe_rand :: "error + string"

section \<open>Files\<close>

text \<open>\<open>filepath.Join\<close> for a base directory in clean form and a plain file name.\<close>

definition store_path :: "Store \<Rightarrow> string \<Rightarrow> string" where
  "store_path s name = st_baseDir s @ ''/'' @ name"

definition newID :: "op_env \<Rightarrow> string \<Rightarrow> error + string" where
  "newID E pre = (case oe_rand E of
     Inl e \<Rightarrow> Inl (''generate random id: '' @ e)
   | Inr buf \<Rightarrow> Inr (pre @ ''_'' @ fmt_d (oe_now E div 10 ^ 9) @ ''_'' @ hex_encode buf))"

definition writeJSONAtomic :: "'a json \<Rightarrow> faults \<Rightarrow> string \<Rightarrow> 'a \<Rightarrow> fs \<Rightarrow> error option \<times> fs" where
  "writeJSONAtomic J F path v fs = (case marshal J v of
     Inl e \<Rightarrow> (Some e, fs)
   | Inr data \<Rightarrow>
      (let tmp = tmp_path path in
       case WriteFile F tmp (data @ [newline]) fs of
         (Some e, fs) \<Rightarrow> (Some e, fs)
       | (None, fs) \<Rightarrow> Rename F tmp path fs))"

datatype 'a read_json = JNotExist | JError error | JValue 'a

definition readJSON :: "'a json \<Rightarrow> faults \<Rightarrow> fs \<Rightarrow> string \<Rightarrow> 'a read_json" where
  "readJSON J F fs path = (case ReadFile F fs path of
     RNotExist \<Rightarrow> JNotExist
   | RError e \<Rightarrow> JError e
   | RData data \<Rightarrow> (case unmarshal J data of Inl e \<Rightarrow> JError e | Inr v \<Rightarrow> JValue v))"

text \<open>
  \<open>json.Encoder.Encode\<close> writes the encoding and a newline; the file is opened, and so created, even
  if the value cannot be encoded.
\<close>

definition appendJSONLine :: "'a json \<Rightarrow> faults \<Rightarrow> string \<Rightarrow> 'a \<Rightarrow> fs \<Rightarrow> error option \<times> fs" where
  "appendJSONLine J F path v fs = (case marshal J v of
     Inl e \<Rightarrow> (case f_append F path of
         Some e' \<Rightarrow> (Some e', fs)
       | None \<Rightarrow> (Some e, fs(path := Some (case fs path of Some c \<Rightarrow> c | None \<Rightarrow> []))))
   | Inr line \<Rightarrow> AppendFile F path (line @ [newline]) fs)"

definition appendAudit :: "op_env \<Rightarrow> faults \<Rightarrow> string \<Rightarrow> (string \<times> string) list \<Rightarrow> fs \<Rightarrow> error option \<times> fs" where
  "appendAudit E F path v fs = (case oe_audit E v of
     Inl e \<Rightarrow> (Some e, fs)
   | Inr line \<Rightarrow> AppendFile F path (line @ [newline]) fs)"

fun splitLoop :: "string \<Rightarrow> string \<Rightarrow> string list" where
  "splitLoop cur [] = (if cur \<noteq> [] then [cur] else [])"
| "splitLoop cur (b # bs) = (if b = newline then cur # splitLoop [] bs else splitLoop (cur @ [b]) bs)"

text \<open>\<open>cur\<close> is \<open>data[start:i]\<close>, the bytes since the last newline.\<close>

definition bytesSplitLines :: "string \<Rightarrow> string list" where
  "bytesSplitLines data = splitLoop [] data"

fun parseCommits :: "CommitRecord json \<Rightarrow> string list \<Rightarrow> error + CommitRecord list" where
  "parseCommits J [] = Inr []"
| "parseCommits J (line # lines) =
    (if length line = 0 then parseCommits J lines
     else (case unmarshal J line of
       Inl e \<Rightarrow> Inl e
     | Inr c \<Rightarrow> (case parseCommits J lines of Inl e \<Rightarrow> Inl e | Inr cs \<Rightarrow> Inr (c # cs))))"

definition readCommitHistory :: "CommitRecord json \<Rightarrow> faults \<Rightarrow> fs \<Rightarrow> string \<Rightarrow> CommitRecord list read_json" where
  "readCommitHistory J F fs path = (case ReadFile F fs path of
     RNotExist \<Rightarrow> JNotExist
   | RError e \<Rightarrow> JError e
   | RData data \<Rightarrow> (if length data = 0 then JValue []
       else (case parseCommits J (bytesSplitLines data) of Inl e \<Rightarrow> JError e | Inr cs \<Rightarrow> JValue cs)))"

section \<open>Operations\<close>

definition NewStore :: "faults \<Rightarrow> string \<Rightarrow> error + Store" where
  "NewStore F baseDir =
    (let baseDir = (if baseDir = [] then ''state'' else baseDir) in
     case f_mkdir F baseDir of
       Some e \<Rightarrow> Inl (''create state dir: '' @ e)
     | None \<Rightarrow> Inr \<lparr>st_baseDir = baseDir\<rparr>)"

definition Configure ::
  "op_env \<Rightarrow> faults \<Rightarrow> Store \<Rightarrow> ConfigureRequest \<Rightarrow> fs \<Rightarrow> (store_error + ConfigureResponse) \<times> fs" where
  "Configure E F s req fs = (case newID E ''rev'' of
     Inl e \<Rightarrow> (Inl (StoreError e), fs)
   | Inr revisionID \<Rightarrow>
      (let rev = \<lparr>rv_RevisionID = revisionID, rv_Actor = cr_Actor req, rv_Changes = cr_Changes req,
                  rv_CreatedAt = oe_now E\<rparr> in
       case writeJSONAtomic (oe_revision E) F (store_path s ''staged.json'') rev fs of
         (Some e, fs) \<Rightarrow> (Inl (StoreError e), fs)
       | (None, fs) \<Rightarrow>
          (case appendAudit E F (store_path s ''audit.log'')
              [(''event'', ''configure''), (''actor'', cr_Actor req), (''revision_id'', revisionID),
               (''timestamp'', oe_stamp E)] fs of
             (Some e, fs) \<Rightarrow> (Inl (StoreError e), fs)
           | (None, fs) \<Rightarrow>
              (Inr \<lparr>cs_RevisionID = revisionID, cs_Status = ''staged'', cs_Validated = True,
                    cs_Timestamp = oe_now E\<rparr>, fs))))"

definition Commit ::
  "op_env \<Rightarrow> faults \<Rightarrow> Store \<Rightarrow> CommitRequest \<Rightarrow> fs \<Rightarrow> (store_error + CommitResponse) \<times> fs" where
  "Commit E F s req fs = (case readJSON (oe_revision E) F fs (store_path s ''staged.json'') of
     JNotExist \<Rightarrow> (Inl ErrNoStagedRevision, fs)
   | JError e \<Rightarrow> (Inl (StoreError e), fs)
   | JValue staged \<Rightarrow>
      if cq_ExpectedRevisionID req \<noteq> [] \<and> cq_ExpectedRevisionID req \<noteq> rv_RevisionID staged then
        (Inl ErrRevisionMismatch, fs)
      else (case newID E ''cmt'' of
        Inl e \<Rightarrow> (Inl (StoreError e), fs)
      | Inr commitID \<Rightarrow>
       (case writeJSONAtomic (oe_revision E) F (store_path s ''active.json'') staged fs of
          (Some e, fs) \<Rightarrow> (Inl (StoreError e), fs)
        | (None, fs) \<Rightarrow>
         (let record = \<lparr>co_CommitID = commitID, co_RevisionID = rv_RevisionID staged,
                        co_Actor = cq_Actor req, co_Committed = oe_now E\<rparr> in
          case appendJSONLine (oe_commit E) F (store_path s ''commits.jsonl'') record fs of
            (Some e, fs) \<Rightarrow> (Inl (StoreError e), fs)
          | (None, fs) \<Rightarrow>
           (case appendAudit E F (store_path s ''audit.log'')
               [(''event'', ''commit''), (''actor'', cq_Actor req), (''commit_id'', commitID),
                (''revision_id'', rv_RevisionID staged), (''timestamp'', oe_stamp E)] fs of
              (Some e, fs) \<Rightarrow> (Inl (StoreError e), fs)
            | (None, fs) \<Rightarrow>
             (case RemoveFile F (store_path s ''staged.json'') fs of
                (RemError e, fs) \<Rightarrow> (Inl (StoreError e), fs)
              | (_, fs) \<Rightarrow>
                 (Inr \<lparr>cp_CommitID = commitID, cp_RevisionID = rv_RevisionID staged,
                       cp_Status = ''committed'', cp_Timestamp = oe_now E\<rparr>, fs)))))))"

definition revision_of :: "Revision read_json \<Rightarrow> Revision option" where
  "revision_of r = (case r of JValue v \<Rightarrow> Some v | _ \<Rightarrow> None)"

definition State :: "op_env \<Rightarrow> faults \<Rightarrow> Store \<Rightarrow> fs \<Rightarrow> store_error + StateView" where
  "State E F s fs =
    (let staged = revision_of (readJSON (oe_revision E) F fs (store_path s ''staged.json''));
         active = revision_of (readJSON (oe_revision E) F fs (store_path s ''active.json'')) in
     case readCommitHistory (oe_commit E) F fs (store_path s ''commits.jsonl'') of
       JError e \<Rightarrow> Inl (StoreError e)
     | JNotExist \<Rightarrow> Inr \<lparr>sv_Staged = staged, sv_Active = active, sv_LastCommit = None, sv_HistorySize = 0\<rparr>
     | JValue commits \<Rightarrow> Inr \<lparr>sv_Staged = staged, sv_Active = active,
         sv_LastCommit = (if length commits > 0 then Some (commits ! (length commits - 1)) else None),
         sv_HistorySize = length commits\<rparr>)"

section \<open>Basic facts\<close>

lemma store_path_inject [simp]: "store_path s a = store_path s b \<longleftrightarrow> a = b"
  by (simp add: store_path_def)

lemma store_path_tmp [simp]: "tmp_path (store_path s a) = store_path s (tmp_path a)"
  by (simp add: store_path_def tmp_path_def)

lemma tmp_names [simp]:
  "tmp_path ''staged.json'' = ''staged.json.tmp''" "tmp_path ''active.json'' = ''active.json.tmp''"
  by (simp_all add: tmp_path_def)

lemma splitLoop_lines: "newline \<notin> set cur \<Longrightarrow> splitLoop cur bs = split_lines (cur @ bs)"
proof (induction cur bs rule: splitLoop.induct)
  case (1 cur)
  then show ?case by (simp add: split_lines_def)
next
  case (2 cur b bs)
  show ?case
  proof (cases "b = newline")
    case True
    have "split_lines ((cur @ [newline]) @ bs) = split_lines (cur @ [newline]) @ split_lines bs"
      by (rule split_lines_append) simp
    with True 2 show ?thesis by (simp add: split_lines_line)
  next
    case False
    with 2 show ?thesis by simp
  qed
qed

lemma bytesSplitLines_lines: "bytesSplitLines d = split_lines d"
  by (simp add: bytesSplitLines_def splitLoop_lines)

lemma parseCommits_append:
  "parseCommits J (xs @ ys) = (case parseCommits J xs of Inl e \<Rightarrow> Inl e
     | Inr cs \<Rightarrow> (case parseCommits J ys of Inl e \<Rightarrow> Inl e | Inr ds \<Rightarrow> Inr (cs @ ds)))"
  by (induction xs) (auto split: sum.splits)

section \<open>The revision files are written atomically\<close>

lemma writeJSONAtomic_rename:
  "writeJSONAtomic J F p v fs = (case marshal J v of Inl e \<Rightarrow> (Some e, fs)
     | Inr d \<Rightarrow> write_rename F [] [] p (d @ [newline]) fs)"
  by (simp add: writeJSONAtomic_def write_rename_def split: sum.splits prod.splits option.splits)

interpretation revision_file: atomic_file "\<lambda>F v fs. writeJSONAtomic J F p v fs"
  "\<lambda>v. map_sum (\<lambda>e. e) (\<lambda>d. d @ [newline]) (marshal J v)" "\<lambda>_. p"
  for J :: "'a json" and p :: string
proof unfold_locales
  fix F v fs fs' err and q :: string
  show "writeJSONAtomic J F p v fs = (None, fs') \<Longrightarrow>
      \<exists>d. map_sum (\<lambda>e. e) (\<lambda>d. d @ [newline]) (marshal J v) = Inr d \<and> fs' p = Some d"
    by (auto simp: writeJSONAtomic_rename dest: write_rename_ok split: sum.splits)
  show "writeJSONAtomic J F p v fs = (Some err, fs') \<Longrightarrow> fs' p = fs p"
    by (auto simp: writeJSONAtomic_rename dest: write_rename_err split: sum.splits)
  show "q \<noteq> p \<Longrightarrow> q \<noteq> tmp_path p \<Longrightarrow> snd (writeJSONAtomic J F p v fs) q = fs q"
    by (auto simp: writeJSONAtomic_rename write_rename_frame split: sum.splits)
qed

lemma AppendFile_frame: "q \<noteq> p \<Longrightarrow> snd (AppendFile F p d fs) q = fs q"
  by (auto simp: AppendFile_def Let_def split: option.splits)

lemma appendJSONLine_frame: "q \<noteq> p \<Longrightarrow> snd (appendJSONLine J F p v fs) q = fs q"
  by (auto simp: appendJSONLine_def AppendFile_frame split: option.splits sum.splits)

lemma appendAudit_frame: "q \<noteq> p \<Longrightarrow> snd (appendAudit E F p v fs) q = fs q"
  by (auto simp: appendAudit_def AppendFile_frame split: sum.splits)

end
