(* ===== verification/Opmode_Props.thy ===== *)
theory Opmode_Props
  imports Opmode_Store
begin

text \<open>
  The contract of the commit store: an abstract store of a staged revision, an active revision and a
  history, which the file operations refine while no file operation fails; and what a failure leaves.
\<close>

section \<open>The abstract store\<close>

record abs_store =
  as_staged :: "Revision option"
  as_active :: "Revision option"
  as_history :: "CommitRecord list"

definition history_in :: "CommitRecord json \<Rightarrow> string option \<Rightarrow> CommitRecord list" where
  "history_in J oc = (case oc of None \<Rightarrow> [] | Some c \<Rightarrow>
     (case parseCommits J (split_lines c) of Inr cs \<Rightarrow> cs | Inl _ \<Rightarrow> []))"

definition abs_of :: "op_env \<Rightarrow> Store \<Rightarrow> fs \<Rightarrow> abs_store" where
  "abs_of E s fs =
    \<lparr>as_staged = revision_of (readJSON (oe_revision E) no_faults fs (store_path s ''staged.json'')),
     as_active = revision_of (readJSON (oe_revision E) no_faults fs (store_path s ''active.json'')),
     as_history = history_in (oe_commit E) (fs (store_path s ''commits.jsonl''))\<rparr>"

text \<open>The files are in order: the staged file decodes if it is there, and so does every commit line.\<close>

definition store_ok :: "op_env \<Rightarrow> Store \<Rightarrow> fs \<Rightarrow> bool" where
  "store_ok E s fs \<longleftrightarrow>
     (case fs (store_path s ''staged.json'') of None \<Rightarrow> True
      | Some d \<Rightarrow> \<exists>v. unmarshal (oe_revision E) d = Inr v) \<and>
     (case fs (store_path s ''commits.jsonl'') of None \<Rightarrow> True
      | Some c \<Rightarrow> ends_line c \<and> (\<exists>cs. parseCommits (oe_commit E) (split_lines c) = Inr cs))"

text \<open>Documented behaviour of \<open>encoding/json\<close> on the values of one operation.\<close>

definition rev_codec :: "op_env \<Rightarrow> Revision \<Rightarrow> bool" where
  "rev_codec E v \<longleftrightarrow> (case marshal (oe_revision E) v of Inl _ \<Rightarrow> False
     | Inr d \<Rightarrow> unmarshal (oe_revision E) (d @ [newline]) = Inr v)"

definition commit_codec :: "op_env \<Rightarrow> CommitRecord \<Rightarrow> bool" where
  "commit_codec E c \<longleftrightarrow> (case marshal (oe_commit E) c of Inl _ \<Rightarrow> False
     | Inr d \<Rightarrow> unmarshal (oe_commit E) d = Inr c \<and> d \<noteq> [] \<and> newline \<notin> set d)"

definition audit_codec :: "op_env \<Rightarrow> bool" where
  "audit_codec E \<longleftrightarrow> (\<forall>v. \<exists>d. oe_audit E v = Inr d)"

lemma readJSON_no_faults:
  "readJSON J no_faults fs p = (case fs p of None \<Rightarrow> JNotExist
     | Some d \<Rightarrow> (case unmarshal J d of Inl e \<Rightarrow> JError e | Inr v \<Rightarrow> JValue v))"
  by (simp add: readJSON_def ReadFile_def no_faults_simps split: option.splits)

lemma appends_no_faults:
  "AppendFile no_faults p d fs = (None, fs(p \<mapsto> (case fs p of None \<Rightarrow> [] | Some c \<Rightarrow> c) @ d))"
  by (simp add: AppendFile_def no_faults_simps)

lemma writeJSONAtomic_no_faults:
  assumes "rev_codec E v"
  shows "\<exists>d. unmarshal (oe_revision E) d = Inr v \<and>
     writeJSONAtomic (oe_revision E) no_faults p v fs = (None, (fs(tmp_path p := None))(p \<mapsto> d))"
  using assms
  by (auto simp: rev_codec_def writeJSONAtomic_def WriteFile_def Rename_def no_faults_simps Let_def
      split: sum.splits)

lemma history_append:
  assumes "store_ok E s fs" and "commit_codec E c"
    and "marshal (oe_commit E) c = Inr d"
    and "fs' (store_path s ''commits.jsonl'') =
      Some ((case fs (store_path s ''commits.jsonl'') of None \<Rightarrow> [] | Some x \<Rightarrow> x) @ d @ [newline])"
  shows "history_in (oe_commit E) (fs' (store_path s ''commits.jsonl'')) =
      history_in (oe_commit E) (fs (store_path s ''commits.jsonl'')) @ [c] \<and>
    (\<exists>x cs. fs' (store_path s ''commits.jsonl'') = Some x \<and> x \<noteq> [] \<and> ends_line x \<and>
       parseCommits (oe_commit E) (split_lines x) = Inr cs)"
proof -
  let ?p = "store_path s ''commits.jsonl''"
  let ?x = "case fs ?p of None \<Rightarrow> [] | Some x \<Rightarrow> x"
  obtain cs where x: "ends_line ?x" "parseCommits (oe_commit E) (split_lines ?x) = Inr cs"
    "history_in (oe_commit E) (fs ?p) = cs"
    using assms(1) by (cases "fs ?p") (auto simp: store_ok_def history_in_def ends_line_def)
  have d: "unmarshal (oe_commit E) d = Inr c" "d \<noteq> []" "newline \<notin> set d"
    using assms(2,3) by (simp_all add: commit_codec_def)
  have "parseCommits (oe_commit E) (split_lines (?x @ d @ [newline])) = Inr (cs @ [c])"
    using x d by (simp add: split_lines_append split_lines_line parseCommits_append)
  moreover have "ends_line (?x @ d @ [newline])" by (simp add: ends_line_def)
  ultimately show ?thesis using assms(4) x(3) by (simp add: history_in_def)
qed

lemma abs_of_unfold:
  "abs_of E s fs = \<lparr>as_staged = (case fs (store_path s ''staged.json'') of None \<Rightarrow> None
      | Some d \<Rightarrow> (case unmarshal (oe_revision E) d of Inl _ \<Rightarrow> None | Inr v \<Rightarrow> Some v)),
     as_active = (case fs (store_path s ''active.json'') of None \<Rightarrow> None
      | Some d \<Rightarrow> (case unmarshal (oe_revision E) d of Inl _ \<Rightarrow> None | Inr v \<Rightarrow> Some v)),
     as_history = history_in (oe_commit E) (fs (store_path s ''commits.jsonl''))\<rparr>"
  by (simp add: abs_of_def readJSON_no_faults revision_of_def split: option.splits sum.splits)

section \<open>Configure and commit refine the abstract store\<close>

text \<open>
  C24: configuring stages the request and nothing else. While no file operation fails, \<open>Configure\<close>
  answers with the id of a new revision; the staged revision is then the request's changes under this
  id, whatever was staged before, and the active revision and the history are as they were.
\<close>

theorem configure_stages:
  fixes req :: ConfigureRequest
  assumes "store_ok E s fs" and "newID E ''rev'' = Inr rid" and "audit_codec E"
  defines "rv \<equiv> \<lparr>rv_RevisionID = rid, rv_Actor = cr_Actor req, rv_Changes = cr_Changes req,
     rv_CreatedAt = oe_now E\<rparr>"
  assumes "rev_codec E rv"
  shows "\<exists>fs'. Configure E no_faults s req fs =
       (Inr \<lparr>cs_RevisionID = rid, cs_Status = ''staged'', cs_Validated = True, cs_Timestamp = oe_now E\<rparr>, fs') \<and>
     abs_of E s fs' = (abs_of E s fs)\<lparr>as_staged := Some rv\<rparr> \<and> store_ok E s fs'"
proof -
  obtain d where d: "unmarshal (oe_revision E) d = Inr rv"
    "writeJSONAtomic (oe_revision E) no_faults (store_path s ''staged.json'') rv fs =
      (None, (fs(tmp_path (store_path s ''staged.json'') := None))(store_path s ''staged.json'' \<mapsto> d))"
    using writeJSONAtomic_no_faults [OF assms(5)] by blast
  obtain l where l: "oe_audit E [(''event'', ''configure''), (''actor'', cr_Actor req), (''revision_id'', rid),
      (''timestamp'', oe_stamp E)] = Inr l"
    using assms(3) by (auto simp: audit_codec_def)
  let ?sp = "store_path s ''staged.json''" and ?lp = "store_path s ''audit.log''"
  have d2: "writeJSONAtomic (oe_revision E) no_faults ?sp rv fs =
      (None, (fs(store_path s ''staged.json.tmp'' := None))(?sp \<mapsto> d))"
    using d(2) by simp
  let ?fs' = "((fs(store_path s ''staged.json.tmp'' := None))(?sp \<mapsto> d))
      (?lp \<mapsto> (case fs ?lp of None \<Rightarrow> [] | Some x \<Rightarrow> x) @ l @ [newline])"
  have "Configure E no_faults s req fs = (Inr \<lparr>cs_RevisionID = rid, cs_Status = ''staged'',
      cs_Validated = True, cs_Timestamp = oe_now E\<rparr>, ?fs')"
    using l by (simp add: Configure_def assms(2) rv_def [symmetric] d2 appendAudit_def appends_no_faults Let_def)
  moreover have "abs_of E s ?fs' = (abs_of E s fs)\<lparr>as_staged := Some rv\<rparr>"
    using d(1) by (simp add: abs_of_unfold)
  moreover have "store_ok E s ?fs'" using assms(1) d(1) by (simp add: store_ok_def)
  ultimately show ?thesis by blast
qed

lemma commit_published:
  assumes "store_ok E s fs" and "newID E ''cmt'' = Inr cid" and "audit_codec E"
    and "\<And>rv. as_staged (abs_of E s fs) = Some rv \<Longrightarrow> rev_codec E rv \<and>
      commit_codec E \<lparr>co_CommitID = cid, co_RevisionID = rv_RevisionID rv, co_Actor = cq_Actor req,
        co_Committed = oe_now E\<rparr>"
  shows "case as_staged (abs_of E s fs) of
     None \<Rightarrow> Commit E no_faults s req fs = (Inl ErrNoStagedRevision, fs)
   | Some rv \<Rightarrow>
      if cq_ExpectedRevisionID req \<notin> {[], rv_RevisionID rv} then
        Commit E no_faults s req fs = (Inl ErrRevisionMismatch, fs)
      else (\<exists>fs'. Commit E no_faults s req fs = (Inr \<lparr>cp_CommitID = cid, cp_RevisionID = rv_RevisionID rv,
            cp_Status = ''committed'', cp_Timestamp = oe_now E\<rparr>, fs') \<and> store_ok E s fs' \<and>
          (let c = \<lparr>co_CommitID = cid, co_RevisionID = rv_RevisionID rv, co_Actor = cq_Actor req,
                    co_Committed = oe_now E\<rparr>;
               h = as_history (abs_of E s fs) @ [c] in
           abs_of E s fs' = \<lparr>as_staged = None, as_active = Some rv, as_history = h\<rparr> \<and>
           State E no_faults s fs' = Inr \<lparr>sv_Staged = None, sv_Active = Some rv,
             sv_LastCommit = Some c, sv_HistorySize = length h\<rparr>))"
proof (cases "as_staged (abs_of E s fs)")
  case None
  then have "fs (store_path s ''staged.json'') = None"
    using assms(1) by (auto simp: abs_of_unfold store_ok_def split: option.splits)
  then show ?thesis unfolding None by (simp add: Commit_def readJSON_no_faults)
next
  case (Some rv)
  let ?sp = "store_path s ''staged.json''" and ?ap = "store_path s ''active.json''"
  let ?cp = "store_path s ''commits.jsonl''" and ?lp = "store_path s ''audit.log''"
  let ?c = "\<lparr>co_CommitID = cid, co_RevisionID = rv_RevisionID rv, co_Actor = cq_Actor req,
        co_Committed = oe_now E\<rparr>"
  obtain sd where sd: "fs ?sp = Some sd" "unmarshal (oe_revision E) sd = Inr rv"
    using Some by (auto simp: abs_of_unfold split: option.splits sum.splits)
  then have rd: "readJSON (oe_revision E) no_faults fs ?sp = JValue rv"
    by (simp add: readJSON_no_faults)
  show ?thesis
  proof (cases "cq_ExpectedRevisionID req \<notin> {[], rv_RevisionID rv}")
    case True
    then show ?thesis unfolding Some by (simp add: Commit_def rd)
  next
    case False
    have cod: "rev_codec E rv" "commit_codec E ?c" using assms(4) [OF Some] by auto
    let ?f1 = "\<lambda>d. (fs(tmp_path ?ap := None))(?ap \<mapsto> d)"
    obtain d where d: "unmarshal (oe_revision E) d = Inr rv"
      "writeJSONAtomic (oe_revision E) no_faults ?ap rv fs = (None, ?f1 d)"
      using writeJSONAtomic_no_faults [OF cod(1)] by blast
    obtain cd where cd: "marshal (oe_commit E) ?c = Inr cd"
      using cod(2) by (auto simp: commit_codec_def split: sum.splits)
    obtain l where l: "oe_audit E [(''event'', ''commit''), (''actor'', cq_Actor req), (''commit_id'', cid),
        (''revision_id'', rv_RevisionID rv), (''timestamp'', oe_stamp E)] = Inr l"
      using assms(3) by (auto simp: audit_codec_def)
    let ?old = "\<lambda>p. case fs p of None \<Rightarrow> [] | Some x \<Rightarrow> x"
    let ?fs' = "((?f1 d)(?cp \<mapsto> ?old ?cp @ cd @ [newline], ?lp \<mapsto> ?old ?lp @ l @ [newline]))(?sp := None)"
    have cm: "Commit E no_faults s req fs = (Inr \<lparr>cp_CommitID = cid, cp_RevisionID = rv_RevisionID rv,
        cp_Status = ''committed'', cp_Timestamp = oe_now E\<rparr>, ?fs')"
      using False sd(1) l
      by (auto simp: Commit_def rd assms(2) d(2) appendJSONLine_def cd appendAudit_def appends_no_faults
          RemoveFile_def no_faults_simps Let_def)
    have cpath: "?fs' ?cp = Some (?old ?cp @ cd @ [newline])" by simp
    note h = history_append [OF assms(1) cod(2) cd, of ?fs', OF cpath]
    have ab: "abs_of E s ?fs' = \<lparr>as_staged = None, as_active = Some rv,
        as_history = as_history (abs_of E s fs) @ [?c]\<rparr>"
      using h d(1) by (simp add: abs_of_unfold)
    have ok: "store_ok E s ?fs'" using h by (auto simp: store_ok_def)
    have rh: "readCommitHistory (oe_commit E) no_faults ?fs' ?cp =
        JValue (as_history (abs_of E s fs) @ [?c])"
      using h by (auto simp: readCommitHistory_def ReadFile_def no_faults_simps bytesSplitLines_lines
          history_in_def abs_of_unfold simp del: fun_upd_apply)
    have "State E no_faults s ?fs' = Inr \<lparr>sv_Staged = None, sv_Active = Some rv, sv_LastCommit = Some ?c,
        sv_HistorySize = length (as_history (abs_of E s fs) @ [?c])\<rparr>"
      unfolding State_def rh using d(1) by (simp add: readJSON_no_faults revision_of_def Let_def nth_append)
    with cm ab ok False show ?thesis unfolding Some by (auto simp: Let_def)
  qed
qed

text \<open>
  C8: a commit publishes exactly the staged revision. While no file operation fails, \<open>Commit\<close>
  refuses when nothing is staged or when another revision is staged than the caller expects, and then
  changes nothing; otherwise the staged revision becomes the active one, nothing is staged any more,
  the history grows by one record with the revision's id and the actor, and \<open>State\<close> reports all this.
\<close>

theorem commit_publishes:
  assumes "store_ok E s fs" and "newID E ''cmt'' = Inr cid" and "audit_codec E"
    and "\<And>rv. as_staged (abs_of E s fs) = Some rv \<Longrightarrow> rev_codec E rv \<and>
      commit_codec E \<lparr>co_CommitID = cid, co_RevisionID = rv_RevisionID rv, co_Actor = cq_Actor req,
        co_Committed = oe_now E\<rparr>"
  shows "case as_staged (abs_of E s fs) of
     None \<Rightarrow> Commit E no_faults s req fs = (Inl ErrNoStagedRevision, fs)
   | Some rv \<Rightarrow>
      if cq_ExpectedRevisionID req \<notin> {[], rv_RevisionID rv} then
        Commit E no_faults s req fs = (Inl ErrRevisionMismatch, fs)
      else (\<exists>fs'. Commit E no_faults s req fs = (Inr \<lparr>cp_CommitID = cid, cp_RevisionID = rv_RevisionID rv,
            cp_Status = ''committed'', cp_Timestamp = oe_now E\<rparr>, fs') \<and> store_ok E s fs' \<and>
          (let c = \<lparr>co_CommitID = cid, co_RevisionID = rv_RevisionID rv, co_Actor = cq_Actor req,
                    co_Committed = oe_now E\<rparr>;
               h = as_history (abs_of E s fs) @ [c] in
           abs_of E s fs' = \<lparr>as_staged = None, as_active = Some rv, as_history = h\<rparr> \<and>
           State E no_faults s fs' = Inr \<lparr>sv_Staged = None, sv_Active = Some rv,
             sv_LastCommit = Some c, sv_HistorySize = length h\<rparr>))"
  by (rule commit_published [OF assms])

text \<open>What a commit leaves alone, and the files on which the state view depends.\<close>

definition store_files :: "Store \<Rightarrow> string set" where
  "store_files s = store_path s ` {''staged.json'', ''active.json'', ''active.json.tmp'', ''commits.jsonl'', ''audit.log''}"

lemma Commit_frame:
  assumes "q \<notin> store_files s"
  shows "snd (Commit E F s req fs) q = fs q"
proof -
  have w: "snd (writeJSONAtomic J F (store_path s ''active.json'') v g) q = g q" for J v g
    using assms by (intro revision_file.save_frame) (auto simp: store_files_def)
  have a: "snd (appendJSONLine J F (store_path s ''commits.jsonl'') v g) q = g q" for J v g
    using assms by (intro appendJSONLine_frame) (auto simp: store_files_def)
  have l: "snd (appendAudit E F (store_path s ''audit.log'') v g) q = g q" for v g
    using assms by (intro appendAudit_frame) (auto simp: store_files_def)
  have r: "snd (RemoveFile F (store_path s ''staged.json'') g) q = g q" for g
    using assms by (auto simp: RemoveFile_def store_files_def split: option.split)
  show ?thesis
    by (simp add: Commit_def Let_def split_beta w a l r split: read_json.split sum.split option.split remove_result.split)
qed

lemma State_cong:
  assumes "\<And>n. n \<in> {''staged.json'', ''active.json'', ''commits.jsonl''} \<Longrightarrow> fs (store_path s n) = fs' (store_path s n)"
  shows "State E F s fs = State E F s fs'"
proof -
  have "ReadFile F fs (store_path s n) = ReadFile F fs' (store_path s n)"
    if "n \<in> {''staged.json'', ''active.json'', ''commits.jsonl''}" for n
    unfolding ReadFile_def assms [OF that] by (rule refl)
  then have r: "ReadFile F fs (store_path s ''staged.json'') = ReadFile F fs' (store_path s ''staged.json'')"
    "ReadFile F fs (store_path s ''active.json'') = ReadFile F fs' (store_path s ''active.json'')"
    "ReadFile F fs (store_path s ''commits.jsonl'') = ReadFile F fs' (store_path s ''commits.jsonl'')"
    by simp_all
  show ?thesis unfolding State_def readJSON_def readCommitHistory_def r by (rule refl)
qed

section \<open>When a file operation fails\<close>

text \<open>
  C9: a commit that fails loses nothing. Whichever file operation of a commit fails, if it reports an
  error then the staged revision is still staged, byte for byte, and the active file holds either
  what it held or the whole staged revision, never a part of it.
\<close>

theorem commit_failure_keeps_staged:
  assumes "Commit E F s req fs = (Inl err, fs')"
  shows "fs' (store_path s ''staged.json'') = fs (store_path s ''staged.json'') \<and>
     (fs' (store_path s ''active.json'') = fs (store_path s ''active.json'') \<or>
      (\<exists>sd v d. fs (store_path s ''staged.json'') = Some sd \<and> unmarshal (oe_revision E) sd = Inr v \<and>
         marshal (oe_revision E) v = Inr d \<and> fs' (store_path s ''active.json'') = Some (d @ [newline])))"
proof -
  let ?sp = "store_path s ''staged.json''" and ?ap = "store_path s ''active.json''"
  let ?cp = "store_path s ''commits.jsonl''" and ?lp = "store_path s ''audit.log''"
  show ?thesis
  proof (cases "readJSON (oe_revision E) F fs ?sp")
    case (JValue v)
    then obtain sd where sd: "fs ?sp = Some sd" "unmarshal (oe_revision E) sd = Inr v"
      by (auto simp: readJSON_def ReadFile_def split: option.splits sum.splits read_result.splits)
    let ?w = "writeJSONAtomic (oe_revision E) F ?ap v fs"
    have keep: "snd ?w ?sp = fs ?sp" using revision_file.save_frame [of ?sp ?ap] by simp
    show ?thesis
    proof (cases "fst ?w")
      case None
      then obtain d where d: "marshal (oe_revision E) v = Inr d" "snd ?w ?ap = Some (d @ [newline])"
        using revision_file.save_ok [of "oe_revision E" F ?ap v fs "snd ?w"]
        by (cases "marshal (oe_revision E) v") (auto simp: prod_eq_iff)
      have "fs' ?sp = snd ?w ?sp \<and> fs' ?ap = snd ?w ?ap \<or> fs' = fs"
      proof -
        have a: "snd (appendJSONLine J F ?cp c g) ?sp = g ?sp" "snd (appendJSONLine J F ?cp c g) ?ap = g ?ap"
          "snd (appendAudit E F ?lp l g) ?sp = g ?sp" "snd (appendAudit E F ?lp l g) ?ap = g ?ap" for J c l g
          by (simp_all add: appendJSONLine_frame appendAudit_frame)
        have r: "fst (RemoveFile F ?sp g) = RemError e \<Longrightarrow> snd (RemoveFile F ?sp g) = g" for e g
          by (auto simp: RemoveFile_def split: option.splits)
        show ?thesis
          using assms None JValue r
          by (auto simp: Commit_def Let_def split_beta a split: if_splits sum.splits option.splits remove_result.splits)
      qed
      then show ?thesis using keep sd d by auto
    next
      case (Some e)
      then have "fs' = snd ?w \<or> fs' = fs"
        using assms JValue by (auto simp: Commit_def split_beta split: if_splits sum.splits)
      moreover have "snd ?w ?ap = fs ?ap"
        using revision_file.save_err [of "oe_revision E" F ?ap v fs e "snd ?w"] Some by (simp add: prod_eq_iff)
      ultimately show ?thesis using keep by auto
    qed
  qed (use assms in \<open>auto simp: Commit_def\<close>)
qed

text \<open>
  a commit is not all-or-nothing. If the commit record cannot be appended, \<open>Commit\<close> reports an
  error, but the staged revision has already replaced the active one: it stays active, without a
  record in the history, and is not rolled back.
\<close>

theorem commit_error_leaves_new_active:
  fixes e :: error
  assumes "as_staged (abs_of E s fs) = Some v" and "rev_codec E v" and "newID E ''cmt'' = Inr cid"
    and "cq_ExpectedRevisionID req \<in> {[], rv_RevisionID v}"
    and "marshal (oe_commit E) \<lparr>co_CommitID = cid, co_RevisionID = rv_RevisionID v, co_Actor = cq_Actor req,
      co_Committed = oe_now E\<rparr> = Inr line"
  defines "F \<equiv> no_faults\<lparr>f_append := (\<lambda>_. Some e)\<rparr>"
  shows "\<exists>fs'. Commit E F s req fs = (Inl (StoreError e), fs') \<and>
     abs_of E s fs' = (abs_of E s fs)\<lparr>as_active := Some v\<rparr>"
proof -
  let ?sp = "store_path s ''staged.json''" and ?ap = "store_path s ''active.json''"
  obtain sd where sd: "fs ?sp = Some sd" "unmarshal (oe_revision E) sd = Inr v"
    using assms(1) by (auto simp: abs_of_unfold split: option.splits sum.splits)
  then have rd: "readJSON (oe_revision E) F fs ?sp = JValue v"
    by (simp add: readJSON_def ReadFile_def F_def no_faults_simps)
  obtain d where d: "marshal (oe_revision E) v = Inr d" "unmarshal (oe_revision E) (d @ [newline]) = Inr v"
    using assms(2) by (auto simp: rev_codec_def split: sum.splits)
  let ?fs' = "(fs(store_path s ''active.json.tmp'' := None))(?ap \<mapsto> d @ [newline])"
  have w: "writeJSONAtomic (oe_revision E) F ?ap v fs = (None, ?fs')"
    by (simp add: writeJSONAtomic_def d(1) WriteFile_def Rename_def F_def no_faults_simps)
  have fa: "f_append F p = Some e" "f_left F p = None" for p by (simp_all add: F_def)
  have "Commit E F s req fs = (Inl (StoreError e), ?fs')"
    using assms(4) by (auto simp: Commit_def rd assms(3) w appendJSONLine_def assms(5) AppendFile_def fa Let_def)
  moreover have "abs_of E s ?fs' = (abs_of E s fs)\<lparr>as_active := Some v\<rparr>"
    using d(2) by (simp add: abs_of_unfold)
  ultimately show ?thesis by blast
qed

text \<open>
  one malformed commit line disables the state view for good. When a line of the history does not
  decode (a torn append, continued by the next one), \<open>State\<close> reports an error whatever the staged
  and active files hold and whatever is appended later.
\<close>

theorem torn_commit_breaks_state:
  assumes "fs (store_path s ''commits.jsonl'') = Some (c @ l @ newline # rest)" and "ends_line c"
    and "newline \<notin> set l" and "l \<noteq> []" and "unmarshal (oe_commit E) l = Inl err"
  shows "\<exists>e. State E F s fs = Inl (StoreError e)"
proof -
  have "c @ l @ newline # rest = c @ ((l @ [newline]) @ rest)" by simp
  also have "split_lines \<dots> = split_lines c @ l # split_lines rest"
    using split_lines_append [OF assms(2), of "(l @ [newline]) @ rest"]
      split_lines_append [of "l @ [newline]" rest] split_lines_line [OF assms(3)] by simp
  finally have sp: "split_lines (c @ l @ newline # rest) = split_lines c @ l # split_lines rest" .
  have "\<exists>e. parseCommits (oe_commit E) (split_lines c @ l # split_lines rest) = Inl e"
    using assms(4,5) by (auto simp: parseCommits_append split: sum.splits)
  then obtain e where e: "parseCommits (oe_commit E) (split_lines c @ l # split_lines rest) = Inl e" ..
  have "\<exists>e. readCommitHistory (oe_commit E) F fs (store_path s ''commits.jsonl'') = JError e"
    using assms(1) e by (auto simp: readCommitHistory_def ReadFile_def bytesSplitLines_lines sp split: option.splits)
  then show ?thesis by (auto simp: State_def Let_def)
qed

section \<open>A concrete store\<close>

definition demo_change :: Revision where
  "demo_change = \<lparr>rv_RevisionID = ''rev_1_00'', rv_Actor = ''ops'', rv_Changes = [], rv_CreatedAt = 10 ^ 9\<rparr>"

definition demo_record :: CommitRecord where
  "demo_record = \<lparr>co_CommitID = ''cmt_1_00'', co_RevisionID = ''rev_1_00'', co_Actor = ''ops'', co_Committed = 10 ^ 9\<rparr>"

definition demo_env1 :: op_env where
  "demo_env1 = \<lparr>oe_revision = \<lparr>marshal = (\<lambda>v. Inr ''R''),
        unmarshal = (\<lambda>d. if d = ''R'' @ [newline] then Inr demo_change else Inl ''bad'')\<rparr>,
     oe_commit = \<lparr>marshal = (\<lambda>c. Inr ''C''), unmarshal = (\<lambda>d. if d = ''C'' then Inr demo_record else Inl ''bad'')\<rparr>,
     oe_audit = (\<lambda>_. Inr ''A''), oe_now = 10 ^ 9, oe_stamp = ''t'', oe_rand = Inr [CHR 0x00]\<rparr>"

definition demo_store :: Store where
  "demo_store = \<lparr>st_baseDir = ''state''\<rparr>"

definition demo_files :: fs where
  "demo_files = [store_path demo_store ''staged.json'' \<mapsto> ''R'' @ [newline]]"

lemma demo_ids: "newID demo_env1 ''rev'' = Inr ''rev_1_00''" "newID demo_env1 ''cmt'' = Inr ''cmt_1_00''"
  by code_simp+

lemma demo_codecs: "rev_codec demo_env1 demo_change" "commit_codec demo_env1 demo_record" "audit_codec demo_env1"
  by (simp_all add: rev_codec_def commit_codec_def audit_codec_def demo_env1_def newline_def)

lemma demo_store_ok: "store_ok demo_env1 demo_store demo_files" "store_ok demo_env1 demo_store (\<lambda>_. None)"
  by (simp_all add: store_ok_def demo_files_def demo_env1_def)

lemma demo_staged: "as_staged (abs_of demo_env1 demo_store demo_files) = Some demo_change"
  by (simp add: abs_of_unfold demo_files_def demo_env1_def)

theorem configure_stages_witness:
  "\<exists>fs'. as_staged (abs_of demo_env1 demo_store fs') = Some demo_change \<and>
     snd (Configure demo_env1 no_faults demo_store \<lparr>cr_Actor = ''ops'', cr_Changes = []\<rparr> (\<lambda>_. None)) = fs'"
proof -
  let ?req = "\<lparr>cr_Actor = ''ops'', cr_Changes = []\<rparr>"
  have "\<lparr>rv_RevisionID = ''rev_1_00'', rv_Actor = cr_Actor ?req, rv_Changes = cr_Changes ?req,
      rv_CreatedAt = oe_now demo_env1\<rparr> = demo_change"
    by (simp add: demo_change_def demo_env1_def)
  then show ?thesis
    using configure_stages [OF demo_store_ok(2) demo_ids(1) demo_codecs(3), of ?req] demo_codecs(1) by auto
qed

theorem commit_publishes_witness:
  "\<exists>fs'. Commit demo_env1 no_faults demo_store
       \<lparr>cq_Actor = ''ops'', cq_ExpectedRevisionID = ''rev_1_00'', cq_OpsMode = []\<rparr> demo_files =
       (Inr \<lparr>cp_CommitID = ''cmt_1_00'', cp_RevisionID = ''rev_1_00'', cp_Status = ''committed'',
          cp_Timestamp = 10 ^ 9\<rparr>, fs') \<and>
     as_active (abs_of demo_env1 demo_store fs') = Some demo_change"
proof -
  let ?req = "\<lparr>cq_Actor = ''ops'', cq_ExpectedRevisionID = ''rev_1_00'', cq_OpsMode = []\<rparr>"
  have r: "\<lparr>co_CommitID = ''cmt_1_00'', co_RevisionID = rv_RevisionID demo_change, co_Actor = cq_Actor ?req,
      co_Committed = oe_now demo_env1\<rparr> = demo_record" "rv_RevisionID demo_change = ''rev_1_00''"
      "oe_now demo_env1 = 10 ^ 9"
    by (simp_all add: demo_record_def demo_change_def demo_env1_def)
  have "\<And>v. as_staged (abs_of demo_env1 demo_store demo_files) = Some v \<Longrightarrow> rev_codec demo_env1 v \<and>
      commit_codec demo_env1 \<lparr>co_CommitID = ''cmt_1_00'', co_RevisionID = rv_RevisionID v,
        co_Actor = cq_Actor ?req, co_Committed = oe_now demo_env1\<rparr>"
    using demo_codecs r(1) by (simp add: demo_staged)
  note c = commit_publishes [OF demo_store_ok(1) demo_ids(2) demo_codecs(3) this]
  then show ?thesis using r by (auto simp: demo_staged Let_def)
qed

theorem commit_failure_keeps_staged_witness:
  "snd (Commit demo_env1 (no_faults\<lparr>f_remove := (\<lambda>_. Some ''EIO'')\<rparr>) demo_store
     \<lparr>cq_Actor = ''ops'', cq_ExpectedRevisionID = [], cq_OpsMode = []\<rparr> demo_files)
     (store_path demo_store ''staged.json'') = Some (''R'' @ [newline])"
proof -
  let ?F = "no_faults\<lparr>f_remove := (\<lambda>_. Some ''EIO'')\<rparr>"
  let ?req = "\<lparr>cq_Actor = ''ops'', cq_ExpectedRevisionID = [], cq_OpsMode = []\<rparr>"
  have "fst (Commit demo_env1 ?F demo_store ?req demo_files) = Inl (StoreError ''EIO'')"
    by code_simp
  then have "Commit demo_env1 ?F demo_store ?req demo_files =
      (Inl (StoreError ''EIO''), snd (Commit demo_env1 ?F demo_store ?req demo_files))"
    by (simp add: prod_eq_iff)
  from commit_failure_keeps_staged [OF this] show ?thesis by (simp add: demo_files_def)
qed

theorem commit_error_leaves_new_active_witness:
  "\<exists>fs'. as_active (abs_of demo_env1 demo_store fs') = Some demo_change \<and>
     Commit demo_env1 (no_faults\<lparr>f_append := (\<lambda>_. Some ''ENOSPC'')\<rparr>) demo_store
       \<lparr>cq_Actor = ''ops'', cq_ExpectedRevisionID = [], cq_OpsMode = []\<rparr> demo_files =
       (Inl (StoreError ''ENOSPC''), fs')"
proof -
  let ?req = "\<lparr>cq_Actor = ''ops'', cq_ExpectedRevisionID = [], cq_OpsMode = []\<rparr>"
  have m: "marshal (oe_commit demo_env1) c = Inr ''C''" for c by (simp add: demo_env1_def)
  have e: "cq_ExpectedRevisionID ?req \<in> {[], rv_RevisionID demo_change}" by simp
  show ?thesis
    using commit_error_leaves_new_active [OF demo_staged demo_codecs(1) demo_ids(2) e m, of "''ENOSPC''"] by auto
qed

theorem torn_commit_breaks_state_witness:
  "\<exists>e. State demo_env1 no_faults demo_store
     [store_path demo_store ''commits.jsonl'' \<mapsto> ''C'' @ [newline] @ ''CC'' @ newline # ''C'' @ [newline]] =
     Inl (StoreError e)"
  by (rule torn_commit_breaks_state [where c = "''C'' @ [newline]" and l = "''CC''" and rest = "''C'' @ [newline]"])
    (simp_all add: ends_line_def newline_def demo_env1_def)

end
