(* ===== verification/Enforcer_Plan.thy ===== *)
theory Enforcer_Plan
  imports Json_Values Go_Files "HOL-Library.Char_ord" "HOL-Library.List_Lexorder" "HOL-Library.Product_Lexorder"
begin

text \<open>
  The operations plan (internal/enforcer/opsplan.go, and the accessors of nftables.go that it uses):
  from a tree of configuration changes to a sorted, deduplicated list of operations, each a list of
  action lines. \<open>sort.Strings\<close> is the library's \<open>sort\<close> on strings in byte order.
\<close>

record Operation =
  op_Backend :: string
  op_Scope :: string
  op_Actions :: "string list"

section \<open>Reading the tree\<close>

definition getAt :: "vmap \<Rightarrow> string list \<Rightarrow> val" where
  "getAt cfg path = (case walk (VMap cfg) path of None \<Rightarrow> VNil | Some v \<Rightarrow> v)"

definition toString :: "val \<Rightarrow> string" where
  "toString v = (case as_string v of Some s \<Rightarrow> s | None \<Rightarrow> [])"

definition getString :: "vmap \<Rightarrow> string list \<Rightarrow> string" where
  "getString cfg path = (case walk (VMap cfg) path of None \<Rightarrow> [] | Some v \<Rightarrow> toString v)"

definition getBool :: "vmap \<Rightarrow> string list \<Rightarrow> bool" where
  "getBool cfg path = (case walk (VMap cfg) path of None \<Rightarrow> False
     | Some v \<Rightarrow> (case as_bool v of Some b \<Rightarrow> b | None \<Rightarrow> False))"

text \<open>A nil map is the empty map: the callers only take its length and range over it.\<close>

definition mapAt :: "vmap \<Rightarrow> string list \<Rightarrow> vmap" where
  "mapAt cfg path = (case walk (VMap cfg) path of None \<Rightarrow> []
     | Some v \<Rightarrow> (case as_map v of Some m \<Rightarrow> m | None \<Rightarrow> []))"

text \<open>
  \<open>strings.EqualFold\<close> against an ASCII word without \<open>k\<close> and \<open>s\<close>: only these two letters have
  case variants outside ASCII.
\<close>

definition EqualFold :: "string \<Rightarrow> string \<Rightarrow> bool" where
  "EqualFold s w = (map lower_char s = map lower_char w)"

fun anyDHCP :: "val list \<Rightarrow> bool" where
  "anyDHCP [] = False"
| "anyDHCP (item # t) = (case as_string item of
     Some s \<Rightarrow> if EqualFold (TrimSpace s) ''dhcp'' then True else anyDHCP t
   | None \<Rightarrow> anyDHCP t)"

definition hasDHCPAddress :: "val \<Rightarrow> bool" where
  "hasDHCPAddress v = (case v of
     VStr t \<Rightarrow> EqualFold (TrimSpace t) ''dhcp''
   | VArr t \<Rightarrow> anyDHCP t
   | _ \<Rightarrow> False)"

fun addressLoop :: "val list \<Rightarrow> string list" where
  "addressLoop [] = []"
| "addressLoop (item # t) = (case as_string item of
     None \<Rightarrow> addressLoop t
   | Some s \<Rightarrow> (let s = TrimSpace s in if s = [] then addressLoop t else s # addressLoop t))"

definition collectAddresses :: "val \<Rightarrow> string list" where
  "collectAddresses v = (case v of
     VStr t \<Rightarrow> (let s = TrimSpace t in if s = [] then [] else [s])
   | VArr t \<Rightarrow> addressLoop t
   | _ \<Rightarrow> [])"

text \<open>
  The conversion \<open>int(x)\<close> of a float truncates toward zero. Out of the range of a 64-bit integer the
  language leaves the result to the implementation; this is what amd64 gives.
\<close>

definition trunc :: "rat \<Rightarrow> int" where
  "trunc x = (let i = (if 0 \<le> x then \<lfloor>x\<rfloor> else \<lceil>x\<rceil>) in
     if - (2 ^ 63) \<le> i \<and> i < 2 ^ 63 then i else - (2 ^ 63))"

definition interfaceStateActions :: "string \<Rightarrow> vmap \<Rightarrow> string list" where
  "interfaceStateActions ifname m =
    (let desc = toString (mindex m ''description''); role = toString (mindex m ''role'') in
     (if desc \<noteq> [] then
        [''write /run/systemd/network/10-'' @ ifname @ ''.link (Description='' @ desc @ '')''] else []) @
     (case mindex m ''mtu'' of
        VFloat mtu \<Rightarrow> [''ip link set dev '' @ ifname @ '' mtu '' @ fmt_d (trunc mtu)]
      | VInt mtu \<Rightarrow> [''ip link set dev '' @ ifname @ '' mtu '' @ fmt_d mtu]
      | VStr mtu \<Rightarrow> (if TrimSpace mtu \<noteq> [] then [''ip link set dev '' @ ifname @ '' mtu '' @ mtu] else [])
      | _ \<Rightarrow> []) @
     (if role \<noteq> [] then
        [''write /etc/clawgress/interface-role.d/'' @ ifname @ ''.role ('' @ role @ '')''] else []) @
     (if as_bool (mindex m ''disable'') = Some True then [''ip link set dev '' @ ifname @ '' down''] else []))"

section \<open>The builders\<close>

definition interfaceOp :: "vmap \<Rightarrow> string \<Rightarrow> Operation list" where
  "interfaceOp eth ifname = (case as_map (mindex eth ifname) of
     None \<Rightarrow> []
   | Some m \<Rightarrow>
      (let addrRaw = mindex m ''address'' in
       if hasDHCPAddress addrRaw then
         [\<lparr>op_Backend = ''dhclient+systemd'', op_Scope = ''interfaces ethernet '' @ ifname @ '' address dhcp'',
           op_Actions =
            [''write /run/dhclient/dhclient_'' @ ifname @ ''.conf'',
             ''write /run/systemd/system/dhclient@'' @ ifname @ ''.service.d/10-override.conf'',
             ''systemctl daemon-reload'',
             ''systemctl restart dhclient@'' @ ifname @ ''.service''] @ interfaceStateActions ifname m\<rparr>]
       else
         (let addrs = collectAddresses addrRaw; actions = interfaceStateActions ifname m in
          if length addrs = 0 \<and> length actions = 0 then []
          else
            (let actions = (if length addrs > 0 then
                [''write /etc/systemd/network/10-'' @ ifname @ ''.network (Address='' @ Join addrs '','' @ '')'',
                 ''systemctl restart systemd-networkd''] @ actions else actions) in
             [\<lparr>op_Backend = ''systemd-networkd'', op_Scope = ''interfaces ethernet '' @ ifname,
               op_Actions = actions\<rparr>]))))"

definition buildInterfaceOps :: "vmap \<Rightarrow> Operation list" where
  "buildInterfaceOps changes =
    (let eth = mapAt changes [''interfaces'', ''ethernet''] in
     if length eth = 0 then []
     else (let ifnames = sort (map fst eth) in concat (map (interfaceOp eth) ifnames)))"

definition buildSystemOps :: "vmap \<Rightarrow> Operation list" where
  "buildSystemOps changes =
    (let h = getString changes [''system'', ''host_name''];
         nameServers = collectAddresses (getAt changes [''system'', ''name_server'']);
         ntpServers = collectAddresses (getAt changes [''system'', ''ntp'', ''server'']) in
     (if h \<noteq> [] then [\<lparr>op_Backend = ''hostnamectl'', op_Scope = ''system host-name'',
        op_Actions = [''hostnamectl set-hostname '' @ h]\<rparr>] else []) @
     (if length nameServers > 0 then [\<lparr>op_Backend = ''systemd-resolved'', op_Scope = ''system name-server'',
        op_Actions = [''write /etc/systemd/resolved.conf.d/90-clawgress.conf (DNS='' @ Join nameServers '' '' @ '')'',
          ''systemctl restart systemd-resolved'']\<rparr>] else []) @
     (if length ntpServers > 0 then [\<lparr>op_Backend = ''chrony'', op_Scope = ''system ntp server'',
        op_Actions = [''write /etc/chrony/sources.d/clawgress.sources ('' @ Join ntpServers '','' @ '')'',
          ''systemctl restart chrony'']\<rparr>] else []))"

definition dashed :: "string \<Rightarrow> string" where
  "dashed name = ReplaceByte CHR ''_'' CHR ''-'' name"

fun serviceLoop :: "vmap \<Rightarrow> Operation list" where
  "serviceLoop [] = []"
| "serviceLoop ((name, raw) # service) =
    (if name = ''dns'' \<or> name = ''haproxy'' \<or> name = ''ssh'' then serviceLoop service
     else if as_map raw = None then serviceLoop service
     else \<lparr>op_Backend = ''systemd-unit'', op_Scope = ''service '' @ dashed name,
            op_Actions = [''write /etc/clawgress/services/'' @ name @ ''.json'',
              ''systemctl reload-or-restart '' @ dashed name]\<rparr> # serviceLoop service)"

definition buildServiceOps :: "vmap \<Rightarrow> Operation list" where
  "buildServiceOps changes =
    (let service = mapAt changes [''service''] in
     if length service = 0 then []
     else
      (if length (mapAt changes [''service'', ''dns'', ''forwarding'']) > 0 then
         [\<lparr>op_Backend = ''bind9'', op_Scope = ''service dns forwarding'',
           op_Actions = [''write /etc/bind/named.conf.options'', ''systemctl restart bind9'']\<rparr>] else []) @
      (if length (mapAt changes [''service'', ''haproxy'']) > 0 then
         [\<lparr>op_Backend = ''haproxy'', op_Scope = ''service haproxy'',
           op_Actions = [''write /etc/haproxy/haproxy.cfg'', ''systemctl restart haproxy'']\<rparr>] else []) @
      (if length (mapAt changes [''service'', ''ssh'']) > 0 then
         [\<lparr>op_Backend = ''openssh-server'', op_Scope = ''service ssh'',
           op_Actions = [''write /etc/ssh/sshd_config.d/90-clawgress.conf'', ''systemctl restart ssh'']\<rparr>] else []) @
      serviceLoop service)"

definition buildFirewallNatOps :: "vmap \<Rightarrow> Operation list" where
  "buildFirewallNatOps changes =
     (if length (mapAt changes [''firewall'']) > 0 then
        [\<lparr>op_Backend = ''nftables'', op_Scope = ''firewall'',
          op_Actions = [''write /etc/nftables.d/40-clawgress-firewall.nft'',
            ''nft -c -f /etc/nftables.d/40-clawgress-firewall.nft'',
            ''nft -f /etc/nftables.d/40-clawgress-firewall.nft'']\<rparr>] else []) @
     (if length (mapAt changes [''nat'']) > 0 then
        [\<lparr>op_Backend = ''nftables'', op_Scope = ''nat'',
          op_Actions = [''write /etc/nftables.d/50-clawgress-nat.nft'',
            ''nft -c -f /etc/nftables.d/50-clawgress-nat.nft'',
            ''nft -f /etc/nftables.d/50-clawgress-nat.nft'']\<rparr>] else [])"

definition buildPolicyOps :: "vmap \<Rightarrow> Operation list" where
  "buildPolicyOps changes =
     (if length (mapAt changes [''policy'']) = 0 then []
      else [\<lparr>op_Backend = ''clawgress-policyd'', op_Scope = ''policy'',
        op_Actions = [''write /etc/clawgress/policy/policy.json'',
          ''systemctl reload-or-restart clawgress-policyd'']\<rparr>])"

fun fallbackLoop :: "vmap \<Rightarrow> string list \<Rightarrow> Operation list" where
  "fallbackLoop changes [] = []"
| "fallbackLoop changes (fam # roots) =
    (if length (mapAt changes [fam]) = 0 then fallbackLoop changes roots
     else \<lparr>op_Backend = ''control-daemon'', op_Scope = fam,
            op_Actions = [''write /etc/clawgress/rendered/'' @ fam @ ''.json'',
              ''systemctl reload-or-restart clawgress-configd'']\<rparr> # fallbackLoop changes roots)"

definition buildFamilyFallbackOps :: "vmap \<Rightarrow> Operation list" where
  "buildFamilyFallbackOps changes =
     fallbackLoop changes [''system'', ''interfaces'', ''service'', ''firewall'', ''nat'', ''policy'']"

fun dedupeLoop :: "string set \<Rightarrow> Operation list \<Rightarrow> Operation list" where
  "dedupeLoop seen [] = []"
| "dedupeLoop seen (op # ops) =
    (if op_Backend op = [] \<or> op_Scope op = [] then dedupeLoop seen ops
     else (let key = op_Backend op @ ''|'' @ op_Scope op in
       if key \<in> seen then dedupeLoop seen ops
       else op # dedupeLoop (insert key seen) ops))"

text \<open>\<open>sort.Slice\<close> by backend, then scope.\<close>

definition dedupeOps :: "Operation list \<Rightarrow> Operation list" where
  "dedupeOps ops = sort_key (\<lambda>op. (op_Backend op, op_Scope op)) (dedupeLoop {} ops)"

definition BuildOpsPlan :: "vmap \<Rightarrow> Operation list" where
  "BuildOpsPlan changes = dedupeOps
     (buildInterfaceOps changes @ buildSystemOps changes @ buildServiceOps changes @
      buildFirewallNatOps changes @ buildPolicyOps changes @ buildFamilyFallbackOps changes)"

section \<open>The deduplication is a loop with a seen map\<close>

definition unnamed :: "Operation \<Rightarrow> bool" where
  "unnamed op \<longleftrightarrow> op_Backend op = [] \<or> op_Scope op = []"

definition op_key :: "Operation \<Rightarrow> string" where
  "op_key op = op_Backend op @ ''|'' @ op_Scope op"

interpretation plan_dedupe: seen_loop unnamed op_key dedupeLoop
  by unfold_locales (simp_all add: unnamed_def op_key_def Let_def)

end
