(* ===== verification/Enforcer_Exec.thy ===== *)
theory Enforcer_Exec
  imports Enforcer_Plan
begin

text \<open>
  Executing a plan (internal/enforcer/ops_exec.go): every action line is checked against a list of
  commands and of writable directories, then carried out; the first failure stops the run. What a
  command answers is a parameter; the state is the file system and the commands that were run.
\<close>

record OpsExecResult =
  ox_Mode :: string
  ox_Applied :: nat
  ox_Failed :: nat
  ox_Logs :: "string list"

record exec_env =
  ee_mock :: string
  ee_stamp :: string
  ee_faults :: faults
  ee_run :: "string \<Rightarrow> string list \<Rightarrow> error option \<times> string"

record exec_state =
  xs_fs :: fs
  xs_commands :: "(string \<times> string list) list"

section \<open>Operations\<close>

definition NormalizeOpsMode :: "unicode \<Rightarrow> string \<Rightarrow> string" where
  "NormalizeOpsMode U mode0 =
    (let mode = TrimSpace (ToLower U mode0) in
     if mode = [] \<or> mode = ''dryrun'' \<or> mode = ''dry-run'' then ''dry-run''
     else if mode = ''apply'' then ''apply''
     else [])"

fun hasAnyPrefix :: "string \<Rightarrow> string list \<Rightarrow> bool" where
  "hasAnyPrefix path [] = False"
| "hasAnyPrefix path (p # ps) = (if HasPrefix path p then True else hasAnyPrefix path ps)"

definition allowed_dirs :: "string list" where
  "allowed_dirs = [''/etc/clawgress/'', ''/etc/systemd/'', ''/run/dhclient/'', ''/run/systemd/'',
     ''/etc/bind/'', ''/etc/haproxy/'', ''/etc/ssh/'', ''/etc/nftables.d/'', ''/etc/chrony/'']"

definition isAllowedWritePath :: "string \<Rightarrow> bool" where
  "isAllowedWritePath path = hasAnyPrefix path allowed_dirs"

text \<open>The path of a write action: up to the first blank that is not at the start.\<close>

definition write_path :: "string \<Rightarrow> string" where
  "write_path action =
    (let pathAndMeta = TrimSpace (TrimPrefix action ''write '');
         path = (case IndexByte pathAndMeta CHR '' '' of
           Some i \<Rightarrow> if i > 0 then take i pathAndMeta else pathAndMeta
         | None \<Rightarrow> pathAndMeta)
     in TrimSpace path)"

definition executeWriteAction :: "exec_env \<Rightarrow> string \<Rightarrow> exec_state \<Rightarrow> error option \<times> exec_state" where
  "executeWriteAction E action x =
    (let path = write_path action in
     if path = [] then (Some ''empty write path'', x)
     else if \<not> isAllowedWritePath path then (Some (''write path not allowed: '' @ path), x)
     else (case f_mkdir (ee_faults E) path of
       Some e \<Rightarrow> (Some (''create parent dir: '' @ e), x)
     | None \<Rightarrow>
        (let content = ''# managed by clawgress ops executor'' @ [newline] @ ''# '' @ ee_stamp E @ [newline];
             (err, fs) = WriteFile (ee_faults E) path content (xs_fs x) in
         (err, x\<lparr>xs_fs := fs\<rparr>))))"

definition runCommand :: "exec_env \<Rightarrow> string \<Rightarrow> string list \<Rightarrow> exec_state \<Rightarrow> error option \<times> exec_state" where
  "runCommand E name args x =
    (let (err, out) = ee_run E name args; x = x\<lparr>xs_commands := xs_commands x @ [(name, args)]\<rparr> in
     case err of
       Some e \<Rightarrow> (Some (name @ '' '' @ Join args '' '' @ '' failed: '' @ e @ '' ('' @ TrimSpace out @ '')''), x)
     | None \<Rightarrow> (None, x))"

definition executeAction :: "exec_env \<Rightarrow> string \<Rightarrow> exec_state \<Rightarrow> error option \<times> exec_state" where
  "executeAction E action x =
    (let trimmed = TrimSpace action in
     if trimmed = [] then (None, x)
     else if ee_mock E = ''1'' then (None, x)
     else if HasPrefix trimmed ''write '' then executeWriteAction E trimmed x
     else if HasPrefix trimmed ''systemctl '' then runCommand E ''systemctl'' (drop 1 (Fields trimmed)) x
     else if HasPrefix trimmed ''ip '' then runCommand E ''ip'' (drop 1 (Fields trimmed)) x
     else if HasPrefix trimmed ''nft '' then runCommand E ''nft'' (drop 1 (Fields trimmed)) x
     else (Some (''action not allowed: '' @ trimmed), x))"

fun actionLoop :: "exec_env \<Rightarrow> string \<Rightarrow> Operation \<Rightarrow> string list \<Rightarrow> OpsExecResult \<Rightarrow> exec_state \<Rightarrow>
    error option \<times> OpsExecResult \<times> exec_state" where
  "actionLoop E nm op [] out x = (None, out, x)"
| "actionLoop E nm op (action # actions) out x =
    (let line = op_Backend op @ '' '' @ op_Scope op @ '': '' @ action in
     if nm = ''dry-run'' then
       actionLoop E nm op actions (out\<lparr>ox_Logs := ox_Logs out @ [''DRYRUN '' @ line]\<rparr>) x
     else (case executeAction E action x of
       (Some e, x) \<Rightarrow> (Some e, out\<lparr>ox_Failed := ox_Failed out + 1,
           ox_Logs := ox_Logs out @ [''ERROR '' @ line @ '' :: '' @ e]\<rparr>, x)
     | (None, x) \<Rightarrow> actionLoop E nm op actions (out\<lparr>ox_Applied := ox_Applied out + 1,
           ox_Logs := ox_Logs out @ [''APPLIED '' @ line]\<rparr>) x))"

fun opLoop :: "exec_env \<Rightarrow> string \<Rightarrow> Operation list \<Rightarrow> OpsExecResult \<Rightarrow> exec_state \<Rightarrow>
    error option \<times> OpsExecResult \<times> exec_state" where
  "opLoop E nm [] out x = (None, out, x)"
| "opLoop E nm (op # ops) out x = (case actionLoop E nm op (op_Actions op) out x of
     (Some e, out, x) \<Rightarrow> (Some e, out, x)
   | (None, out, x) \<Rightarrow> opLoop E nm ops out x)"

definition ExecuteOpsPlan :: "unicode \<Rightarrow> exec_env \<Rightarrow> Operation list \<Rightarrow> string \<Rightarrow> exec_state \<Rightarrow>
    error option \<times> OpsExecResult \<times> exec_state" where
  "ExecuteOpsPlan U E ops mode x =
    (let nm = NormalizeOpsMode U mode in
     if nm = [] then (Some (''invalid ops mode: '' @ fmt_q mode),
        \<lparr>ox_Mode = [], ox_Applied = 0, ox_Failed = 0, ox_Logs = []\<rparr>, x)
     else opLoop E nm ops \<lparr>ox_Mode = nm, ox_Applied = 0, ox_Failed = 0, ox_Logs = []\<rparr> x)"

end
