(* ===== verification/Enforcer_Props.thy ===== *)
theory Enforcer_Props
  imports Enforcer_Exec "HOL-Library.Multiset"
begin

text \<open>
  What the operations plan guarantees: it does not depend on the order in which Go iterates over the
  configuration maps, except where two service names collide.
\<close>

section \<open>Values that differ only in the order of map entries\<close>

inductive veq :: "val \<Rightarrow> val \<Rightarrow> bool" where
  veq_same: "veq v v"
| veq_maps: "gomap_ok m \<Longrightarrow> gomap_ok n \<Longrightarrow> (\<And>k. rel_option veq (mget m k) (mget n k)) \<Longrightarrow>
    veq (VMap m) (VMap n)"

inductive_cases veq_MapE: "veq (VMap m) v"
inductive_simps veq_Str [simp]: "veq (VStr s) v"
inductive_simps veq_Arr [simp]: "veq (VArr xs) v"
inductive_simps veq_Bool [simp]: "veq (VBool b) v"
inductive_simps veq_Nil [simp]: "veq VNil v"
inductive_simps veq_Int [simp]: "veq (VInt i) v"
inductive_simps veq_Float [simp]: "veq (VFloat x) v"
inductive_simps veq_Special [simp]: "veq (VSpecial t) v"

definition meq :: "vmap \<Rightarrow> vmap \<Rightarrow> bool" where
  "meq m n \<longleftrightarrow> veq (VMap m) (VMap n)"

lemma rel_option_veq_refl: "rel_option veq x x"
  by (cases x) (auto intro: veq_same)

lemma meq_cases: "meq m n \<Longrightarrow> m = n \<or> (gomap_ok m \<and> gomap_ok n \<and> (\<forall>k. rel_option veq (mget m k) (mget n k)))"
  unfolding meq_def by (erule veq_MapE) auto

lemma veq_as_map: "veq v w \<Longrightarrow> rel_option meq (as_map v) (as_map w)"
  by (cases v; cases w) (auto simp: meq_def elim: veq_MapE)

lemma veq_as_string: "veq v w \<Longrightarrow> as_string v = as_string w"
  by (cases v) (auto elim: veq_MapE)

lemma veq_as_bool: "veq v w \<Longrightarrow> as_bool v = as_bool w"
  by (cases v) (auto elim: veq_MapE)

lemma meq_get: "meq m n \<Longrightarrow> rel_option veq (mget m k) (mget n k)"
  using meq_cases rel_option_veq_refl by blast

lemma meq_index: "meq m n \<Longrightarrow> veq (mindex m k) (mindex n k)"
  using meq_get [of m n k] unfolding mindex_def by (auto simp: option.rel_sel veq_same split: option.splits)

lemma meq_keys: "meq m n \<Longrightarrow> set (map fst m) = set (map fst n)"
proof -
  assume m: "meq m n"
  have "k \<in> fst ` set m \<longleftrightarrow> k \<in> fst ` set n" for k
    using meq_get [OF m, of k] by (metis map_of_eq_None_iff option.rel_sel)
  then show ?thesis by auto
qed

lemma meq_length: "meq m n \<Longrightarrow> length m = length n"
  using meq_cases [of m n] meq_keys [of m n] unfolding gomap_ok_def
  by (metis distinct_card length_map)

lemma meq_sorted_keys: "meq m n \<Longrightarrow> sort (map fst m) = sort (map fst n)"
  using meq_cases [of m n] meq_keys [of m n] unfolding gomap_ok_def
  by (metis sorted_list_of_set_sort_remdups distinct_remdups_id)

lemma walk_veq: "veq v w \<Longrightarrow> rel_option veq (walk v path) (walk w path)"
proof (induction path arbitrary: v w)
  case (Cons p path)
  have "rel_option meq (as_map v) (as_map w)" using veq_as_map [OF Cons.prems] .
  then show ?case
  proof (cases rule: option.rel_cases)
    case (Some m n)
    with meq_get [of m n p] show ?thesis by (cases rule: option.rel_cases) (auto intro: Cons.IH)
  qed simp
qed simp

lemma walk_meq: "meq c d \<Longrightarrow> rel_option veq (walk (VMap c) path) (walk (VMap d) path)"
  unfolding meq_def by (rule walk_veq)

lemma getAt_meq: "meq c d \<Longrightarrow> veq (getAt c path) (getAt d path)"
  using walk_meq [of c d path] unfolding getAt_def by (cases rule: option.rel_cases) (auto intro: veq_same)

lemma getString_meq: "meq c d \<Longrightarrow> getString c path = getString d path"
  using walk_meq [of c d path] unfolding getString_def
  by (cases rule: option.rel_cases) (auto simp: toString_def dest: veq_as_string)

lemma getBool_meq: "meq c d \<Longrightarrow> getBool c path = getBool d path"
  using walk_meq [of c d path] unfolding getBool_def
  by (cases rule: option.rel_cases) (auto dest: veq_as_bool)

lemma meq_refl: "meq m m"
  by (simp add: meq_def veq_same)

lemma mapAt_meq:
  assumes "meq c d"
  shows "meq (mapAt c path) (mapAt d path)"
  using walk_meq [OF assms, of path]
proof (cases rule: option.rel_cases)
  case (Some v w)
  from veq_as_map [OF Some(3)] show ?thesis
    using Some(1,2) by (cases rule: option.rel_cases) (simp_all add: mapAt_def meq_refl)
qed (simp add: mapAt_def meq_refl)

lemma hasDHCPAddress_veq: "veq v w \<Longrightarrow> hasDHCPAddress v = hasDHCPAddress w"
  by (cases v) (auto simp: hasDHCPAddress_def elim: veq_MapE)

lemma collectAddresses_veq: "veq v w \<Longrightarrow> collectAddresses v = collectAddresses w"
  by (cases v) (auto simp: collectAddresses_def elim: veq_MapE)

lemma toString_index_meq: "meq m n \<Longrightarrow> toString (mindex m k) = toString (mindex n k)"
  using veq_as_string [OF meq_index] by (simp add: toString_def)

lemma interfaceStateActions_meq: "meq m n \<Longrightarrow> interfaceStateActions i m = interfaceStateActions i n"
proof -
  assume m: "meq m n"
  have b: "as_bool (mindex m ''disable'') = as_bool (mindex n ''disable'')"
    using veq_as_bool [OF meq_index [OF m]] .
  have "veq (mindex m ''mtu'') (mindex n ''mtu'')" by (rule meq_index [OF m])
  then show ?thesis
    unfolding interfaceStateActions_def toString_index_meq [OF m] b
    by (cases "mindex m ''mtu''") (auto elim!: veq_MapE)
qed

lemma interfaceOp_meq:
  assumes "meq e f"
  shows "interfaceOp e i = interfaceOp f i"
  using veq_as_map [OF meq_index [OF assms, of i]]
proof (cases rule: option.rel_cases)
  case (Some m n)
  have a: "veq (mindex m ''address'') (mindex n ''address'')" by (rule meq_index [OF Some(3)])
  show ?thesis
    unfolding interfaceOp_def Some(1,2) option.case hasDHCPAddress_veq [OF a] collectAddresses_veq [OF a]
      interfaceStateActions_meq [OF Some(3)] Let_def ..
qed (simp add: interfaceOp_def)

lemma buildInterfaceOps_meq: "meq c d \<Longrightarrow> buildInterfaceOps c = buildInterfaceOps d"
proof -
  assume "meq c d"
  note e = mapAt_meq [OF this, of "[''interfaces'', ''ethernet'']"]
  have "interfaceOp (mapAt c [''interfaces'', ''ethernet'']) = interfaceOp (mapAt d [''interfaces'', ''ethernet''])"
    using interfaceOp_meq [OF e] by blast
  then show ?thesis
    unfolding buildInterfaceOps_def Let_def meq_length [OF e] meq_sorted_keys [OF e] by simp
qed

lemma mapAt_length_meq: "meq c d \<Longrightarrow> length (mapAt c p) = length (mapAt d p)"
  by (rule meq_length [OF mapAt_meq])

lemma fixed_builders_meq:
  assumes "meq c d"
  shows "buildSystemOps c = buildSystemOps d" "buildFirewallNatOps c = buildFirewallNatOps d"
    "buildPolicyOps c = buildPolicyOps d" "buildFamilyFallbackOps c = buildFamilyFallbackOps d"
proof -
  show "buildSystemOps c = buildSystemOps d"
    unfolding buildSystemOps_def getString_meq [OF assms] collectAddresses_veq [OF getAt_meq [OF assms]] ..
  show "buildFirewallNatOps c = buildFirewallNatOps d" "buildPolicyOps c = buildPolicyOps d"
    unfolding buildFirewallNatOps_def buildPolicyOps_def mapAt_length_meq [OF assms] by (rule refl)+
  have "fallbackLoop c rs = fallbackLoop d rs" for rs
  proof -
    have "mapAt c p = [] \<longleftrightarrow> mapAt d p = []" for p
      using mapAt_length_meq [OF assms, of p] by (metis length_0_conv)
    then show ?thesis by (induction rs) simp_all
  qed
  then show "buildFamilyFallbackOps c = buildFamilyFallbackOps d"
    unfolding buildFamilyFallbackOps_def .
qed

section \<open>The plan does not depend on the order of the maps\<close>

lemma sort_key_unique:
  fixes f :: "'a \<Rightarrow> 'b::linorder"
  assumes "mset xs = mset ys" and "distinct (map f xs)"
  shows "sort_key f xs = sort_key f ys"
proof (rule map_inj_on)
  have d: "distinct (map f ys)"
    using assms by (metis mset_eq_imp_distinct_iff mset_map)
  show "map f (sort_key f xs) = map f (sort_key f ys)"
    using assms d by (intro sorted_distinct_set_unique)
      (simp_all add: sorted_sort_key distinct_map mset_eq_setD [OF assms(1)])
  show "inj_on f (set (sort_key f xs) \<union> set (sort_key f ys))"
    using assms(2) mset_eq_setD [OF assms(1)] by (simp add: distinct_map)
qed

definition is_service :: "string \<times> val \<Rightarrow> bool" where
  "is_service p \<longleftrightarrow> fst p \<notin> {''dns'', ''haproxy'', ''ssh''} \<and> as_map (snd p) \<noteq> None"

definition service_op :: "string \<Rightarrow> Operation" where
  "service_op name = \<lparr>op_Backend = ''systemd-unit'', op_Scope = ''service '' @ dashed name,
     op_Actions = [''write /etc/clawgress/services/'' @ name @ ''.json'',
       ''systemctl reload-or-restart '' @ dashed name]\<rparr>"

lemma serviceLoop_filter: "serviceLoop m = map (\<lambda>p. service_op (fst p)) (filter is_service m)"
  by (induction m rule: serviceLoop.induct) (auto simp: is_service_def service_op_def)

definition before_service :: "vmap \<Rightarrow> Operation list" where
  "before_service c = buildInterfaceOps c @ buildSystemOps c @
     (if length (mapAt c [''service'']) = 0 then [] else
      (if length (mapAt c [''service'', ''dns'', ''forwarding'']) > 0 then
         [\<lparr>op_Backend = ''bind9'', op_Scope = ''service dns forwarding'',
           op_Actions = [''write /etc/bind/named.conf.options'', ''systemctl restart bind9'']\<rparr>] else []) @
      (if length (mapAt c [''service'', ''haproxy'']) > 0 then
         [\<lparr>op_Backend = ''haproxy'', op_Scope = ''service haproxy'',
           op_Actions = [''write /etc/haproxy/haproxy.cfg'', ''systemctl restart haproxy'']\<rparr>] else []) @
      (if length (mapAt c [''service'', ''ssh'']) > 0 then
         [\<lparr>op_Backend = ''openssh-server'', op_Scope = ''service ssh'',
           op_Actions = [''write /etc/ssh/sshd_config.d/90-clawgress.conf'', ''systemctl restart ssh'']\<rparr>] else []))"

definition after_service :: "vmap \<Rightarrow> Operation list" where
  "after_service c = buildFirewallNatOps c @ buildPolicyOps c @ buildFamilyFallbackOps c"

lemma plan_split:
  "BuildOpsPlan c = dedupeOps (before_service c @ serviceLoop (mapAt c [''service'']) @ after_service c)"
  by (simp add: BuildOpsPlan_def before_service_def after_service_def buildServiceOps_def Let_def)

lemma interfaceOp_backend:
  "op \<in> set (interfaceOp e i) \<Longrightarrow> op_Backend op = ''dhclient+systemd'' \<or> op_Backend op = ''systemd-networkd''"
  unfolding interfaceOp_def Let_def by (cases "as_map (mindex e i)") (simp_all split: if_split_asm)

lemma buildSystemOps_backend:
  "op \<in> set (buildSystemOps c) \<Longrightarrow>
   op_Backend op = ''hostnamectl'' \<or> op_Backend op = ''systemd-resolved'' \<or> op_Backend op = ''chrony''"
  unfolding buildSystemOps_def Let_def set_append Un_iff by (elim disjE) (simp_all split: if_split_asm)

lemma not_unit_before:
  assumes "op \<in> set (before_service c)"
  shows "op_Backend op \<noteq> ''systemd-unit'' \<and> CHR ''|'' \<notin> set (op_Backend op)"
proof -
  consider "op \<in> set (buildInterfaceOps c)" | "op \<in> set (buildSystemOps c)"
    | "op_Backend op = ''bind9'' \<or> op_Backend op = ''haproxy'' \<or> op_Backend op = ''openssh-server''"
    using assms unfolding before_service_def set_append Un_iff
    by (elim disjE) (simp_all split: if_split_asm, elim disjE conjE, simp_all)
  then show ?thesis
  proof cases
    case 1
    then obtain i where "op \<in> set (interfaceOp (mapAt c [''interfaces'', ''ethernet'']) i)"
      by (auto simp: buildInterfaceOps_def Let_def split: if_split_asm)
    from interfaceOp_backend [OF this] show ?thesis by (elim disjE) simp_all
  next
    case 2
    from buildSystemOps_backend [OF this] show ?thesis by (elim disjE) simp_all
  qed (elim disjE, simp_all)
qed

lemma key_parts:
  assumes "CHR ''|'' \<notin> set (op_Backend p)" and "CHR ''|'' \<notin> set (op_Backend q)" and "op_key p = op_key q"
  shows "op_Backend p = op_Backend q \<and> op_Scope p = op_Scope q"
proof -
  have "CutByte CHR ''|'' (op_key p) = CutByte CHR ''|'' (op_key q)" using assms(3) by simp
  then show ?thesis using assms(1,2) by (simp add: op_key_def)
qed

lemma dedupe_service:
  assumes "inj_on dashed (set (map fst m))" and "gomap_ok m"
    and "\<forall>op \<in> set pre. op_Backend op \<noteq> ''systemd-unit'' \<and> CHR ''|'' \<notin> set (op_Backend op)"
  shows "dedupeLoop {} (pre @ serviceLoop m @ post) =
     dedupeLoop {} pre @ serviceLoop m @ dedupeLoop (op_key ` set (plan_dedupe.kept pre) \<union> op_key ` set (serviceLoop m)) post"
proof -
  have named: "plan_dedupe.kept (serviceLoop m) = serviceLoop m"
    by (auto simp: serviceLoop_filter filter_id_conv unnamed_def service_op_def)
  have "distinct (map fst (filter is_service m))"
    using assms(2) by (simp add: gomap_ok_def distinct_map_filter)
  moreover have "inj_on (\<lambda>n. op_key (service_op n)) (set (map fst m))"
    using assms(1) by (auto simp: inj_on_def op_key_def service_op_def)
  ultimately have "distinct (map (\<lambda>n. op_key (service_op n)) (map fst (filter is_service m)))"
    by (subst distinct_map) (auto elim: inj_on_subset)
  then have dist: "distinct (map op_key (serviceLoop m))"
    by (simp add: serviceLoop_filter comp_def)
  have disj: "op_key ` set (serviceLoop m) \<inter> op_key ` set (plan_dedupe.kept pre) = {}"
  proof (rule ccontr)
    assume "\<not> ?thesis"
    then obtain n q where nq: "q \<in> set pre" "op_key (service_op n) = op_key q"
      by (auto simp: serviceLoop_filter)
    then have "op_Backend (service_op n) = op_Backend q"
      using key_parts [of "service_op n" q] assms(3) by (auto simp: service_op_def)
    with nq(1) assms(3) show False by (auto simp: service_op_def)
  qed
  have "dedupeLoop (op_key ` set (plan_dedupe.kept pre)) (serviceLoop m) = serviceLoop m"
    using plan_dedupe.run_unique [of "serviceLoop m" "op_key ` set (plan_dedupe.kept pre)"] named dist disj by simp
  then show ?thesis
    using plan_dedupe.run_append [of "{}" pre "serviceLoop m @ post"]
      plan_dedupe.run_append [of "op_key ` set (plan_dedupe.kept pre)" "serviceLoop m" post] named by simp
qed

definition service_here :: "val option \<Rightarrow> bool" where
  "service_here ov \<longleftrightarrow> (case ov of None \<Rightarrow> False | Some v \<Rightarrow> as_map v \<noteq> None)"

lemma service_keys:
  assumes "gomap_ok m"
  shows "fst ` set (filter is_service m) = {k. k \<notin> {''dns'', ''haproxy'', ''ssh''} \<and> service_here (mget m k)}"
proof (rule set_eqI)
  fix k
  have "k \<in> fst ` set (filter is_service m) \<longleftrightarrow> (\<exists>v. (k, v) \<in> set m \<and> is_service (k, v))" by force
  then show "k \<in> fst ` set (filter is_service m) \<longleftrightarrow>
      k \<in> {k. k \<notin> {''dns'', ''haproxy'', ''ssh''} \<and> service_here (mget m k)}"
    by (auto simp: gomap_ok_mem_iff [OF assms] is_service_def service_here_def split: option.splits)
qed

lemma serviceLoop_mset:
  assumes "meq m n"
  shows "mset (serviceLoop m) = mset (serviceLoop n)"
proof (cases "m = n")
  case False
  then have ok: "gomap_ok m" "gomap_ok n" and rel: "\<And>k. rel_option veq (mget m k) (mget n k)"
    using meq_cases [OF assms] by auto
  have "as_map v = None \<longleftrightarrow> as_map w = None" if "veq v w" for v w
    using veq_as_map [OF that] by (cases rule: option.rel_cases) simp_all
  then have "service_here (mget m k) \<longleftrightarrow> service_here (mget n k)" for k
    using rel [of k] by (cases "mget m k"; cases "mget n k") (simp_all add: service_here_def del: not_None_eq)
  then have "fst ` set (filter is_service m) = fst ` set (filter is_service n)"
    by (simp only: service_keys [OF ok(1)] service_keys [OF ok(2)])
  moreover have "distinct (map fst (filter is_service m))" "distinct (map fst (filter is_service n))"
    using ok by (simp_all add: gomap_ok_def distinct_map_filter)
  ultimately have "mset (map fst (filter is_service m)) = mset (map fst (filter is_service n))"
    using set_eq_iff_mset_eq_distinct [of "map fst (filter is_service m)" "map fst (filter is_service n)"]
    by (simp del: mset_map mset_filter)
  then have "mset (map service_op (map fst (filter is_service m))) = mset (map service_op (map fst (filter is_service n)))"
    unfolding mset_map by simp
  then show ?thesis by (simp add: serviceLoop_filter comp_def)
qed simp

text \<open>
  C25: the plan does not depend on map order. Go iterates over maps in an unspecified order; two
  configuration trees that hold the same entries, in whatever order at whatever depth, give the same
  plan, provided no two service names differ only in \<open>_\<close> and \<open>-\<close>.
\<close>

theorem ops_plan_order_independent:
  assumes "veq (VMap c) (VMap d)" and "gomap_ok (mapAt c [''service''])"
    and "inj_on dashed (set (map fst (mapAt c [''service''])))"
  shows "BuildOpsPlan c = BuildOpsPlan d"
proof -
  have m: "meq c d" using assms(1) by (simp add: meq_def)
  let ?m = "mapAt c [''service'']" and ?n = "mapAt d [''service'']"
  note s = mapAt_meq [OF m, of "[''service'']"]
  have bf: "before_service c = before_service d" "after_service c = after_service d"
    unfolding before_service_def after_service_def buildInterfaceOps_meq [OF m] fixed_builders_meq [OF m]
      mapAt_length_meq [OF m] by (rule refl)+
  have n: "gomap_ok ?n" "inj_on dashed (set (map fst ?n))"
    using assms(2,3) meq_cases [OF s] meq_keys [OF s] by auto
  let ?f = "\<lambda>op. (op_Backend op, op_Scope op)"
  let ?xs = "dedupeLoop {} (before_service c @ serviceLoop ?m @ after_service c)"
  let ?ys = "dedupeLoop {} (before_service c @ serviceLoop ?n @ after_service c)"
  have pre: "\<forall>op \<in> set (before_service c). op_Backend op \<noteq> ''systemd-unit'' \<and> CHR ''|'' \<notin> set (op_Backend op)"
    using not_unit_before by blast
  have sv: "mset (serviceLoop ?m) = mset (serviceLoop ?n)" by (rule serviceLoop_mset [OF s])
  have "mset ?xs = mset ?ys"
    unfolding dedupe_service [OF assms(3,2) pre] dedupe_service [OF n(2,1) pre] mset_eq_setD [OF sv]
    by (simp add: sv)
  moreover have "distinct (map ?f ?xs)"
  proof -
    have "distinct (map op_key ?xs)" by (rule plan_dedupe.run_distinct_keys)
    then have "distinct (map (\<lambda>p. fst p @ ''|'' @ snd p) (map ?f ?xs))"
      by (simp add: comp_def op_key_def [abs_def])
    then show ?thesis unfolding distinct_map by blast
  qed
  ultimately have "sort_key ?f ?xs = sort_key ?f ?ys" by (rule sort_key_unique)
  then show ?thesis by (simp add: plan_split dedupeOps_def bf)
qed

text \<open>
  without the proviso the plan depends on chance. Two services whose names differ only in \<open>_\<close> and
  \<open>-\<close> get one operation, and which of the two files it writes depends on the order in which the map
  is visited: two trees with the same entries give different plans.
\<close>

theorem ops_plan_name_collision:
  fixes c d :: vmap
  defines "c \<equiv> [(''service'', VMap [(''a_b'', VMap []), (''a-b'', VMap [])])]"
    and "d \<equiv> [(''service'', VMap [(''a-b'', VMap []), (''a_b'', VMap [])])]"
  shows "veq (VMap c) (VMap d) \<and>
     map (\<lambda>op. hd (op_Actions op)) (BuildOpsPlan c) =
       [''write /etc/clawgress/rendered/service.json'', ''write /etc/clawgress/services/a_b.json''] \<and>
     map (\<lambda>op. hd (op_Actions op)) (BuildOpsPlan d) =
       [''write /etc/clawgress/rendered/service.json'', ''write /etc/clawgress/services/a-b.json'']"
proof (intro conjI)
  let ?m = "[(''a_b'', VMap []), (''a-b'', VMap [])]" and ?n = "[(''a-b'', VMap []), (''a_b'', VMap [])]"
  have "veq (VMap ?m) (VMap ?n)"
    by (rule veq_maps) (simp_all add: gomap_ok_def veq_same)
  then show "veq (VMap c) (VMap d)"
    unfolding c_def d_def by (intro veq_maps) (simp_all add: gomap_ok_def)
qed (unfold c_def d_def, code_simp+)

theorem ops_plan_order_independent_witness:
  "BuildOpsPlan [(''service'', VMap [(''ids'', VMap []), (''ssh'', VMap [(''p'', VInt 22)])]), (''nat'', VMap [(''x'', VNil)])] =
   BuildOpsPlan [(''nat'', VMap [(''x'', VNil)]), (''service'', VMap [(''ssh'', VMap [(''p'', VInt 22)]), (''ids'', VMap [])])]"
proof (rule ops_plan_order_independent)
  have "veq (VMap [(''ids'', VMap []), (''ssh'', VMap [(''p'', VInt 22)])])
      (VMap [(''ssh'', VMap [(''p'', VInt 22)]), (''ids'', VMap [])])"
    by (rule veq_maps) (simp_all add: gomap_ok_def veq_same)
  then show "veq (VMap [(''service'', VMap [(''ids'', VMap []), (''ssh'', VMap [(''p'', VInt 22)])]), (''nat'', VMap [(''x'', VNil)])])
      (VMap [(''nat'', VMap [(''x'', VNil)]), (''service'', VMap [(''ssh'', VMap [(''p'', VInt 22)]), (''ids'', VMap [])])])"
    by (intro veq_maps) (simp_all add: gomap_ok_def veq_same)
qed (simp_all add: mapAt_def gomap_ok_def dashed_def ReplaceByte_def)

end
