(* ===== verification/Enforcer_Runs.thy ===== *)
theory Enforcer_Runs
  imports Enforcer_Props
begin

text \<open>
  Running a plan: which of its actions the executor accepts, when a run in apply mode succeeds, and
  that its report says exactly what was done.
\<close>

section \<open>Writes stay where the executor allows them\<close>

lemma hasAnyPrefix_ex: "hasAnyPrefix path ps \<longleftrightarrow> (\<exists>p \<in> set ps. HasPrefix path p)"
  by (induction ps) auto

lemma write_path_prefix:
  assumes "p \<noteq> []" and "list_all visible p"
  shows "HasPrefix (write_path (''write '' @ p @ s)) p"
proof -
  have v: "visible (hd p)" "visible (last p)" using assms by (simp_all add: list_all_iff)
  obtain t where t: "TrimSpace (p @ s) = p @ t" using TrimSpace_keeps_prefix [OF assms(1) v] by blast
  have nb: "CHR '' '' \<notin> set p" using assms(2) by (auto simp: list_all_iff visible_def)
  let ?cut = "case IndexByte (p @ t) CHR '' '' of Some i \<Rightarrow> if i > 0 then take i (p @ t) else p @ t | None \<Rightarrow> p @ t"
  have "\<exists>u. ?cut = p @ u"
  proof (cases "IndexByte (p @ t) CHR '' ''")
    case (Some i)
    have "length p \<le> i"
    proof (rule ccontr)
      assume "\<not> length p \<le> i"
      moreover have "(p @ t) ! i = CHR '' ''" using IndexByte_Some [OF Some] by simp
      ultimately have "p ! i = CHR '' ''" by (simp add: nth_append)
      then show False using nb \<open>\<not> length p \<le> i\<close> by (metis not_le nth_mem)
    qed
    then have "take i (p @ t) = p @ take (i - length p) t" by simp
    then show ?thesis using Some by auto
  qed auto
  then obtain u where "?cut = p @ u" by blast
  moreover obtain w where "TrimSpace (p @ u) = p @ w" using TrimSpace_keeps_prefix [OF assms(1) v] by blast
  ultimately show ?thesis unfolding write_path_def Let_def TrimPrefix_append t by (simp add: HasPrefix_iff)
qed


section \<open>The actions of a plan\<close>

text \<open>How every action of a plan begins, the host name apart.\<close>

definition action_heads :: "string list" where
  "action_heads = map (\<lambda>d. ''write '' @ d) allowed_dirs @
     [''systemctl d'', ''systemctl re'', ''ip link'', ''nft -'']"

definition good_action :: "string \<Rightarrow> bool" where
  "good_action a \<longleftrightarrow> (\<exists>h \<in> set action_heads. prefix h a)"

definition good_op :: "Operation \<Rightarrow> bool" where
  "good_op op \<longleftrightarrow> list_all good_action (op_Actions op) \<and> \<not> prefix ''ho'' (op_Backend op) \<and>
     (op_Backend op = ''nftables'' \<or> list_all (\<lambda>a. \<not> prefix ''nft'' a) (op_Actions op))"

lemmas good_simps = good_op_def good_action_def action_heads_def allowed_dirs_def

lemma good_interfaceState:
  "list_all good_action (interfaceStateActions i m)" "list_all (\<lambda>a. \<not> prefix ''nft'' a) (interfaceStateActions i m)"
  unfolding interfaceStateActions_def Let_def
  by (cases "mindex m ''mtu''"; simp add: good_simps)+

lemma good_interfaceOp: "list_all good_op (interfaceOp eth i)"
proof (cases "as_map (mindex eth i)")
  case (Some m)
  show ?thesis
    using good_interfaceState [of i m] unfolding interfaceOp_def Some Let_def
    by (simp add: good_op_def) (simp add: good_simps)
qed (simp add: interfaceOp_def)

lemma good_interfaces: "list_all good_op (buildInterfaceOps c)"
  using good_interfaceOp by (simp add: buildInterfaceOps_def Let_def list_all_iff)

lemma good_services: "list_all good_op (serviceLoop m)"
  by (induction m rule: serviceLoop.induct) (simp_all add: good_simps)

lemma good_service_ops: "list_all good_op (buildServiceOps c)"
  using good_services [of "mapAt c [''service'']"]
  by (simp add: buildServiceOps_def Let_def) (simp add: good_simps)

lemma good_fallback: "list_all good_op (fallbackLoop c fs)"
  by (induction fs) (simp_all add: good_simps)

lemma good_firewall: "list_all good_op (buildFirewallNatOps c)"
  by (simp add: buildFirewallNatOps_def good_simps)

lemma good_policy: "list_all good_op (buildPolicyOps c)"
  by (simp add: buildPolicyOps_def good_simps)

text \<open>The one operation that the executor does not know.\<close>

definition host_op :: "string \<Rightarrow> Operation" where
  "host_op h = \<lparr>op_Backend = ''hostnamectl'', op_Scope = ''system host-name'',
     op_Actions = [''hostnamectl set-hostname '' @ h]\<rparr>"

definition hostName :: "vmap \<Rightarrow> string" where
  "hostName c = getString c [''system'', ''host_name'']"

lemma system_ops:
  "op \<in> set (buildSystemOps c) \<Longrightarrow> good_op op \<or> op = host_op (hostName c) \<and> hostName c \<noteq> []"
  unfolding buildSystemOps_def Let_def set_append Un_iff hostName_def [symmetric]
  by (elim disjE) (simp_all add: host_op_def good_simps split: if_split_asm)

lemma host_op_in_system: "hostName c \<noteq> [] \<Longrightarrow> host_op (hostName c) \<in> set (buildSystemOps c)"
  unfolding buildSystemOps_def Let_def hostName_def host_op_def by simp

text \<open>What a plan consists of.\<close>

lemma plan_mem:
  assumes "op \<in> set (BuildOpsPlan c)"
  shows "op \<in> set (buildInterfaceOps c @ buildSystemOps c @ buildServiceOps c @
      buildFirewallNatOps c @ buildPolicyOps c @ buildFamilyFallbackOps c) \<and> \<not> unnamed op"
  using assms plan_dedupe.run_subset unfolding BuildOpsPlan_def dedupeOps_def by fastforce

lemma plan_ops:
  assumes "op \<in> set (BuildOpsPlan c)"
  shows "good_op op \<or> op = host_op (hostName c) \<and> hostName c \<noteq> []"
proof -
  have fb: "list_all good_op (buildFamilyFallbackOps c)"
    unfolding buildFamilyFallbackOps_def by (rule good_fallback)
  show ?thesis
    using plan_mem [OF assms] good_interfaces [of c] good_service_ops [of c] good_firewall [of c]
      good_policy [of c] fb system_ops [of op c]
    by (auto simp: list_all_iff)
qed

lemma host_op_planned:
  assumes "hostName c \<noteq> []"
  shows "host_op (hostName c) \<in> set (BuildOpsPlan c)"
proof -
  let ?all = "buildInterfaceOps c @ buildSystemOps c @ buildServiceOps c @
      buildFirewallNatOps c @ buildPolicyOps c @ buildFamilyFallbackOps c"
  have "\<not> unnamed (host_op (hostName c))" by (simp add: unnamed_def host_op_def)
  then have "op_key (host_op (hostName c)) \<in> op_key ` set (dedupeLoop {} ?all)"
    using host_op_in_system [OF assms] plan_dedupe.run_keys [of "{}" ?all] by auto
  then obtain op where op: "op \<in> set (BuildOpsPlan c)" "op_key op = op_key (host_op (hostName c))"
    unfolding BuildOpsPlan_def dedupeOps_def by auto
  have "\<not> good_op op"
  proof
    assume "good_op op"
    moreover have "prefix ''ho'' (op_Backend op @ ''|'' @ op_Scope op)" "op_Backend op \<noteq> []"
      using op(2) plan_mem [OF op(1)] by (simp_all add: op_key_def host_op_def unnamed_def)
    ultimately show False
      by (cases "op_Backend op"; cases "tl (op_Backend op)") (auto simp: good_op_def)
  qed
  with plan_ops [OF op(1)] op(1) show ?thesis by auto
qed

section \<open>What the executor accepts\<close>

text \<open>An environment in which files can be written and commands succeed.\<close>

definition smooth :: "exec_env \<Rightarrow> bool" where
  "smooth E \<longleftrightarrow> (\<forall>p. f_mkdir (ee_faults E) p = None) \<and> (\<forall>p. f_write (ee_faults E) p = None) \<and>
     (\<forall>n args. fst (ee_run E n args) = None)"

lemma dirs_visible: "d \<in> set allowed_dirs \<Longrightarrow> d \<noteq> [] \<and> list_all visible d"
  by (auto simp: allowed_dirs_def visible_def)

lemma trimmed_head:
  assumes "h \<in> set action_heads"
  shows "\<exists>t. TrimSpace (h @ s) = h @ t"
  using assms by (intro TrimSpace_keeps_prefix) (auto simp: action_heads_def allowed_dirs_def visible_def)

lemma allowed_write:
  assumes "d \<in> set allowed_dirs"
  shows "isAllowedWritePath (write_path (''write '' @ d @ t))"
  using write_path_prefix [of d t] dirs_visible [OF assms] assms
  by (auto simp: isAllowedWritePath_def hasAnyPrefix_ex)

lemma runCommand_smooth: "smooth E \<Longrightarrow> fst (runCommand E n args x) = None"
  unfolding smooth_def runCommand_def Let_def by (cases "ee_run E n args") (auto split: option.splits, metis fst_conv option.distinct(1))

lemma executeWrite_smooth:
  assumes "smooth E" and "isAllowedWritePath (write_path a)"
  shows "fst (executeWriteAction E a x) = None"
proof -
  have "write_path a \<noteq> []"
    using assms(2) by (auto simp: isAllowedWritePath_def allowed_dirs_def HasPrefix_iff)
  then show ?thesis
    using assms by (simp add: executeWriteAction_def Let_def smooth_def WriteFile_def)
qed

lemma good_action_runs:
  assumes "good_action a" and "smooth E"
  shows "fst (executeAction E a x) = None"
proof -
  obtain h s where h: "h \<in> set action_heads" "a = h @ s"
    using assms(1) by (auto simp: good_action_def prefix_def)
  obtain t where t: "TrimSpace a = h @ t" using trimmed_head [OF h(1)] h(2) by blast
  have "h \<in> (@) ''write '' ` set allowed_dirs \<or> h \<in> {''systemctl d'', ''systemctl re'', ''ip link'', ''nft -''}"
    using h(1) unfolding action_heads_def set_append set_map list.set Un_iff by assumption
  then show ?thesis
  proof
    assume "h \<in> (@) ''write '' ` set allowed_dirs"
    then obtain d where d: "d \<in> set allowed_dirs" "h = ''write '' @ d" by blast
    have "fst (executeWriteAction E (''write '' @ d @ t) x) = None"
      by (rule executeWrite_smooth [OF assms(2) allowed_write [OF d(1)]])
    then show ?thesis using t d(2) by (simp add: executeAction_def Let_def HasPrefix_iff)
  next
    assume "h \<in> {''systemctl d'', ''systemctl re'', ''ip link'', ''nft -''}"
    then show ?thesis using t runCommand_smooth [OF assms(2)]
      by (auto simp: executeAction_def Let_def HasPrefix_iff)
  qed
qed

lemma host_action_refused:
  assumes "ee_mock E \<noteq> ''1''"
  shows "executeAction E (''hostnamectl set-hostname '' @ h) x =
     (Some (''action not allowed: '' @ TrimSpace (''hostnamectl set-hostname '' @ h)), x)"
proof -
  obtain t where "TrimSpace (''hostnamectl'' @ '' set-hostname '' @ h) = ''hostnamectl'' @ t"
    using TrimSpace_keeps_prefix [of "''hostnamectl''"] by (auto simp: visible_def)
  then show ?thesis using assms by (simp add: executeAction_def Let_def HasPrefix_iff)
qed

section \<open>What a run reports\<close>

text \<open>The actions of a list of operations in order, each with the line under which it is logged.\<close>

definition all_actions :: "Operation list \<Rightarrow> (string \<times> string) list" where
  "all_actions ops = concat (map (\<lambda>op. map (\<lambda>a. (op_Backend op @ '' '' @ op_Scope op @ '': '' @ a, a)) (op_Actions op)) ops)"

text \<open>A run of actions in which each succeeds.\<close>

inductive applied_run :: "exec_env \<Rightarrow> string list \<Rightarrow> exec_state \<Rightarrow> exec_state \<Rightarrow> bool" for E where
  run_none: "applied_run E [] x x"
| run_one: "executeAction E a x = (None, y) \<Longrightarrow> applied_run E as y z \<Longrightarrow> applied_run E (a # as) x z"

inductive_simps applied_run_Nil [simp]: "applied_run E [] x y"
inductive_cases applied_run_ConsE: "applied_run E (a # as) x z"

text \<open>The two loops as one over the flat list.\<close>

fun flatLoop :: "exec_env \<Rightarrow> string \<Rightarrow> (string \<times> string) list \<Rightarrow> OpsExecResult \<Rightarrow> exec_state \<Rightarrow>
    error option \<times> OpsExecResult \<times> exec_state" where
  "flatLoop E nm [] out x = (None, out, x)"
| "flatLoop E nm ((line, a) # as) out x =
    (if nm = ''dry-run'' then flatLoop E nm as (out\<lparr>ox_Logs := ox_Logs out @ [''DRYRUN '' @ line]\<rparr>) x
     else (case executeAction E a x of
       (Some e, x) \<Rightarrow> (Some e, out\<lparr>ox_Failed := ox_Failed out + 1,
           ox_Logs := ox_Logs out @ [''ERROR '' @ line @ '' :: '' @ e]\<rparr>, x)
     | (None, x) \<Rightarrow> flatLoop E nm as (out\<lparr>ox_Applied := ox_Applied out + 1,
           ox_Logs := ox_Logs out @ [''APPLIED '' @ line]\<rparr>) x))"

lemma actionLoop_flat:
  "(case actionLoop E nm op as out x of (Some e, out, x) \<Rightarrow> (Some e, out, x) | (None, out, x) \<Rightarrow> flatLoop E nm bs out x) =
   flatLoop E nm (map (\<lambda>a. (op_Backend op @ '' '' @ op_Scope op @ '': '' @ a, a)) as @ bs) out x"
proof (induction as arbitrary: out x)
  case (Cons a as)
  obtain err y where x: "executeAction E a x = (err, y)" by fastforce
  show ?case
    using Cons.IH by (cases "nm = ''dry-run''"; cases err) (simp_all add: x Let_def)
qed simp

lemma all_actions_Cons:
  "all_actions (op # ops) = map (\<lambda>a. (op_Backend op @ '' '' @ op_Scope op @ '': '' @ a, a)) (op_Actions op) @ all_actions ops"
  by (simp add: all_actions_def)

lemma opLoop_flat: "opLoop E nm ops out x = flatLoop E nm (all_actions ops) out x"
proof (induction ops arbitrary: out x)
  case (Cons op ops)
  show ?case unfolding opLoop.simps Cons.IH all_actions_Cons actionLoop_flat by (rule refl)
qed (simp add: all_actions_def)

lemma flat_dry:
  "flatLoop E ''dry-run'' as out x = (None, out\<lparr>ox_Logs := ox_Logs out @ map (\<lambda>p. ''DRYRUN '' @ fst p) as\<rparr>, x)"
  by (induction as arbitrary: out) (auto split: prod.splits)

lemma flat_apply:
  "\<exists>done rest y. as = done @ rest \<and> applied_run E (map snd done) x y \<and>
     (rest = [] \<and> flatLoop E ''apply'' as out x = (None, out\<lparr>ox_Applied := ox_Applied out + length done,
          ox_Logs := ox_Logs out @ map (\<lambda>p. ''APPLIED '' @ fst p) done\<rparr>, y) \<or>
      (\<exists>line a more e z. rest = (line, a) # more \<and> executeAction E a y = (Some e, z) \<and>
        flatLoop E ''apply'' as out x = (Some e, out\<lparr>ox_Applied := ox_Applied out + length done,
          ox_Failed := ox_Failed out + 1,
          ox_Logs := ox_Logs out @ map (\<lambda>p. ''APPLIED '' @ fst p) done @ [''ERROR '' @ line @ '' :: '' @ e]\<rparr>, z)))"
proof (induction as arbitrary: out x)
  case Nil
  show ?case by (intro exI [of _ "[]"] exI [of _ x]) simp
next
  case (Cons p as)
  obtain line a where p: "p = (line, a)" by fastforce
  show ?case
  proof (cases "executeAction E a x")
    case (Pair err y)
    show ?thesis
    proof (cases err)
      case (Some e)
      then show ?thesis
        using Pair p by (intro exI [of _ "[]"] exI [of _ "p # as"] exI [of _ x]) simp
    next
      case None
      let ?out = "out\<lparr>ox_Applied := ox_Applied out + 1, ox_Logs := ox_Logs out @ [''APPLIED '' @ line]\<rparr>"
      obtain don rest z where ih: "as = don @ rest" "applied_run E (map snd don) y z"
        "rest = [] \<and> flatLoop E ''apply'' as ?out y = (None, ?out\<lparr>ox_Applied := ox_Applied ?out + length don,
          ox_Logs := ox_Logs ?out @ map (\<lambda>p. ''APPLIED '' @ fst p) don\<rparr>, z) \<or>
         (\<exists>line a more e w. rest = (line, a) # more \<and> executeAction E a z = (Some e, w) \<and>
          flatLoop E ''apply'' as ?out y = (Some e, ?out\<lparr>ox_Applied := ox_Applied ?out + length don,
          ox_Failed := ox_Failed ?out + 1,
          ox_Logs := ox_Logs ?out @ map (\<lambda>p. ''APPLIED '' @ fst p) don @ [''ERROR '' @ line @ '' :: '' @ e]\<rparr>, w))"
        using Cons.IH [where out = ?out and x = y] by metis
      have "applied_run E (map snd (p # don)) x z"
        using ih(2) Pair None p by (simp add: run_one)
      moreover have "flatLoop E ''apply'' (p # as) out x = flatLoop E ''apply'' as ?out y"
        using Pair None p by simp
      ultimately show ?thesis
        using ih(1,3) p by (intro exI [of _ "p # don"] exI [of _ rest] exI [of _ z]) auto
    qed
  qed
qed

lemma flat_apply0:
  "\<exists>done rest y. as = done @ rest \<and> applied_run E (map snd done) x y \<and>
     (rest = [] \<and> flatLoop E ''apply'' as \<lparr>ox_Mode = m, ox_Applied = 0, ox_Failed = 0, ox_Logs = []\<rparr> x =
         (None, \<lparr>ox_Mode = m, ox_Applied = length done, ox_Failed = 0,
            ox_Logs = map (\<lambda>p. ''APPLIED '' @ fst p) done\<rparr>, y) \<or>
      (\<exists>line a more e z. rest = (line, a) # more \<and> executeAction E a y = (Some e, z) \<and>
        flatLoop E ''apply'' as \<lparr>ox_Mode = m, ox_Applied = 0, ox_Failed = 0, ox_Logs = []\<rparr> x =
         (Some e, \<lparr>ox_Mode = m, ox_Applied = length done, ox_Failed = 1,
            ox_Logs = map (\<lambda>p. ''APPLIED '' @ fst p) done @ [''ERROR '' @ line @ '' :: '' @ e]\<rparr>, z)))"
  using flat_apply [where out = "\<lparr>ox_Mode = m, ox_Applied = 0, ox_Failed = 0, ox_Logs = []\<rparr>"]
  by simp

lemma applied_run_mem:
  "applied_run E as x z \<Longrightarrow> a \<in> set as \<Longrightarrow> \<exists>u v. executeAction E a u = (None, v)"
  by (induction rule: applied_run.induct) auto

text \<open>
  C27: the report of a run is what happened. An unknown mode is an error and nothing happens. A dry run
  lists every action and does nothing. In apply mode the actions are carried out in order up to the
  first that fails: \<open>Applied\<close> counts and \<open>Logs\<close> lists exactly those that succeeded, then the failure
  if there is one, and nothing after it has been done.
\<close>

theorem run_report:
  "case ExecuteOpsPlan U E ops mode x of (err, out, x') \<Rightarrow>
     if NormalizeOpsMode U mode = ''dry-run'' then
       err = None \<and> x' = x \<and> out = \<lparr>ox_Mode = ''dry-run'', ox_Applied = 0, ox_Failed = 0,
         ox_Logs = map (\<lambda>p. ''DRYRUN '' @ fst p) (all_actions ops)\<rparr>
     else if NormalizeOpsMode U mode = ''apply'' then
       (\<exists>done rest y. all_actions ops = done @ rest \<and> applied_run E (map snd done) x y \<and>
         (rest = [] \<and> err = None \<and> x' = y \<and> out = \<lparr>ox_Mode = ''apply'', ox_Applied = length done,
            ox_Failed = 0, ox_Logs = map (\<lambda>p. ''APPLIED '' @ fst p) done\<rparr> \<or>
          (\<exists>line a more e. rest = (line, a) # more \<and> executeAction E a y = (Some e, x') \<and> err = Some e \<and>
            out = \<lparr>ox_Mode = ''apply'', ox_Applied = length done, ox_Failed = 1,
              ox_Logs = map (\<lambda>p. ''APPLIED '' @ fst p) done @ [''ERROR '' @ line @ '' :: '' @ e]\<rparr>)))
     else err = Some (''invalid ops mode: '' @ fmt_q mode) \<and> x' = x"
proof -
  define out0 where "out0 = \<lparr>ox_Mode = ''apply'', ox_Applied = 0, ox_Failed = 0, ox_Logs = []\<rparr>"
  have modes: "NormalizeOpsMode U mode = [] \<or> NormalizeOpsMode U mode = ''dry-run'' \<or>
      NormalizeOpsMode U mode = ''apply''"
    by (simp add: NormalizeOpsMode_def Let_def)
  show ?thesis
  proof (cases "NormalizeOpsMode U mode = ''apply''")
    case True
    then have "ExecuteOpsPlan U E ops mode x = flatLoop E ''apply'' (all_actions ops) out0 x"
      by (simp add: ExecuteOpsPlan_def opLoop_flat out0_def Let_def)
    moreover note flat_apply0 [of "all_actions ops" E x "''apply''", folded out0_def]
    ultimately show ?thesis using True by (elim exE conjE disjE) (simp_all, metis+)
  next
    case False
    then show ?thesis using modes by (auto simp: ExecuteOpsPlan_def opLoop_flat flat_dry Let_def)
  qed
qed

lemma apply_run:
  assumes "NormalizeOpsMode U mode = ''apply''"
  obtains don rest y where "all_actions (BuildOpsPlan c) = don @ rest" "applied_run E (map snd don) x y"
    "rest = [] \<and> fst (ExecuteOpsPlan U E (BuildOpsPlan c) mode x) = None \<or>
     (\<exists>line a more e z. rest = (line, a) # more \<and> executeAction E a y = (Some e, z) \<and>
        fst (ExecuteOpsPlan U E (BuildOpsPlan c) mode x) = Some e)"
proof -
  define out0 where "out0 = \<lparr>ox_Mode = ''apply'', ox_Applied = 0, ox_Failed = 0, ox_Logs = []\<rparr>"
  have "ExecuteOpsPlan U E (BuildOpsPlan c) mode x = flatLoop E ''apply'' (all_actions (BuildOpsPlan c)) out0 x"
    using assms by (simp add: ExecuteOpsPlan_def opLoop_flat out0_def Let_def)
  then show ?thesis using that flat_apply [of "all_actions (BuildOpsPlan c)" E x out0] by (metis fst_conv)
qed

lemma apply_without_host:
  assumes "NormalizeOpsMode U mode = ''apply''" and "smooth E" and "hostName c = []"
  shows "fst (ExecuteOpsPlan U E (BuildOpsPlan c) mode x) = None"
proof -
  have ok: "fst (executeAction E a u) = None" if "(line, a) \<in> set (all_actions (BuildOpsPlan c))" for line a u
    using that plan_ops [of _ c] assms(3) good_action_runs [OF _ assms(2)]
    by (auto simp: all_actions_def good_op_def list_all_iff)
  show ?thesis
    by (rule apply_run [OF assms(1), of c E x]) (metis ok fst_conv in_set_conv_decomp option.distinct(1))
qed

lemma apply_with_host:
  assumes "NormalizeOpsMode U mode = ''apply''" and "ee_mock E \<noteq> ''1''" and "hostName c \<noteq> []"
  shows "fst (ExecuteOpsPlan U E (BuildOpsPlan c) mode x) \<noteq> None"
proof -
  let ?h = "''hostnamectl set-hostname '' @ hostName c"
  have act: "?h \<in> set (map snd (all_actions (BuildOpsPlan c)))"
    using host_op_planned [OF assms(3)] by (force simp: all_actions_def host_op_def)
  obtain don rest y where r: "all_actions (BuildOpsPlan c) = don @ rest" "applied_run E (map snd don) x y"
    "rest = [] \<or> (\<exists>e. fst (ExecuteOpsPlan U E (BuildOpsPlan c) mode x) = Some e)"
    using apply_run [OF assms(1), of c E x] by metis
  have "rest \<noteq> []"
  proof
    assume "rest = []"
    with act r(1) have "?h \<in> set (map snd don)" by simp
    from applied_run_mem [OF r(2) this] obtain u v where "executeAction E ?h u = (None, v)" by blast
    then show False by (simp only: host_action_refused [OF assms(2)] prod.inject option.distinct simp_thms)
  qed
  then show ?thesis using r(3) by auto
qed

text \<open>
  C26: a plan can be applied unless it sets the host name. Every write of a plan goes to a directory on
  the executor's list and every command is one it knows, whatever the configuration holds, with one
  exception: the planner emits \<open>hostnamectl\<close>, which the executor refuses. So where files can be
  written and commands succeed, applying a plan fails exactly when the configuration sets
  \<open>system host_name\<close>.
\<close>

theorem plan_applies_iff:
  assumes "NormalizeOpsMode U mode = ''apply''" and "ee_mock E \<noteq> ''1''" and "smooth E"
  shows "fst (ExecuteOpsPlan U E (BuildOpsPlan c) mode x) = None \<longleftrightarrow> getString c [''system'', ''host_name''] = []"
  using apply_without_host [OF assms(1,3)] apply_with_host [OF assms(1,2)] unfolding hostName_def by blast

definition calm_env :: exec_env where
  "calm_env = \<lparr>ee_mock = [], ee_stamp = ''2026'', ee_faults = no_faults, ee_run = (\<lambda>_ _. (None, []))\<rparr>"

theorem plan_applies_iff_witness:
  "fst (ExecuteOpsPlan ascii_only calm_env (BuildOpsPlan [(''system'', VMap [(''host_name'', VStr ''gw'')])]) ''apply''
      \<lparr>xs_fs = \<lambda>_. None, xs_commands = []\<rparr>) \<noteq> None"
proof -
  have "NormalizeOpsMode ascii_only ''apply'' = ''apply''" by code_simp
  moreover have "smooth calm_env" by (simp add: smooth_def calm_env_def no_faults_def)
  moreover have "getString [(''system'', VMap [(''host_name'', VStr ''gw'')])] [''system'', ''host_name''] = ''gw''"
    by code_simp
  ultimately show ?thesis
    using plan_applies_iff [of ascii_only "''apply''" calm_env "[(''system'', VMap [(''host_name'', VStr ''gw'')])]"]
    by (simp add: calm_env_def)
qed

section \<open>What a run touches\<close>

text \<open>Only the executor's directories are written, whatever the plan says.\<close>

lemma executeAction_frame:
  assumes "\<not> isAllowedWritePath p"
  shows "xs_fs (snd (executeAction E a x)) p = xs_fs x p"
  using assms
  by (auto simp: executeAction_def executeWriteAction_def runCommand_def WriteFile_def Let_def split: option.split prod.split)

lemma flat_frame: "\<not> isAllowedWritePath p \<Longrightarrow> xs_fs (snd (snd (flatLoop E nm as out x))) p = xs_fs x p"
proof (induction as arbitrary: out x)
  case (Cons l as)
  obtain line a where l: "l = (line, a)" by fastforce
  obtain err y where a: "executeAction E a x = (err, y)" by fastforce
  then have "xs_fs y p = xs_fs x p" using executeAction_frame [OF Cons.prems, of E a x] by simp
  then show ?case using Cons by (cases "nm = ''dry-run''"; cases err) (simp_all add: l a flat_dry)
qed simp

lemma plan_frame: "\<not> isAllowedWritePath p \<Longrightarrow> xs_fs (snd (snd (ExecuteOpsPlan U E ops mode x))) p = xs_fs x p"
  by (simp add: ExecuteOpsPlan_def opLoop_flat flat_frame Let_def)

text \<open>The \<open>nft\<close> command is run by the actions that begin with it, and by no other.\<close>

definition no_nft :: "exec_state \<Rightarrow> bool" where
  "no_nft x \<longleftrightarrow> (\<forall>c \<in> set (xs_commands x). fst c \<noteq> ''nft'')"

lemma action_no_nft:
  assumes "no_nft x" and "good_action a" and "\<not> prefix ''nft'' a"
  shows "no_nft (snd (executeAction E a x))"
proof -
  obtain h s where h: "h \<in> set action_heads" "a = h @ s"
    using assms(2) by (auto simp: good_action_def prefix_def)
  then obtain t where t: "TrimSpace a = h @ t" using trimmed_head by blast
  have "h \<noteq> ''nft -''" using assms(3) h(2) by auto
  then have "\<not> HasPrefix (TrimSpace a) ''nft ''"
    using h(1) unfolding t HasPrefix_iff by (auto simp: action_heads_def allowed_dirs_def)
  then show ?thesis using assms(1)
    by (auto simp: no_nft_def executeAction_def executeWriteAction_def runCommand_def Let_def split: option.split prod.split)
qed

lemma host_no_nft:
  assumes "no_nft x"
  shows "no_nft (snd (executeAction E (''hostnamectl set-hostname '' @ h) x))"
proof (cases "ee_mock E = ''1''")
  case True
  then show ?thesis using assms by (simp add: executeAction_def Let_def)
next
  case False
  then show ?thesis unfolding host_action_refused [OF False] using assms by simp
qed

lemma applied_no_nft:
  assumes "applied_run E as x y" and "no_nft x" and "\<And>a u. a \<in> set as \<Longrightarrow> no_nft u \<Longrightarrow> no_nft (snd (executeAction E a u))"
  shows "no_nft y"
  using assms
proof (induction rule: applied_run.induct)
  case (run_one a x y as z)
  have "no_nft y" using run_one.prems(2) [of a x] run_one.hyps(1) run_one.prems(1) by simp
  then show ?case using run_one by simp
qed

text \<open>The operations before the host name, in the order of the plan, are not those of the firewall.\<close>

lemma before_host:
  assumes "hostName c \<noteq> []"
  obtains xs ys where "BuildOpsPlan c = xs @ host_op (hostName c) # ys"
    "\<And>op a u. op \<in> set xs \<Longrightarrow> a \<in> set (op_Actions op) \<Longrightarrow> no_nft u \<Longrightarrow> no_nft (snd (executeAction E a u))"
proof -
  let ?key = "\<lambda>op. (op_Backend op, op_Scope op)"
  obtain xs ys where plan: "BuildOpsPlan c = xs @ host_op (hostName c) # ys"
    using host_op_planned [OF assms] by (meson split_list)
  have "sorted (map ?key (BuildOpsPlan c))" unfolding BuildOpsPlan_def dedupeOps_def by (rule sorted_sort_key)
  then have le: "op_Backend op \<le> ''hostnamectl''" if "op \<in> set xs" for op
    using that by (auto simp: plan sorted_append host_op_def less_eq_prod_def)
  have "no_nft (snd (executeAction E a u))" if op: "op \<in> set xs" and a: "a \<in> set (op_Actions op)" and u: "no_nft u" for op a u
  proof -
    have "\<not> ''nftables'' \<le> ''hostnamectl''" by code_simp
    then have "op_Backend op \<noteq> ''nftables''" using le [OF op] by auto
    moreover have "op \<in> set (BuildOpsPlan c)" using op plan by simp
    ultimately consider "good_action a" "\<not> prefix ''nft'' a" | "a = ''hostnamectl set-hostname '' @ hostName c"
      using plan_ops [of op c] a by (auto simp: good_op_def list_all_iff host_op_def)
    then show ?thesis using action_no_nft [OF u] host_no_nft [OF u] by cases auto
  qed
  then show ?thesis using that plan by blast
qed

lemma split_before:
  assumes "xs @ y # ys = ds @ rs" and "y \<notin> set ds"
  shows "\<exists>zs. xs = ds @ zs \<and> rs = zs @ y # ys"
  using assms by (auto simp: append_eq_append_conv2 Cons_eq_append_conv)

text \<open>
  A plan that sets the host name fails before the firewall's operations: whatever fails and whatever the
  commands answer, \<open>nft\<close> is not run.
\<close>

lemma host_run_no_nft:
  assumes "NormalizeOpsMode U mode = ''apply''" and "ee_mock E \<noteq> ''1''" and "hostName c \<noteq> []" and "no_nft x"
  shows "no_nft (snd (snd (ExecuteOpsPlan U E (BuildOpsPlan c) mode x)))"
proof -
  let ?host = "''hostnamectl set-hostname '' @ hostName c"
  define out0 where "out0 = \<lparr>ox_Mode = ''apply'', ox_Applied = 0, ox_Failed = 0, ox_Logs = []\<rparr>"
  obtain xs ys where plan: "BuildOpsPlan c = xs @ host_op (hostName c) # ys"
    and xs: "\<And>op a u. op \<in> set xs \<Longrightarrow> a \<in> set (op_Actions op) \<Longrightarrow> no_nft u \<Longrightarrow> no_nft (snd (executeAction E a u))"
    using before_host [OF assms(3), of E] by metis
  obtain hl more where all: "all_actions (BuildOpsPlan c) = all_actions xs @ (hl, ?host) # more"
    by (simp add: plan all_actions_def host_op_def)
  have quiet: "no_nft (snd (executeAction E a u))" if "a \<in> set (map snd (all_actions xs @ [(hl, ?host)]))" "no_nft u" for a u
    using that xs host_no_nft by (auto simp: all_actions_def)
  have run: "ExecuteOpsPlan U E (BuildOpsPlan c) mode x = flatLoop E ''apply'' (all_actions (BuildOpsPlan c)) out0 x"
    using assms(1) by (simp add: ExecuteOpsPlan_def opLoop_flat out0_def Let_def)
  obtain don rest y where r: "all_actions (BuildOpsPlan c) = don @ rest" "applied_run E (map snd don) x y"
    "rest = [] \<and> snd (snd (flatLoop E ''apply'' (all_actions (BuildOpsPlan c)) out0 x)) = y \<or>
     (\<exists>line a more e z. rest = (line, a) # more \<and> executeAction E a y = (Some e, z) \<and>
        snd (snd (flatLoop E ''apply'' (all_actions (BuildOpsPlan c)) out0 x)) = z)"
    using flat_apply [of "all_actions (BuildOpsPlan c)" E x out0] by (metis snd_conv)
  have "?host \<notin> set (map snd don)"
  proof
    assume "?host \<in> set (map snd don)"
    from applied_run_mem [OF r(2) this] obtain u v where "executeAction E ?host u = (None, v)" by blast
    then show False by (simp only: host_action_refused [OF assms(2)] prod.inject option.distinct simp_thms)
  qed
  then have "(hl, ?host) \<notin> set don" by force
  then obtain zs where zs: "all_actions xs = don @ zs" "rest = zs @ (hl, ?host) # more"
    using r(1) split_before [of "all_actions xs" "(hl, ?host)" more don rest] unfolding all by blast
  have y: "no_nft y" using applied_no_nft [OF r(2) assms(4)] quiet zs(1) by simp
  from r(3) show ?thesis
  proof
    assume "rest = [] \<and> snd (snd (flatLoop E ''apply'' (all_actions (BuildOpsPlan c)) out0 x)) = y"
    then show ?thesis using zs(2) by simp
  next
    assume "\<exists>line a more e z. rest = (line, a) # more \<and> executeAction E a y = (Some e, z) \<and>
        snd (snd (flatLoop E ''apply'' (all_actions (BuildOpsPlan c)) out0 x)) = z"
    then obtain line a m e z where z: "rest = (line, a) # m" "executeAction E a y = (Some e, z)"
      "snd (snd (flatLoop E ''apply'' (all_actions (BuildOpsPlan c)) out0 x)) = z" by blast
    have "(line, a) \<in> set (all_actions xs @ [(hl, ?host)])" using z(1) zs by (cases zs) auto
    then have "a \<in> set (map snd (all_actions xs @ [(hl, ?host)]))" by force
    from quiet [OF this y] show ?thesis unfolding run z(3) by (simp add: z(2))
  qed
qed

section \<open>The write check compares strings\<close>

text \<open>
  The check accepts a path by its first characters, so the name of a service can lead a write out of
  the allowed directories: this plan's first write passes the check and names \<open>/etc/cron.d/x.json\<close>.
\<close>

lemma service_name_escapes:
  "''write /etc/clawgress/services/../../cron.d/x.json'' \<in>
     (\<Union>op \<in> set (BuildOpsPlan [(''service'', VMap [(''../../cron.d/x'', VMap [])])]). set (op_Actions op))"
  "isAllowedWritePath (write_path ''write /etc/clawgress/services/../../cron.d/x.json'')"
  "Clean (write_path ''write /etc/clawgress/services/../../cron.d/x.json'') = ''/etc/cron.d/x.json''"
  by code_simp+

end
