(* ===== verification/Enforcer_Nft.thy ===== *)
theory Enforcer_Nft
  imports Enforcer_Plan Policy_Engine Opmode_Store
begin

text \<open>
  The nftables renderers (internal/enforcer: nftables.go, policy_nft.go, transparent.go) and the
  application of a rule file. The text is built line by line as the code writes it.
\<close>

section \<open>The rules of a revision (nftables.go)\<close>

definition toNftPolicy :: "unicode \<Rightarrow> string \<Rightarrow> string \<Rightarrow> string" where
  "toNftPolicy U v0 fallback =
    (let v = ToLower U (TrimSpace v0) in if v = ''accept'' \<or> v = ''drop'' then v else fallback)"

fun wanLoop :: "vmap \<Rightarrow> string list" where
  "wanLoop [] = []"
| "wanLoop ((ifn, raw) # eth) = (case as_map raw of
     None \<Rightarrow> wanLoop eth
   | Some m \<Rightarrow> if EqualFold (toString (mindex m ''role'')) ''wan'' then ifn # wanLoop eth else wanLoop eth)"

definition getWanIfaces :: "vmap \<Rightarrow> string list" where
  "getWanIfaces changes =
    (let eth = mapAt changes [''interfaces'', ''ethernet''] in
     if length eth = 0 then [] else sort (wanLoop eth))"

fun natLoop :: "unicode \<Rightarrow> vmap \<Rightarrow> string list \<Rightarrow> string list" where
  "natLoop U rulesMap [] = []"
| "natLoop U rulesMap (i # ids) = (case as_map (mindex rulesMap i) of
     None \<Rightarrow> natLoop U rulesMap ids
   | Some rule \<Rightarrow>
      (let oif = toString (mindex rule ''outbound_interface'');
           src = getString rule [''source'', ''address''];
           xlat = getString rule [''translation'', ''address''] in
       if oif = [] \<or> src = [] \<or> ToLower U xlat \<noteq> ''masquerade'' then natLoop U rulesMap ids
       else (''oifname '' @ quoted oif @ '' ip saddr '' @ src @ '' masquerade'') # natLoop U rulesMap ids))"

definition renderSourceNatRules :: "unicode \<Rightarrow> vmap \<Rightarrow> string list" where
  "renderSourceNatRules U changes =
    (let rulesMap = mapAt changes [''nat'', ''source'', ''rule''] in
     if length rulesMap = 0 then [] else natLoop U rulesMap (sort (map fst rulesMap)))"

definition renderRules :: "unicode \<Rightarrow> vmap \<Rightarrow> string" where
  "renderRules U changes =
    (let inputPolicy = toNftPolicy U (getString changes [''firewall'', ''nftables'', ''input'', ''default_action'']) ''drop'';
         forwardPolicy = toNftPolicy U (getString changes [''firewall'', ''nftables'', ''forward'', ''default_action'']) ''drop'';
         outputPolicy = toNftPolicy U (getString changes [''firewall'', ''nftables'', ''output'', ''default_action'']) ''accept'';
         wanBlock = getBool changes [''firewall'', ''nftables'', ''wan_block''];
         wanIfaces = getWanIfaces changes;
         natRules = renderSourceNatRules U changes in
     wln (wln ''#!/usr/sbin/nft -f'') @
     wln ''table inet clawgress_dynamic {'' @
     (if wanBlock \<and> length wanIfaces > 0 then
        wln ''  set wan_ifaces {'' @ wln ''    type ifname'' @
        wln (''    elements = { '' @ Join (map quoted wanIfaces) '', '' @ '' }'') @ wln (wln ''  }'')
      else []) @
     wln ''  chain input {'' @ wln (''    type filter hook input priority 0; policy '' @ inputPolicy @ '';'') @
     wln ''    iif lo accept'' @ wln ''    ct state established,related accept'' @
     (if wanBlock \<and> length wanIfaces > 0 then wln ''    iifname @wan_ifaces drop'' else []) @
     wln ''    tcp dport { 22, 53, 80, 443, 8404 } accept'' @ wln ''    udp dport { 53 } accept'' @ wln (wln ''  }'') @
     wln ''  chain forward {'' @ wln (''    type filter hook forward priority 0; policy '' @ forwardPolicy @ '';'') @
     wln ''    ct state established,related accept'' @ wln (wln ''  }'') @
     wln ''  chain output {'' @ wln (''    type filter hook output priority 0; policy '' @ outputPolicy @ '';'') @ wln ''  }'' @
     wln ''}'' @
     (if length natRules > 0 then
        wln [] @ wln ''table ip clawgress_dynamic_nat {'' @ wln ''  chain postrouting {'' @
        wln ''    type nat hook postrouting priority srcnat; policy accept;'' @
        concat (map (\<lambda>r. ''    '' @ wln r) natRules) @ wln ''  }'' @ wln ''}''
      else []))"

record ApplyResult =
  ap_RulesPath :: string
  ap_Applied :: bool

text \<open>
  What the \<open>nft\<close> command answers is a parameter; the answers to the two deletions are ignored. The
  result is returned next to the error, as in Go.
\<close>

type_synonym nft_run = "string list \<Rightarrow> error option \<times> string"

definition ApplyNftables :: "unicode \<Rightarrow> faults \<Rightarrow> nft_run \<Rightarrow> string \<Rightarrow> Revision \<Rightarrow> bool \<Rightarrow> fs \<Rightarrow>
    ApplyResult \<times> error option \<times> string list list \<times> fs" where
  "ApplyNftables U F nft baseDir rv execute fs =
    (let rules = renderRules U (rv_Changes rv);
         none = \<lparr>ap_RulesPath = [], ap_Applied = False\<rparr>;
         compiledDir = PathJoin baseDir ''compiled'';
         rulesPath = PathJoin compiledDir ''nftables-active.nft'' in
     case f_mkdir F compiledDir of
       Some e \<Rightarrow> (none, Some (''create compiled dir: '' @ e), [], fs)
     | None \<Rightarrow>
     case WriteFile F rulesPath rules fs of
       (Some e, fs) \<Rightarrow> (none, Some (''write rules file: '' @ e), [], fs)
     | (None, fs) \<Rightarrow>
        (let result = \<lparr>ap_RulesPath = rulesPath, ap_Applied = False\<rparr> in
         if \<not> execute then (result, None, [], fs)
         else
          (let runs = [[''delete'', ''table'', ''inet'', ''clawgress_dynamic''],
                       [''delete'', ''table'', ''ip'', ''clawgress_dynamic_nat''], [''-f'', rulesPath]] in
           case nft [''-f'', rulesPath] of
             (Some e, output) \<Rightarrow> (result, Some (''apply nftables rules: '' @ e @ '' ('' @ TrimSpace output @ '')''), runs, fs)
           | (None, _) \<Rightarrow> (result\<lparr>ap_Applied := True\<rparr>, None, runs, fs))))"

section \<open>The rules of the policy (policy_nft.go)\<close>

text \<open>
  \<open>net.ParseIP\<close>: four decimal octets without leading zeros; the text of an IPv6 address, where the
  first of \<open>.\<close>, \<open>:\<close> and \<open>%\<close> is a colon, is left to the parameter, which answers whether it is one and
  which IPv4 address it maps. Name resolution is the other parameter.
\<close>

datatype ip = IPv4 "nat list" | IPv6

record resolver =
  rs_ip6 :: "string \<Rightarrow> ip option"
  rs_lookup :: "string \<Rightarrow> error + string list"

definition parse_octet :: "string \<Rightarrow> nat option" where
  "parse_octet s = (case undec 0 s of
     Some n \<Rightarrow> if s \<noteq> [] \<and> (length s = 1 \<or> hd s \<noteq> CHR ''0'') \<and> n \<le> 255 then Some n else None
   | None \<Rightarrow> None)"

definition parse_ipv4 :: "string \<Rightarrow> nat list option" where
  "parse_ipv4 s =
    (let os = map parse_octet (SplitByte CHR ''.'' s) in
     if length os = 4 \<and> None \<notin> set os then Some (map the os) else None)"

definition ParseIP :: "resolver \<Rightarrow> string \<Rightarrow> ip option" where
  "ParseIP R s = (case find (\<lambda>c. c = CHR ''.'' \<or> c = CHR '':'' \<or> c = CHR ''%'') s of
     None \<Rightarrow> None
   | Some c \<Rightarrow> if c = CHR ''.'' then map_option IPv4 (parse_ipv4 s)
       else if c = CHR '':'' then rs_ip6 R s else None)"

definition fmt_ip :: "nat list \<Rightarrow> string" where
  "fmt_ip os = Join (map dec_nat os) ''.''"

fun addrLoop :: "resolver \<Rightarrow> string list \<Rightarrow> string list" where
  "addrLoop R [] = []"
| "addrLoop R (a # addrs) = (case ParseIP R a of
     Some (IPv4 os) \<Rightarrow> fmt_ip os # addrLoop R addrs
   | _ \<Rightarrow> addrLoop R addrs)"

definition resolveDomain :: "resolver \<Rightarrow> string \<Rightarrow> string list" where
  "resolveDomain R domain =
    (let lookup = (if HasPrefix domain ''*.'' then drop 2 domain else domain) in
     if HasSuffix lookup ''.invalid'' \<or> HasSuffix lookup ''.local'' then []
     else (case ParseIP R lookup of
       Some (IPv4 os) \<Rightarrow> [fmt_ip os]
     | Some IPv6 \<Rightarrow> []
     | None \<Rightarrow> (case rs_lookup R lookup of Inl _ \<Rightarrow> [] | Inr addrs \<Rightarrow> addrLoop R addrs)))"

fun dedupAddrs :: "string set \<Rightarrow> string list \<Rightarrow> string list" where
  "dedupAddrs seen [] = []"
| "dedupAddrs seen (s # xs) = (if s \<notin> seen then s # dedupAddrs (insert s seen) xs else dedupAddrs seen xs)"

definition dedup :: "string list \<Rightarrow> string list" where
  "dedup xs = dedupAddrs {} xs"

fun domainLoop :: "resolver \<Rightarrow> string \<Rightarrow> string list \<Rightarrow> string list \<times> string list \<Rightarrow> string list \<times> string list" where
  "domainLoop R action [] ips = ips"
| "domainLoop R action (d # ds) (allowIPs, denyIPs) =
    (if d = ''*'' then domainLoop R action ds (allowIPs, denyIPs)
     else (let ips = resolveDomain R d in
       if action = ''allow'' then domainLoop R action ds (allowIPs @ ips, denyIPs)
       else if action = ''deny'' then domainLoop R action ds (allowIPs, denyIPs @ ips)
       else domainLoop R action ds (allowIPs, denyIPs)))"

fun ruleLoop :: "resolver \<Rightarrow> Rule list \<Rightarrow> string list \<times> string list \<Rightarrow> string list \<times> string list" where
  "ruleLoop R [] ips = ips"
| "ruleLoop R (r # rs) ips = ruleLoop R rs (domainLoop R (ru_Action r) (ru_Domains r) ips)"

definition RenderPolicyNft :: "resolver \<Rightarrow> Rule list \<Rightarrow> string \<Rightarrow> string \<Rightarrow> string" where
  "RenderPolicyNft R rules tableName0 chainName0 =
    (let tableName = (if tableName0 = [] then ''clawgress'' else tableName0);
         chainName = (if chainName0 = [] then ''egress_policy'' else chainName0);
         (allowIPs, denyIPs) = ruleLoop R rules ([], []) in
     wln (''# Auto-generated from policy engine '' @ emdash @ '' do not edit'') @
     wln (''table inet '' @ tableName @ '' {'') @
     (if length denyIPs > 0 then
        wln ''  set policy_deny {'' @ wln ''    type ipv4_addr'' @
        wln (''    elements = { '' @ Join (dedup denyIPs) '', '' @ '' }'') @ wln ''  }'' else []) @
     (if length allowIPs > 0 then
        wln ''  set policy_allow {'' @ wln ''    type ipv4_addr'' @
        wln (''    elements = { '' @ Join (dedup allowIPs) '', '' @ '' }'') @ wln ''  }'' else []) @
     wln (''  chain '' @ chainName @ '' {'') @
     (if length denyIPs > 0 then wln ''    ip daddr @policy_deny drop'' else []) @
     (if length allowIPs > 0 then wln ''    ip daddr @policy_allow accept'' else []) @
     wln ''  }'' @ wln ''}'')"

interpretation nft_dedup: seen_loop "\<lambda>_. False" "\<lambda>s. s" dedupAddrs
  by unfold_locales simp_all

section \<open>Transparent mode (transparent.go)\<close>

record TransparentConfig =
  tc_ProxyPort :: int
  tc_InboundIf :: string
  tc_SubnetCIDR :: string
  tc_TableName :: string

definition RenderTransparentNft :: "TransparentConfig \<Rightarrow> string" where
  "RenderTransparentNft cfg0 =
    (let cfg = (if tc_ProxyPort cfg0 = 0 then cfg0\<lparr>tc_ProxyPort := 3128\<rparr> else cfg0);
         cfg = (if tc_TableName cfg = [] then cfg\<lparr>tc_TableName := ''clawgress_tproxy''\<rparr> else cfg) in
     wln (''# Transparent gateway mode '' @ emdash @ '' auto-generated, do not edit'') @
     wln (''table ip '' @ tc_TableName cfg @ '' {'') @
     wln ''  chain prerouting {'' @ wln ''    type nat hook prerouting priority dstnat; policy accept;'' @
     (if tc_InboundIf cfg \<noteq> [] then wln (''    iifname != '' @ quoted (tc_InboundIf cfg) @ '' accept'') else []) @
     (if tc_SubnetCIDR cfg \<noteq> [] then wln (''    ip saddr != '' @ tc_SubnetCIDR cfg @ '' accept'') else []) @
     wln (''    tcp dport { 80, 443 } redirect to :'' @ fmt_d (tc_ProxyPort cfg)) @ wln ''  }'' @
     wln ''  chain forward {'' @ wln ''    type filter hook forward priority filter; policy accept;'' @
     wln ''    ct state established,related accept'' @ wln ''    ct state invalid drop'' @ wln ''  }'' @
     wln ''  chain postrouting {'' @ wln ''    type nat hook postrouting priority srcnat; policy accept;'' @
     wln ''    masquerade'' @ wln ''  }'' @ wln ''}'')"

end
