(* ===== verification/Enforcer_Nft_Props.thy ===== *)
theory Enforcer_Nft_Props
  imports Enforcer_Nft Enforcer_Props
begin

text \<open>
  The rendered rule sets: the one of a revision does not depend on the order of Go's maps, and the one
  of the policy lists every denied and allowed address once and drops before it accepts.
\<close>

section \<open>The rules of a revision\<close>

definition is_wan :: "string \<times> val \<Rightarrow> bool" where
  "is_wan p \<longleftrightarrow> (case as_map (snd p) of None \<Rightarrow> False | Some m \<Rightarrow> EqualFold (toString (mindex m ''role'')) ''wan'')"

lemma wanLoop_filter: "wanLoop eth = map fst (filter is_wan eth)"
  by (induction eth rule: wanLoop.induct) (auto simp: is_wan_def split: option.splits)

lemma wan_keys:
  "gomap_ok m \<Longrightarrow> fst ` set (filter is_wan m) = {k. case mget m k of None \<Rightarrow> False | Some v \<Rightarrow> is_wan (k, v)}"
  by (auto simp: gomap_ok_mem_iff split: option.splits) (force simp: gomap_ok_mem_iff)

lemma is_wan_veq:
  assumes "veq v w"
  shows "is_wan (k, v) = is_wan (k, w)"
  using veq_as_map [OF assms]
proof (cases rule: option.rel_cases)
  case (Some x y)
  then show ?thesis using toString_index_meq [OF Some(3)] by (simp add: is_wan_def)
qed (simp add: is_wan_def)

lemma wanLoop_meq: "meq m n \<Longrightarrow> sort (wanLoop m) = sort (wanLoop n)"
proof -
  assume mn: "meq m n"
  show ?thesis
  proof (cases "m = n")
    case False
    then have ok: "gomap_ok m" "gomap_ok n" and rel: "\<And>k. rel_option veq (mget m k) (mget n k)"
      using meq_cases [OF mn] by auto
    have "set (wanLoop m) = set (wanLoop n)"
      unfolding wanLoop_filter set_map wan_keys [OF ok(1)] wan_keys [OF ok(2)]
    proof (rule Collect_cong)
      fix k
      show "(case mget m k of None \<Rightarrow> False | Some v \<Rightarrow> is_wan (k, v)) =
          (case mget n k of None \<Rightarrow> False | Some v \<Rightarrow> is_wan (k, v))"
        using rel [of k] by (cases rule: option.rel_cases) (auto dest: is_wan_veq)
    qed
    moreover have "distinct (wanLoop m)" "distinct (wanLoop n)"
      using ok by (auto simp: wanLoop_filter gomap_ok_def distinct_map_filter)
    ultimately show ?thesis by (metis sorted_list_of_set_sort_remdups distinct_remdups_id)
  qed simp
qed

lemma natLoop_meq: "meq m n \<Longrightarrow> natLoop U m ids = natLoop U n ids"
proof (induction ids)
  case (Cons i ids)
  show ?case
    using veq_as_map [OF meq_index [OF Cons.prems, of i]]
  proof (cases rule: option.rel_cases)
    case (Some r s)
    show ?thesis
      unfolding natLoop.simps Some(1,2) option.case toString_index_meq [OF Some(3)] getString_meq [OF Some(3)]
        Cons.IH [OF Cons.prems] ..
  qed (use Cons in simp)
qed simp

text \<open>
  C31: the rendered rules of a revision do not depend on the order in which Go visits the configuration
  maps: equal configurations give the same file, byte for byte.
\<close>

theorem nft_rules_order_independent:
  assumes "veq (VMap c) (VMap d)"
  shows "renderRules U c = renderRules U d"
proof -
  have m: "meq c d" using assms by (simp add: meq_def)
  have w: "getWanIfaces c = getWanIfaces d"
    unfolding getWanIfaces_def Let_def mapAt_length_meq [OF m] wanLoop_meq [OF mapAt_meq [OF m]] ..
  have n: "renderSourceNatRules U c = renderSourceNatRules U d"
    unfolding renderSourceNatRules_def Let_def mapAt_length_meq [OF m] natLoop_meq [OF mapAt_meq [OF m]]
      meq_sorted_keys [OF mapAt_meq [OF m]] ..
  show ?thesis unfolding renderRules_def w n getString_meq [OF m] getBool_meq [OF m] ..
qed

theorem nft_rules_order_independent_witness:
  "renderRules ascii_only [(''nat'', VNil), (''interfaces'', VMap [(''ethernet'', VMap [(''e0'', VMap [(''role'', VStr ''wan'')])])])] =
   renderRules ascii_only [(''interfaces'', VMap [(''ethernet'', VMap [(''e0'', VMap [(''role'', VStr ''wan'')])])]), (''nat'', VNil)]"
  by (rule nft_rules_order_independent, rule veq_maps) (simp_all add: gomap_ok_def veq_same)

section \<open>The rules of the policy\<close>

definition addresses :: "resolver \<Rightarrow> string \<Rightarrow> Rule list \<Rightarrow> string list" where
  "addresses R action rules = concat (map (\<lambda>r. if ru_Action r = action then
      concat (map (resolveDomain R) (filter (\<lambda>d. d \<noteq> ''*'') (ru_Domains r))) else []) rules)"

lemma domainLoop_addresses:
  "domainLoop R action ds (al, de) =
    (if action = ''allow'' then (al @ concat (map (resolveDomain R) (filter (\<lambda>d. d \<noteq> ''*'') ds)), de)
     else if action = ''deny'' then (al, de @ concat (map (resolveDomain R) (filter (\<lambda>d. d \<noteq> ''*'') ds)))
     else (al, de))"
  by (induction ds arbitrary: al de) (auto simp: Let_def)

lemma ruleLoop_addresses:
  "ruleLoop R rules (al, de) = (al @ addresses R ''allow'' rules, de @ addresses R ''deny'' rules)"
  by (induction rules arbitrary: al de) (auto simp: addresses_def domainLoop_addresses)

lemma dedup_exact: "set (dedup xs) = set xs" "distinct (dedup xs)"
  using nft_dedup.run_keys [of "{}" xs] nft_dedup.run_distinct_keys [of "{}" xs] by (simp_all add: dedup_def)

text \<open>A name that does not resolve adds nothing (the comment in the code promises the name itself).\<close>

lemma resolve_failure:
  "\<not> HasPrefix d ''*.'' \<Longrightarrow> ParseIP R d = None \<Longrightarrow> rs_lookup R d = Inl e \<Longrightarrow> resolveDomain R d = []"
  by (simp add: resolveDomain_def)

text \<open>
  Unlike the policy engine, where the first rule decides, the chain drops every address of any deny
  rule: here the engine lets agent \<open>a1\<close> through and the chain drops its packets.
\<close>

lemma nft_ignores_precedence:
  fixes rules :: "Rule list" and R :: resolver
  defines "rules \<equiv> [\<lparr>ru_PolicyID = ''ok'', ru_AgentID = ''a1'', ru_Domains = [''10.0.0.1''], ru_Methods = [],
        ru_PathPrefixes = [], ru_Conditions = [], ru_Action = ''allow''\<rparr>,
      \<lparr>ru_PolicyID = ''no'', ru_AgentID = ''a2'', ru_Domains = [''10.0.0.1''], ru_Methods = [],
        ru_PathPrefixes = [], ru_Conditions = [], ru_Action = ''deny''\<rparr>]"
    and "R \<equiv> \<lparr>rs_ip6 = (\<lambda>_. None), rs_lookup = (\<lambda>_. Inl [])\<rparr>"
  shows "de_Action (Evaluate ascii_only \<lparr>en_rules = rules, en_path = []\<rparr> ''a1'' ''10.0.0.1'') = ''allow''"
    and "ruleLoop R rules ([], []) = ([''10.0.0.1''], [''10.0.0.1''])"
  by (unfold rules_def R_def, code_simp+)

end
