(* ===== verification/Cmdmap.thy ===== *)
theory Cmdmap
  imports Go_Text "HOL-Library.Char_ord" "HOL-Library.List_Lexorder"
begin

text \<open>
  The command schema (internal/cmdmap): \<open>TokenPaths\<close>, the list decoded from the embedded
  \<open>command_schema.json\<close> (a parameter, \<open>paths\<close>), the check of a \<open>set\<close> command against it
  (token_paths.go) and the catalogue that documents it with an example per entry (catalog.go).
\<close>

record TokenPath =
  tp_Kind :: string
  tp_Tokens :: "string list"
  tp_ValueToken :: string
  tp_Description :: string
  tp_Multi :: bool

section \<open>Token paths\<close>

text \<open>A schema that does not decode is a panic at start-up: no value.\<close>

definition mustLoadTokenPaths :: "(string \<Rightarrow> error + TokenPath list) \<Rightarrow> string \<Rightarrow> TokenPath list option" where
  "mustLoadTokenPaths decode commandSchemaJSON =
    (case decode commandSchemaJSON of Inl _ \<Rightarrow> None | Inr out \<Rightarrow> Some out)"

definition SetTokenPaths :: "TokenPath list \<Rightarrow> TokenPath list" where
  "SetTokenPaths paths = filter (\<lambda>t. tp_Kind t = ''set'') paths"

definition ShowTokenPaths :: "TokenPath list \<Rightarrow> TokenPath list" where
  "ShowTokenPaths paths = filter (\<lambda>t. tp_Kind t = ''show'') paths"

definition normalizeToken :: "string \<Rightarrow> string" where
  "normalizeToken t = ReplaceByte CHR ''-'' CHR ''_'' (TrimSpace t)"

definition normalizeTokens :: "string list \<Rightarrow> string list" where
  "normalizeTokens tokens = map normalizeToken tokens"

text \<open>The form \<open><...>\<close> of a variable token, and \<open>strings.Trim(t, "<>")\<close>.\<close>

definition is_var :: "string \<Rightarrow> bool" where
  "is_var t \<longleftrightarrow> HasPrefix t ''<'' \<and> HasSuffix t ''>''"

definition inner :: "string \<Rightarrow> string" where
  "inner t = TrimSet {CHR ''<'', CHR ''>''} t"

fun anyEqual :: "string \<Rightarrow> string list \<Rightarrow> bool" where
  "anyEqual v [] = False"
| "anyEqual v (alt # alts) = (if v = alt then True else anyEqual v alts)"

fun matchLoop :: "string list \<Rightarrow> string list \<Rightarrow> bool" where
  "matchLoop (pt # pts) (vt # vts) =
    (if is_var pt then (if vt = [] then False else matchLoop pts vts)
     else if Contains pt ''|'' then
       (if \<not> anyEqual vt (SplitByte CHR ''|'' (inner pt)) then False else matchLoop pts vts)
     else if pt \<noteq> vt then False
     else matchLoop pts vts)"
| "matchLoop _ _ = True"

definition matchPatternTokens :: "string list \<Rightarrow> string list \<Rightarrow> bool" where
  "matchPatternTokens pattern0 value0 = (if length pattern0 \<noteq> length value0 then False else matchLoop pattern0 value0)"

text \<open>The loop of \<open>MatchSet\<close> and \<open>IsMultiPath\<close>; the latter also asks for \<open>Multi\<close>.\<close>

fun anyPattern :: "bool \<Rightarrow> string list \<Rightarrow> TokenPath list \<Rightarrow> bool" where
  "anyPattern multi tokens [] = False"
| "anyPattern multi tokens (p # ps) =
    (if (multi \<longrightarrow> tp_Multi p) \<and> matchPatternTokens (normalizeTokens (tp_Tokens p)) tokens then True
     else anyPattern multi tokens ps)"

definition MatchSet :: "TokenPath list \<Rightarrow> string \<Rightarrow> bool" where
  "MatchSet paths path0 =
    (let path = TrimSpace path0 in
     if path = [] then False
     else anyPattern False (normalizeTokens (SplitByte CHR ''.'' path)) (SetTokenPaths paths))"

definition IsMultiPath :: "TokenPath list \<Rightarrow> string \<Rightarrow> bool" where
  "IsMultiPath paths path0 =
    (let path = TrimSpace path0 in
     if path = [] then False
     else anyPattern True (normalizeTokens (SplitByte CHR ''.'' path)) (SetTokenPaths paths))"

section \<open>Values\<close>

text \<open>The regular expressions: \<open>^[0-9]+$\<close>, \<open>^[0-9a-fA-F:.]+$\<close> and \<open>^[0-9a-fA-F:.]+/[0-9]{1,3}$\<close>.\<close>

definition is_digit :: "char \<Rightarrow> bool" where
  "is_digit c \<longleftrightarrow> 48 \<le> byte c \<and> byte c \<le> 57"

definition is_addr_char :: "char \<Rightarrow> bool" where
  "is_addr_char c \<longleftrightarrow> is_digit c \<or> 97 \<le> byte c \<and> byte c \<le> 102 \<or> 65 \<le> byte c \<and> byte c \<le> 70 \<or>
     c = CHR '':'' \<or> c = CHR ''.''"

definition re_number :: "string \<Rightarrow> bool" where
  "re_number v \<longleftrightarrow> v \<noteq> [] \<and> list_all is_digit v"

definition re_addr :: "string \<Rightarrow> bool" where
  "re_addr v \<longleftrightarrow> v \<noteq> [] \<and> list_all is_addr_char v"

definition re_cidr :: "string \<Rightarrow> bool" where
  "re_cidr v \<longleftrightarrow> (case CutByte CHR ''/'' v of None \<Rightarrow> False
     | Some (a, n) \<Rightarrow> re_addr a \<and> re_number n \<and> length n \<le> 3)"

definition validateValueToken :: "string \<Rightarrow> string \<Rightarrow> bool" where
  "validateValueToken tok value0 =
    (let v = TrimSpace value0 in
     if v = [] then False
     else if tok = [] then True
     else if is_var tok then
       (let i = inner tok in
        if Contains i ''|'' then anyEqual v (SplitByte CHR ''|'' i)
        else if i = ''id'' \<or> i = ''port'' then re_number v
        else if i = ''cidr'' then re_cidr v
        else if i = ''ip'' \<or> i = ''ipv4'' \<or> i = ''ipv6'' then re_addr v
        else True)
     else v = tok)"

fun validateLoop :: "string list \<Rightarrow> string \<Rightarrow> TokenPath list \<Rightarrow> error + string \<times> bool" where
  "validateLoop nt valueRaw [] = Inl ''unknown or invalid command path/value''"
| "validateLoop nt valueRaw (p # ps) =
    (let pt = normalizeTokens (tp_Tokens p) in
     if \<not> matchPatternTokens pt nt then validateLoop nt valueRaw ps
     else if \<not> validateValueToken (tp_ValueToken p) valueRaw then validateLoop nt valueRaw ps
     else Inr (Join nt ''.'', tp_Multi p))"

definition ValidateSetTokens :: "TokenPath list \<Rightarrow> string list \<Rightarrow> string \<Rightarrow> error + string \<times> bool" where
  "ValidateSetTokens paths tokens valueRaw =
    (let nt = normalizeTokens tokens in validateLoop nt valueRaw (SetTokenPaths paths))"

definition CommandSchemaStats :: "TokenPath list \<Rightarrow> (string, nat) gomap" where
  "CommandSchemaStats paths =
    (let set_n = length (SetTokenPaths paths); show_n = length (ShowTokenPaths paths) in
     [(''set'', set_n), (''show'', show_n), (''total'', set_n + show_n)])"

text \<open>
  \<open>DedupSorted\<close>: \<open>sort.Slice\<close> is not stable, and entries that differ only in the value token compare
  equal, so the sort is a parameter.
\<close>

definition dedupKey :: "TokenPath \<Rightarrow> string" where
  "dedupKey p = tp_Kind p @ '':'' @ Join (tp_Tokens p) ''/'' @ '':'' @ tp_ValueToken p"

fun dedupLoop :: "string set \<Rightarrow> TokenPath list \<Rightarrow> TokenPath list" where
  "dedupLoop seen [] = []"
| "dedupLoop seen (p # ps) =
    (let k = dedupKey p in
     if k \<in> seen then dedupLoop seen ps else p # dedupLoop (insert k seen) ps)"

definition lessPath :: "TokenPath \<Rightarrow> TokenPath \<Rightarrow> bool" where
  "lessPath a b = (if tp_Kind a \<noteq> tp_Kind b then tp_Kind a < tp_Kind b
     else Join (tp_Tokens a) '' '' < Join (tp_Tokens b) '' '')"

definition DedupSorted ::
  "((TokenPath \<Rightarrow> TokenPath \<Rightarrow> bool) \<Rightarrow> TokenPath list \<Rightarrow> TokenPath list) \<Rightarrow> TokenPath list \<Rightarrow> TokenPath list" where
  "DedupSorted sort_slice paths = sort_slice lessPath (dedupLoop {} paths)"

section \<open>The catalogue\<close>

record Command =
  cm_Kind :: string
  cm_Pattern :: string
  cm_Description :: string
  cm_Backend :: string
  cm_Example :: string

definition tokensToPattern :: "TokenPath \<Rightarrow> string" where
  "tokensToPattern tp =
    (let parts = tp_Tokens tp;
         parts = (if tp_ValueToken tp \<noteq> [] then parts @ [tp_ValueToken tp] else parts)
     in Join parts '' '')"

definition sampleToken :: "string \<Rightarrow> string" where
  "sampleToken t =
    (if is_var t then
       (let s = inner t in
        if Contains s ''|'' then SplitByte CHR ''|'' s ! 0
        else if s = ''ifname'' then ''eth0''
        else if s = ''id'' then ''100''
        else if s = ''name'' then ''edge''
        else ''value'')
     else t)"

definition sampleValue :: "string \<Rightarrow> string" where
  "sampleValue v =
    (if is_var v then
       (let s = inner v in
        if Contains s ''|'' then SplitByte CHR ''|'' s ! 0
        else if s = ''port'' \<or> s = ''id'' then ''100''
        else if s = ''cidr'' then ''10.0.0.0/24''
        else if s = ''ip'' \<or> s = ''ipv4'' then ''10.0.0.1''
        else if s = ''ipv6'' then ''2001:db8::1''
        else if s = ''fqdn'' then ''api.example.com''
        else if s = ''ifname'' then ''eth0''
        else ''value'')
     else v)"

definition exampleTokens :: "TokenPath \<Rightarrow> string list" where
  "exampleTokens tp =
    (let tokens = map sampleToken (tp_Tokens tp) in
     if tp_ValueToken tp \<noteq> [] then tokens @ [sampleValue (tp_ValueToken tp)] else tokens)"

definition exampleFor :: "TokenPath \<Rightarrow> string" where
  "exampleFor tp = (if tp_Kind tp = ''show'' then ''show '' @ Join (exampleTokens tp) '' ''
     else ''set '' @ Join (exampleTokens tp) '' '')"

definition backendFor :: "TokenPath \<Rightarrow> string" where
  "backendFor tp =
    (let tokens = tp_Tokens tp in
     if length tokens = 0 then ''config''
     else if length tokens = 4 \<and> Join tokens ''.'' = ''interfaces.ethernet.<ifname>.address'' then
       (if tp_ValueToken tp = ''dhcp'' then ''dhclient+systemd'' else ''systemd-networkd'')
     else
       (let joined = Join tokens ''.'' in
        if HasPrefix joined ''firewall.nftables'' \<or> HasPrefix joined ''nat.'' then ''nftables''
        else if HasPrefix joined ''service.dns'' then ''bind9''
        else if HasPrefix joined ''service.haproxy'' then ''haproxy''
        else if HasPrefix joined ''system.ntp'' then ''chrony''
        else if HasPrefix joined ''interfaces.'' then ''systemd-networkd''
        else ''control-plane''))"

definition catalogEntry :: "TokenPath \<Rightarrow> Command" where
  "catalogEntry tp = \<lparr>cm_Kind = tp_Kind tp, cm_Pattern = tokensToPattern tp,
     cm_Description = tp_Description tp, cm_Backend = backendFor tp, cm_Example = exampleFor tp\<rparr>"

fun commandsLoop :: "TokenPath list \<Rightarrow> Command list \<Rightarrow> Command list \<Rightarrow> Command list \<times> Command list" where
  "commandsLoop [] sets shows = (sets, shows)"
| "commandsLoop (tp # tps) sets shows =
    (if tp_Kind tp = ''set'' then commandsLoop tps (sets @ [catalogEntry tp]) shows
     else if tp_Kind tp = ''show'' then commandsLoop tps sets (shows @ [catalogEntry tp])
     else commandsLoop tps sets shows)"

definition Commands :: "TokenPath list \<Rightarrow> (string, Command list) gomap" where
  "Commands paths = (let (sets, shows) = commandsLoop paths [] [] in [(''set'', sets), (''show'', shows)])"

section \<open>The interfaces\<close>

text \<open>The check is a first-match lookup, the deduplication a loop with a seen map.\<close>

interpretation set_lookup: first_match
  "\<lambda>(nt, v) p. matchPatternTokens (normalizeTokens (tp_Tokens p)) nt \<and> validateValueToken (tp_ValueToken p) v"
  "\<lambda>(nt, v) p. Inr (Join nt ''.'', tp_Multi p)"
  "\<lambda>_. Inl ''unknown or invalid command path/value''"
  "\<lambda>(nt, v) ps. validateLoop nt v ps"
  by unfold_locales (simp_all add: Let_def split: prod.split)

interpretation schema_dedupe: seen_loop "\<lambda>_. False" dedupKey dedupLoop
  by unfold_locales (simp_all add: Let_def)

end
