(* ===== verification/Cmdmap_Props.thy ===== *)
theory Cmdmap_Props
  imports Cmdmap
begin

text \<open>
  What the command schema accepts: the rule for one token and for a value, that every example of the
  catalogue is accepted, and which entries accept no sensible value.
\<close>

section \<open>Matching token by token\<close>

definition fits :: "string \<Rightarrow> string \<Rightarrow> bool" where
  "fits pt vt \<longleftrightarrow>
    (if is_var pt then vt \<noteq> [] else if CHR ''|'' \<in> set pt then vt \<in> set (SplitByte CHR ''|'' (inner pt))
     else vt = pt)"

lemma anyEqual_iff [simp]: "anyEqual v xs \<longleftrightarrow> v \<in> set xs"
  by (induction xs) auto

lemma matchLoop_fits: "length ps = length vs \<Longrightarrow> matchLoop ps vs \<longleftrightarrow> list_all2 fits ps vs"
  by (induction ps vs rule: matchLoop.induct) (auto simp: fits_def Contains_byte)

lemma matchPatternTokens_iff: "matchPatternTokens ps vs \<longleftrightarrow> list_all2 fits ps vs"
  by (auto simp: matchPatternTokens_def matchLoop_fits list_all2_lengthD)

lemma is_var_iff: "is_var t \<longleftrightarrow> t \<noteq> [] \<and> hd t = CHR ''<'' \<and> last t = CHR ''>''"
proof
  assume "is_var t"
  then obtain a b where a: "t = ''<'' @ a" and b: "t = b @ ''>''"
    unfolding is_var_def HasPrefix_ex HasSuffix_ex by blast
  have "t \<noteq> []" "hd t = CHR ''<''" unfolding a by simp_all
  moreover have "last t = CHR ''>''" unfolding b by simp
  ultimately show "t \<noteq> [] \<and> hd t = CHR ''<'' \<and> last t = CHR ''>''" by simp
next
  assume a: "t \<noteq> [] \<and> hd t = CHR ''<'' \<and> last t = CHR ''>''"
  then show "is_var t"
    unfolding is_var_def HasPrefix_ex HasSuffix_ex
    by (metis append_butlast_last_id append_Cons append_Nil hd_Cons_tl)
qed

lemma is_var_normalize: "is_var t \<Longrightarrow> is_var (normalizeToken t)"
proof -
  assume v: "is_var t"
  then have "TrimSpace t = t" by (intro TrimSpace_ends) (simp_all add: is_var_iff visible_def)
  then show ?thesis
    using v by (simp add: is_var_iff normalizeToken_def ReplaceByte_def hd_map last_map)
qed

lemma normalizeToken_Nil [simp]: "normalizeToken t = [] \<longleftrightarrow> TrimSpace t = []"
  by (simp add: normalizeToken_def)

lemma bar_normalize: "CHR ''|'' \<in> set (normalizeToken t) \<Longrightarrow> CHR ''|'' \<in> set t"
  using set_TrimSpace [of t] by (auto simp: normalizeToken_def ReplaceByte_def split: if_splits)

section \<open>The catalogue's examples\<close>

text \<open>
  What an entry has to look like: a literal token without a bar; where alternatives are given, a first
  one that is not blank; a value token that survives trimming.
\<close>

definition token_ok :: "string \<Rightarrow> bool" where
  "token_ok t \<longleftrightarrow> (if is_var t then TrimSpace (SplitByte CHR ''|'' (inner t) ! 0) \<noteq> [] \<or> CHR ''|'' \<notin> set (inner t)
     else CHR ''|'' \<notin> set t)"

definition value_ok :: "string \<Rightarrow> bool" where
  "value_ok v \<longleftrightarrow> v \<noteq> [] \<and> TrimSpace v = v \<and>
     (is_var v \<and> CHR ''|'' \<in> set (inner v) \<longrightarrow>
        (let a = SplitByte CHR ''|'' (inner v) ! 0 in a \<noteq> [] \<and> TrimSpace a = a))"

lemma choice_cases:
  "(if c then a else if d then p else if e then q else if f then r else s) = a \<and> c \<or>
   (if c then a else if d then p else if e then q else if f then r else s) \<in> {p, q, r, s}"
  by simp

lemma sample_fits:
  assumes "token_ok t"
  shows "fits (normalizeToken t) (normalizeToken (sampleToken t))"
proof (cases "is_var t")
  case True
  have "TrimSpace ''eth0'' \<noteq> []" "TrimSpace ''100'' \<noteq> []" "TrimSpace ''edge'' \<noteq> []" "TrimSpace ''value'' \<noteq> []"
    by code_simp+
  moreover have "sampleToken t = SplitByte CHR ''|'' (inner t) ! 0 \<and> CHR ''|'' \<in> set (inner t) \<or>
      sampleToken t \<in> {''eth0'', ''100'', ''edge'', ''value''}"
    using True unfolding sampleToken_def Let_def Contains_byte by (simp only: if_True) (rule choice_cases)
  moreover have "TrimSpace (SplitByte CHR ''|'' (inner t) ! 0) \<noteq> [] \<or> CHR ''|'' \<notin> set (inner t)"
    using assms True by (simp only: token_ok_def if_True)
  ultimately have "TrimSpace (sampleToken t) \<noteq> []" by (elim disjE conjE insertE emptyE) (simp_all only: simp_thms)
  then show ?thesis using is_var_normalize [OF True] by (simp add: fits_def)
next
  case False
  then have s: "sampleToken t = t" "CHR ''|'' \<notin> set (normalizeToken t)"
    using assms bar_normalize by (auto simp: sampleToken_def token_ok_def)
  then show ?thesis by (auto simp: fits_def is_var_iff)
qed

lemma sample_value_valid:
  assumes "value_ok v"
  shows "validateValueToken v (sampleValue v)"
proof (cases "is_var v")
  case False
  then show ?thesis using assms by (simp add: value_ok_def validateValueToken_def sampleValue_def)
next
  case True
  show ?thesis
  proof (cases "CHR ''|'' \<in> set (inner v)")
    case True
    then show ?thesis
      using assms \<open>is_var v\<close>
      by (simp add: value_ok_def validateValueToken_def sampleValue_def Contains_byte Let_def)
  next
    case False
    have "TrimSpace ''eth0'' = ''eth0''" "TrimSpace ''100'' = ''100''" "TrimSpace ''value'' = ''value''"
      "TrimSpace ''10.0.0.0/24'' = ''10.0.0.0/24''" "TrimSpace ''10.0.0.1'' = ''10.0.0.1''"
      "TrimSpace ''2001:db8::1'' = ''2001:db8::1''" "TrimSpace ''api.example.com'' = ''api.example.com''"
      "re_number ''100''" "re_cidr ''10.0.0.0/24''" "re_addr ''10.0.0.1''" "re_addr ''2001:db8::1''"
      by code_simp+
    then show ?thesis
      using False \<open>is_var v\<close> assms
      by (simp add: value_ok_def validateValueToken_def sampleValue_def Contains_byte Let_def)
  qed
qed

lemma example_split:
  "tp_ValueToken p \<noteq> [] \<Longrightarrow> butlast (exampleTokens p) = map sampleToken (tp_Tokens p) \<and>
     last (exampleTokens p) = sampleValue (tp_ValueToken p)"
  by (simp add: exampleTokens_def Let_def)

lemma accepted_if:
  assumes "p \<in> set (SetTokenPaths paths)" and "list_all2 fits (normalizeTokens (tp_Tokens p)) (normalizeTokens tokens)"
    and "validateValueToken (tp_ValueToken p) v"
  shows "\<exists>m. ValidateSetTokens paths tokens v = Inr (Join (normalizeTokens tokens) ''.'', m)"
  using set_lookup.run_cases [of "(normalizeTokens tokens, v)" "SetTokenPaths paths"] assms
  by (auto simp: ValidateSetTokens_def matchPatternTokens_iff)

text \<open>
  every example of the catalogue is a command that is accepted. For each \<open>set\<close> entry of the schema
  whose tokens are well formed, the sample command that \<open>show commands\<close> prints for it passes the
  check, whatever other entries the schema has, and gives the dotted path of its normalised tokens.
\<close>

theorem catalog_examples_accepted:
  assumes "p \<in> set (SetTokenPaths paths)" and "list_all token_ok (tp_Tokens p)" and "value_ok (tp_ValueToken p)"
  shows "exampleFor p = ''set '' @ Join (exampleTokens p) '' '' \<and>
     (\<exists>m. ValidateSetTokens paths (butlast (exampleTokens p)) (last (exampleTokens p)) =
       Inr (Join (normalizeTokens (butlast (exampleTokens p))) ''.'', m))"
proof -
  have k: "tp_Kind p = ''set''" using assms(1) by (simp add: SetTokenPaths_def)
  have ex: "butlast (exampleTokens p) = map sampleToken (tp_Tokens p)"
    "last (exampleTokens p) = sampleValue (tp_ValueToken p)"
    using example_split [of p] assms(3) by (simp_all add: value_ok_def)
  have "list_all2 fits (normalizeTokens (tp_Tokens p)) (normalizeTokens (map sampleToken (tp_Tokens p)))"
    using assms(2) sample_fits
    by (auto simp: normalizeTokens_def list_all2_conv_all_nth list_all_length)
  from accepted_if [OF assms(1) this sample_value_valid [OF assms(3)]]
  show ?thesis using k by (simp add: exampleFor_def ex)
qed

definition address_entry :: TokenPath where
  "address_entry = \<lparr>tp_Kind = ''set'', tp_Tokens = [''interfaces'', ''ethernet'', ''<ifname>'', ''address''],
     tp_ValueToken = ''<cidr>'', tp_Description = [], tp_Multi = True\<rparr>"

theorem catalog_examples_accepted_witness:
  "\<exists>m. ValidateSetTokens [address_entry] [''interfaces'', ''ethernet'', ''eth0'', ''address''] ''10.0.0.0/24'' =
     Inr (''interfaces.ethernet.eth0.address'', m)"
proof -
  have "list_all token_ok (tp_Tokens address_entry)" "value_ok (tp_ValueToken address_entry)"
    "exampleTokens address_entry = [''interfaces'', ''ethernet'', ''eth0'', ''address'', ''10.0.0.0/24'']"
    "normalizeTokens [''interfaces'', ''ethernet'', ''eth0'', ''address''] = [''interfaces'', ''ethernet'', ''eth0'', ''address'']"
    by code_simp+
  moreover have "address_entry \<in> set (SetTokenPaths [address_entry])"
    by (simp add: SetTokenPaths_def address_entry_def)
  ultimately show ?thesis
    using catalog_examples_accepted [of address_entry "[address_entry]"] by simp
qed

text \<open>
  The alternatives of a value token are compared as words. Entries of the schema such as
  \<open><ipv4|ipv6>\<close> therefore accept the words \<open>ipv4\<close> and \<open>ipv6\<close> and refuse every address.
\<close>

lemma address_alternatives_rejected:
  "\<not> validateValueToken ''<ipv4|ipv6>'' ''10.0.0.1''" "\<not> validateValueToken ''<ipv4|ipv6>'' ''2001:db8::1''"
  "validateValueToken ''<ipv4|ipv6>'' ''ipv4''"
  by code_simp+

end
