(* ===== verification/Ctl_Config.thy ===== *)
theory Ctl_Config
  imports Cmdmap Json_Values Go_Files
begin

text \<open>
  The candidate configuration of the command line (cmd/clawgressctl/main.go): reading and writing the
  candidate file, setting and getting a dotted path in the nested map, parsing a value, checking a
  \<open>set\<close> command and rendering the configuration as \<open>set\<close> commands.

  The configuration is a tree that only the running command holds (it was just decoded from the
  file), so the updates in place of the Go code are updates of the tree.
\<close>

text \<open>
  The libraries: the command schema, \<open>strconv.ParseFloat\<close> and \<open>json.Unmarshal\<close> into an \<open>any\<close> (each
  with no value for an error), \<open>fmt.Sprint\<close> for floats, slices and maps, and the codec of the
  candidate file. The text \<open>null\<close> decodes to the nil map, which is the empty map here.
\<close>

record ctl_env =
  ce_paths :: "TokenPath list"
  ce_ParseFloat :: "string \<Rightarrow> val option"
  ce_decode :: "string \<Rightarrow> val option"
  ce_Sprint :: "val \<Rightarrow> string"
  ce_json :: "vmap json"
  ce_faults :: faults

section \<open>The candidate file\<close>

definition loadOrInitConfig :: "ctl_env \<Rightarrow> fs \<Rightarrow> string \<Rightarrow> error + vmap" where
  "loadOrInitConfig E fs path = (case ReadFile (ce_faults E) fs path of
     RNotExist \<Rightarrow> Inr []
   | RError e \<Rightarrow> Inl e
   | RData data \<Rightarrow> (if length data = 0 then Inr [] else unmarshal (ce_json E) data))"

definition writeJSONFile :: "ctl_env \<Rightarrow> string \<Rightarrow> vmap \<Rightarrow> fs \<Rightarrow> error option \<times> fs" where
  "writeJSONFile E path v fs =
    (case (if Dir path \<noteq> ''.'' then f_mkdir (ce_faults E) path else None) of
       Some e \<Rightarrow> (Some e, fs)
     | None \<Rightarrow> (case marshal (ce_json E) v of
         Inl e \<Rightarrow> (Some e, fs)
       | Inr data \<Rightarrow> WriteFile (ce_faults E) path (data @ [newline]) fs))"

section \<open>Paths in the tree\<close>

fun setParts :: "vmap \<Rightarrow> string list \<Rightarrow> val \<Rightarrow> bool \<Rightarrow> vmap" where
  "setParts m [] v appendMode = m"
| "setParts m [leaf] v appendMode =
    (if \<not> appendMode then mput leaf v m
     else (case mget m leaf of
       None \<Rightarrow> mput leaf (VArr [v]) m
     | Some (VArr cur) \<Rightarrow> mput leaf (VArr (cur @ [v])) m
     | Some cur \<Rightarrow> mput leaf (VArr [cur, v]) m))"
| "setParts m (key # k # parts) v appendMode =
    (let child = (case mget m key of None \<Rightarrow> [] | Some next \<Rightarrow>
        (case as_map next of Some child \<Rightarrow> child | None \<Rightarrow> []))
     in mput key (VMap (setParts child (k # parts) v appendMode)) m)"

definition setByPath :: "vmap \<Rightarrow> string \<Rightarrow> val \<Rightarrow> bool \<Rightarrow> vmap" where
  "setByPath cfg path v appendMode = setParts cfg (SplitByte CHR ''.'' path) v appendMode"

definition getByPath :: "vmap \<Rightarrow> string \<Rightarrow> val option" where
  "getByPath cfg path = walk (VMap cfg) (SplitByte CHR ''.'' path)"

section \<open>Commands and values\<close>

definition parseValue :: "ctl_env \<Rightarrow> string \<Rightarrow> val" where
  "parseValue E raw =
    (if raw = ''enable'' \<or> raw = ''enabled'' \<or> raw = ''on'' then VBool True
     else if raw = ''disable'' \<or> raw = ''disabled'' \<or> raw = ''off'' then VBool False
     else if raw = ''true'' then VBool True
     else if raw = ''false'' then VBool False
     else (case Atoi raw of Some i \<Rightarrow> VInt i
     | None \<Rightarrow> (case ce_ParseFloat E raw of Some f \<Rightarrow> f
       | None \<Rightarrow>
          if HasPrefix raw ''{'' \<or> HasPrefix raw ''['' then
            (case ce_decode E raw of Some v \<Rightarrow> v | None \<Rightarrow> VStr raw)
          else VStr raw)))"

definition rejected :: "error \<Rightarrow> error" where
  "rejected e = ''set command rejected: '' @ e"

definition parseSetPathAndValue :: "ctl_env \<Rightarrow> string list \<Rightarrow> error + string \<times> val" where
  "parseSetPathAndValue E args =
    (if length args = 2 \<and> Contains (args ! 0) ''.'' then
       (let pathTokens = SplitByte CHR ''.'' (ReplaceByte CHR ''-'' CHR ''_'' (args ! 0)); valueRaw = args ! 1 in
        case ValidateSetTokens (ce_paths E) pathTokens valueRaw of
          Inl e \<Rightarrow> Inl (rejected e)
        | Inr (path, _) \<Rightarrow> Inr (path, parseValue E valueRaw))
     else if length args < 2 then Inl ''set command requires a path and value''
     else
       (let pathTokens = butlast args; valueRaw = last args in
        case ValidateSetTokens (ce_paths E) pathTokens valueRaw of
          Inl e \<Rightarrow> Inl (rejected e)
        | Inr (path, _) \<Rightarrow> Inr (path, parseValue E valueRaw)))"

definition applySetToFile :: "ctl_env \<Rightarrow> string \<Rightarrow> string \<Rightarrow> val \<Rightarrow> fs \<Rightarrow> error option \<times> fs" where
  "applySetToFile E file keyPath v fs =
    (case loadOrInitConfig E fs file of
       Inl e \<Rightarrow> (Some (''load config: '' @ e), fs)
     | Inr cfg \<Rightarrow>
        (let appendMode = IsMultiPath (ce_paths E) keyPath; cfg = setByPath cfg keyPath v appendMode in
         writeJSONFile E file cfg fs))"

section \<open>Rendering\<close>

definition dotPathToCommand :: "string \<Rightarrow> string" where
  "dotPathToCommand path = ReplaceByte CHR ''.'' CHR '' '' path"

text \<open>\<open>fmt.Sprint\<close>; a string, a bool, an int and nil are printed here.\<close>

definition Sprint :: "ctl_env \<Rightarrow> val \<Rightarrow> string" where
  "Sprint E v = (case v of
     VStr s \<Rightarrow> s | VBool b \<Rightarrow> (if b then ''true'' else ''false'') | VInt i \<Rightarrow> fmt_d i
   | VNil \<Rightarrow> ''<nil>'' | VSpecial t \<Rightarrow> t | _ \<Rightarrow> ce_Sprint E v)"

definition set_line :: "ctl_env \<Rightarrow> string \<Rightarrow> val \<Rightarrow> string" where
  "set_line E pre v = ''set '' @ dotPathToCommand pre @ '' '' @ Sprint E v"

lemma size_map_entry: "(k, w) \<in> set m \<Longrightarrow> size w < size (VMap m)"
  by (induction m) auto

function renderSetCommands :: "ctl_env \<Rightarrow> val \<Rightarrow> string \<Rightarrow> string list \<Rightarrow> string list" where
  "renderSetCommands E v pre out = (case v of
     VMap cur \<Rightarrow> fold (\<lambda>(k, v) out.
        (let nextPrefix = (if pre \<noteq> [] then pre @ ''.'' @ k else k) in renderSetCommands E v nextPrefix out))
        (sort_key fst cur) out
   | VArr cur \<Rightarrow> out @ map (set_line E pre) cur
   | cur \<Rightarrow> out @ [set_line E pre cur])"
  by pat_completeness auto
termination
proof (relation "measure (\<lambda>(E, v, pre, out). size v)")
  show "wf (measure (\<lambda>(E :: ctl_env, v :: val, pre :: string, out :: string list). size v))" by simp
  fix E :: ctl_env and v :: val and pre out cur p outa k w nextPrefix
  show "((E, w, nextPrefix, outa), E, v, pre, out) \<in> measure (\<lambda>(E, v, pre, out). size v)"
    if "v = VMap cur" "p \<in> set (sort_key fst cur)" "(k, w) = p"
    using that size_map_entry [of k w cur] by simp
qed

end
