(* ===== verification/Go_Url.thy ===== *)
theory Go_Url
  imports Go_Text
begin

text \<open>
  What the programs use of \<open>net/url\<close> and of the HTTP library's mux: the fragment and the query of an
  address, the decoding of a query, and the cleaning of a request path.
\<close>

text \<open>\<open>url.QueryUnescape\<close>: \<open>+\<close> is a blank, a percent sign starts two hexadecimal digits.\<close>

definition hex_value :: "char \<Rightarrow> nat option" where
  "hex_value c =
    (let b = byte c in
     if 48 \<le> b \<and> b \<le> 57 then Some (b - 48)
     else if 97 \<le> b \<and> b \<le> 102 then Some (b - 87)
     else if 65 \<le> b \<and> b \<le> 70 then Some (b - 55)
     else None)"

fun QueryUnescape :: "string \<Rightarrow> string option" where
  "QueryUnescape [] = Some []"
| "QueryUnescape (c # s) =
    (if c = CHR ''%'' then
       (case s of
         a # b # t \<Rightarrow> (case (hex_value a, hex_value b) of
             (Some m, Some n) \<Rightarrow> map_option (Cons (char_of (16 * m + n))) (QueryUnescape t)
           | _ \<Rightarrow> None)
       | _ \<Rightarrow> None)
     else map_option (Cons (if c = CHR ''+'' then CHR '' '' else c)) (QueryUnescape s))"

text \<open>
  \<open>URL.Query().Get\<close>: the first value of a key; parameters that are empty, hold a semicolon or do not
  decode are skipped.
\<close>

definition query_pair :: "string \<Rightarrow> (string \<times> string) option" where
  "query_pair param =
    (if param = [] \<or> Contains param '';'' then None
     else (let (k, v) = (case CutByte CHR ''='' param of None \<Rightarrow> (param, []) | Some (k, v) \<Rightarrow> (k, v)) in
       case (QueryUnescape k, QueryUnescape v) of (Some k, Some v) \<Rightarrow> Some (k, v) | _ \<Rightarrow> None))"

definition ParseQuery :: "string \<Rightarrow> (string \<times> string) list" where
  "ParseQuery q = List.map_filter query_pair (SplitByte CHR ''&'' q)"

definition QueryGet :: "string \<Rightarrow> string \<Rightarrow> string" where
  "QueryGet q key = (case map_of (ParseQuery q) key of None \<Rightarrow> [] | Some v \<Rightarrow> v)"

text \<open>The part of an address that is sent: what follows a \<open>#\<close> is its fragment; the query follows the first \<open>?\<close>.\<close>

definition url_sent :: "string \<Rightarrow> string" where
  "url_sent u = (case CutByte CHR ''#'' u of None \<Rightarrow> u | Some (a, _) \<Rightarrow> a)"

definition url_query :: "string \<Rightarrow> string" where
  "url_query u = (case CutByte CHR ''?'' (url_sent u) of None \<Rightarrow> [] | Some (_, q) \<Rightarrow> q)"

text \<open>The mux compares paths after \<open>cleanPath\<close>, which keeps a trailing slash.\<close>

definition cleanPath :: "string \<Rightarrow> string" where
  "cleanPath p =
    (if p = [] then ''/''
     else (let p = (if hd p \<noteq> CHR ''/'' then CHR ''/'' # p else p); np = Clean p in
       if last p = CHR ''/'' \<and> np \<noteq> ''/'' then np @ ''/'' else np))"

text \<open>Text that a query carries as it is (a blank would end the address in the request line).\<close>

definition query_safe :: "string \<Rightarrow> bool" where
  "query_safe s \<longleftrightarrow> list_all (\<lambda>c. c \<notin> {CHR '' '', CHR ''%'', CHR ''+'', CHR ''&'', CHR '';'', CHR ''#''}) s"

lemma QueryUnescape_no_pct:
  "CHR ''%'' \<notin> set s \<Longrightarrow> QueryUnescape s = Some (map (\<lambda>c. if c = CHR ''+'' then CHR '' '' else c) s)"
  by (induction s) auto

lemma query_safe_iff: "query_safe s \<longleftrightarrow> CHR '' '' \<notin> set s \<and> CHR ''%'' \<notin> set s \<and> CHR ''+'' \<notin> set s \<and>
    CHR ''&'' \<notin> set s \<and> CHR '';'' \<notin> set s \<and> CHR ''#'' \<notin> set s"
  by (induction s) (auto simp: query_safe_def)

lemma QueryUnescape_safe [simp]: "query_safe s \<Longrightarrow> QueryUnescape s = Some s"
  by (auto simp: QueryUnescape_no_pct query_safe_iff intro!: map_idI)

lemma query_pair_decodes:
  assumes "query_safe k" and "CHR ''='' \<notin> set k" and "CHR '';'' \<notin> set v"
  shows "query_pair (k @ ''='' @ v) = map_option (Pair k) (QueryUnescape v)"
  using assms by (auto simp: query_pair_def Contains_byte query_safe_iff split: option.split)

lemma ParseQuery_Cons:
  "CHR ''&'' \<notin> set p \<Longrightarrow> ParseQuery (p @ CHR ''&'' # q) = (case query_pair p of None \<Rightarrow> [] | Some b \<Rightarrow> [b]) @ ParseQuery q"
  by (simp add: ParseQuery_def List.map_filter_simps split: option.split)

lemma ParseQuery_single:
  "CHR ''&'' \<notin> set p \<Longrightarrow> ParseQuery p = (case query_pair p of None \<Rightarrow> [] | Some b \<Rightarrow> [b])"
  by (simp add: ParseQuery_def List.map_filter_simps split: option.split)

end
