(* ===== verification/Ctl_Shell.thy ===== *)
theory Ctl_Shell
  imports Ctl_Config Identity_Jwt Go_Url
begin

text \<open>
  The commands of the command line tool (cmd/clawgressctl/main.go), with their flags already parsed: the
  calls of the admin API, the configure mode with its line interpreter, \<open>show\<close>, \<open>show audit\<close>, \<open>token\<close>
  and \<open>install\<close>. A command is a function from the process state (files, lines printed, API calls made,
  programs run) to a result and the next state; the result \<open>Inl\<close> is the message with which \<open>fatal\<close> ends
  the process. The spinner, which only draws on standard error, is left out.
\<close>

section \<open>State\<close>

record api_call =
  al_Method :: string
  al_URL :: string
  al_Body :: "string option"

record shell =
  sh_fs :: fs
  sh_out :: "string list"
  sh_calls :: "api_call list"
  sh_runs :: "(string \<times> string list) list"

text \<open>
  The JSON encoders and decoders, the server as a function of the calls made so far, and the answers of
  the programs that \<open>install\<close> runs.
\<close>

record shell_env = ctl_env +
  sv_pretty :: "val \<Rightarrow> error + string"
  sv_body :: "val \<Rightarrow> error + string"
  sv_indent :: "string \<Rightarrow> error + string"
  sv_events :: "string \<Rightarrow> error + vmap list"
  sv_build :: "string \<Rightarrow> string \<Rightarrow> error option"
  sv_http :: "api_call list \<Rightarrow> error + int \<times> string"
  sv_read :: "api_call list \<Rightarrow> error option"
  sv_run :: "string \<Rightarrow> string list \<Rightarrow> error option"
  sv_stamp :: string
  sv_jwt :: jwt_env
  sv_unix :: int

type_synonym 'a cmd = "shell \<Rightarrow> (error + 'a) \<times> shell"

definition fatal :: "string \<Rightarrow> 'a cmd" where
  "fatal msg s = (Inl msg, s)"

definition Println :: "string \<Rightarrow> shell \<Rightarrow> shell" where
  "Println l s = s\<lparr>sh_out := sh_out s @ [l]\<rparr>"

definition prettyPrint :: "shell_env \<Rightarrow> val \<Rightarrow> unit cmd" where
  "prettyPrint E v s = (case sv_pretty E v of
     Inl e \<Rightarrow> fatal (''encode output: '' @ e) s
   | Inr d \<Rightarrow> (Inr (), Println d s))"

section \<open>Calling the API\<close>

definition api_response :: "shell_env \<Rightarrow> int \<Rightarrow> string \<Rightarrow> vmap" where
  "api_response E status respData =
    [(''http_status'', VInt status)] @
    (if length respData > 0 then
       (case unmarshal (ce_json E) respData of
         Inr parsed \<Rightarrow> [(''response'', VMap parsed)]
       | Inl _ \<Rightarrow> [(''raw_response'', VStr respData)])
     else [])"

definition sendJSON :: "shell_env \<Rightarrow> string \<Rightarrow> string \<Rightarrow> string option \<Rightarrow> vmap cmd" where
  "sendJSON E method url body s = (case sv_build E method url of
     Some e \<Rightarrow> fatal (''build request: '' @ e) s
   | None \<Rightarrow>
      (let s = s\<lparr>sh_calls := sh_calls s @ [\<lparr>al_Method = method, al_URL = url, al_Body = body\<rparr>]\<rparr> in
       case sv_http E (sh_calls s) of
         Inl e \<Rightarrow> fatal (''request failed: '' @ e) s
       | Inr (status, respData) \<Rightarrow>
          (case sv_read E (sh_calls s) of
            Some e \<Rightarrow> fatal (''read response: '' @ e) s
          | None \<Rightarrow>
             (let out = api_response E status respData in
              if status \<ge> 400 then (case prettyPrint E (VMap out) s of (Inl e, s) \<Rightarrow> (Inl e, s) | (Inr _, s) \<Rightarrow> fatal [] s)
              else (Inr out, s)))))"

definition doJSON :: "shell_env \<Rightarrow> string \<Rightarrow> string \<Rightarrow> val option \<Rightarrow> vmap cmd" where
  "doJSON E method url payload s = (case payload of
     None \<Rightarrow> sendJSON E method url None s
   | Some v \<Rightarrow> (case sv_body E v of
       Inl e \<Rightarrow> fatal (''marshal request: '' @ e) s
     | Inr d \<Rightarrow> sendJSON E method url (Some d) s))"

definition configure_body :: "string \<Rightarrow> vmap \<Rightarrow> val" where
  "configure_body actor changes = VMap [(''actor'', VStr actor), (''changes'', VMap changes)]"

definition runConfigureOnce :: "shell_env \<Rightarrow> string \<Rightarrow> string \<Rightarrow> string \<Rightarrow> vmap cmd" where
  "runConfigureOnce E apiURL actor file s = (case ReadFile (ce_faults E) (sh_fs s) file of
     RNotExist \<Rightarrow> fatal (''read --file: open '' @ file @ '': no such file or directory'') s
   | RError e \<Rightarrow> fatal (''read --file: '' @ e) s
   | RData d \<Rightarrow> (case unmarshal (ce_json E) d of
       Inl e \<Rightarrow> fatal (''parse changes JSON: '' @ e) s
     | Inr changes \<Rightarrow>
        doJSON E ''POST'' (apiURL @ ''/v1/opmode/configure'') (Some (configure_body actor changes)) s))"

definition commit_body :: "string \<Rightarrow> string \<Rightarrow> string \<Rightarrow> val" where
  "commit_body actor expected opsMode =
    VMap ([(''actor'', VStr actor)] @
      (if expected \<noteq> [] then [(''expected_revision_id'', VStr expected)] else []) @
      (if TrimSpace opsMode \<noteq> [] then [(''ops_mode'', VStr opsMode)] else []))"

definition runCommitOnce :: "shell_env \<Rightarrow> string \<Rightarrow> string \<Rightarrow> string \<Rightarrow> string \<Rightarrow> vmap cmd" where
  "runCommitOnce E apiURL actor expected opsMode s =
    doJSON E ''POST'' (apiURL @ ''/v1/opmode/commit'') (Some (commit_body actor expected opsMode)) s"

text \<open>Run a command and print what it returns.\<close>

definition then_print :: "shell_env \<Rightarrow> (error + vmap) \<times> shell \<Rightarrow> (error + unit) \<times> shell" where
  "then_print E r = (case r of (Inl e, s) \<Rightarrow> (Inl e, s) | (Inr m, s) \<Rightarrow> prettyPrint E (VMap m) s)"

definition runCommit :: "shell_env \<Rightarrow> string \<Rightarrow> string \<Rightarrow> string \<Rightarrow> string \<Rightarrow> unit cmd" where
  "runCommit E apiURL actor expected opsMode s = then_print E (runCommitOnce E apiURL actor expected opsMode s)"

definition runState :: "shell_env \<Rightarrow> string \<Rightarrow> unit cmd" where
  "runState E apiURL s = then_print E (doJSON E ''GET'' (apiURL @ ''/v1/opmode/state'') None s)"

section \<open>set and show\<close>

definition runSet :: "shell_env \<Rightarrow> string \<Rightarrow> string list \<Rightarrow> unit cmd" where
  "runSet E file args s =
    (if length args < 2 then
       fatal ''usage: clawgressctl set [--file candidate.json] <dot.path> <value> | set <tokens...> <value>'' s
     else (case parseSetPathAndValue (ctl_env.truncate E) args of
       Inl e \<Rightarrow> fatal e s
     | Inr (keyPath, v) \<Rightarrow>
        (case applySetToFile (ctl_env.truncate E) file keyPath v (sh_fs s) of
          (Some e, fs) \<Rightarrow> fatal (''write config: '' @ e) (s\<lparr>sh_fs := fs\<rparr>)
        | (None, fs) \<Rightarrow> (Inr (), Println (''set '' @ keyPath @ '' in '' @ file) (s\<lparr>sh_fs := fs\<rparr>)))))"

definition command_val :: "Command \<Rightarrow> val" where
  "command_val c = VMap [(''kind'', VStr (cm_Kind c)), (''pattern'', VStr (cm_Pattern c)),
     (''description'', VStr (cm_Description c)), (''backend'', VStr (cm_Backend c)), (''example'', VStr (cm_Example c))]"

definition token_path_val :: "TokenPath \<Rightarrow> val" where
  "token_path_val p = VMap ([(''kind'', VStr (tp_Kind p)), (''tokens'', VArr (map VStr (tp_Tokens p)))] @
     (if tp_ValueToken p \<noteq> [] then [(''value_token'', VStr (tp_ValueToken p))] else []) @
     [(''description'', VStr (tp_Description p))] @ (if tp_Multi p then [(''multi'', VBool True)] else []))"

definition catalog_val :: "TokenPath list \<Rightarrow> val" where
  "catalog_val paths = VMap [(''catalog'', VMap (map (\<lambda>(k, cs). (k, VArr (map command_val cs))) (Commands paths))),
     (''token_paths'', VArr (map token_path_val paths))]"

text \<open>The answer of \<open>showFromFile\<close>: a value to print, lines to print, or an error.\<close>

datatype shown = ShowVal val | ShowLines "string list"

definition show_key :: "vmap \<Rightarrow> string list \<Rightarrow> error + shown" where
  "show_key cfg rest =
    (let path = ReplaceByte CHR ''-'' CHR ''_'' (Join rest ''.'') in
     case getByPath cfg path of
       None \<Rightarrow> Inl (''key not found: '' @ path)
     | Some v \<Rightarrow> Inr (ShowVal (VMap [(''key'', VStr path), (''value'', v)])))"

definition showFromFile :: "shell_env \<Rightarrow> string \<Rightarrow> string list \<Rightarrow> fs \<Rightarrow> error + shown" where
  "showFromFile E file rest fs = (case loadOrInitConfig (ctl_env.truncate E) fs file of
     Inl e \<Rightarrow> Inl (''load config: '' @ e)
   | Inr cfg \<Rightarrow>
      if rest = [] then Inr (ShowVal (VMap cfg))
      else if Join rest '' '' = ''commands'' then Inr (ShowVal (catalog_val (ce_paths E)))
      else if Join rest '' '' = ''configuration'' \<or> Join rest '' '' = ''configuration json'' then Inr (ShowVal (VMap cfg))
      else if Join rest '' '' = ''configuration commands'' then
        Inr (ShowLines (sort (renderSetCommands (ctl_env.truncate E) (VMap cfg) [] [])))
      else show_key cfg rest)"

definition print_shown :: "shell_env \<Rightarrow> shown \<Rightarrow> unit cmd" where
  "print_shown E x s = (case x of
     ShowVal v \<Rightarrow> prettyPrint E v s
   | ShowLines ls \<Rightarrow> (Inr (), fold Println ls s))"

definition runShow :: "shell_env \<Rightarrow> string \<Rightarrow> string \<Rightarrow> string list \<Rightarrow> unit cmd" where
  "runShow E file key args s =
    (let rest = (if key \<noteq> [] \<and> args = [] then [key] else args) in
     case showFromFile E file rest (sh_fs s) of
       Inl e \<Rightarrow> fatal e s
     | Inr x \<Rightarrow> print_shown E x s)"

section \<open>Configure mode\<close>

text \<open>\<open>m[key]\<close> with a checked conversion; a missing key and a value of another type give the zero value.\<close>

definition map_field :: "vmap \<Rightarrow> string \<Rightarrow> vmap" where
  "map_field m k = (case mget m k of Some v \<Rightarrow> (case as_map v of Some c \<Rightarrow> c | None \<Rightarrow> []) | None \<Rightarrow> [])"

definition string_field :: "vmap \<Rightarrow> string \<Rightarrow> string" where
  "string_field m k = (case mget m k of Some v \<Rightarrow> (case as_string v of Some c \<Rightarrow> c | None \<Rightarrow> []) | None \<Rightarrow> [])"

definition stage_and_commit :: "shell_env \<Rightarrow> string \<Rightarrow> string \<Rightarrow> string \<Rightarrow> unit cmd" where
  "stage_and_commit E apiURL actor file s = (case runConfigureOnce E apiURL actor file s of
     (Inl e, s) \<Rightarrow> (Inl e, s)
   | (Inr stage, s) \<Rightarrow>
      (let respObj = map_field stage ''response''; rev = string_field respObj ''revision_id'' in
       then_print E (runCommitOnce E apiURL actor rev ''dry-run'' s)))"

text \<open>One line of input: the result says whether the loop goes on.\<close>

definition go_on :: "(error + unit) \<times> shell \<Rightarrow> (error + bool) \<times> shell" where
  "go_on r = (case r of (Inl e, s) \<Rightarrow> (Inl e, s) | (Inr _, s) \<Rightarrow> (Inr True, s))"

definition shell_set :: "shell_env \<Rightarrow> string \<Rightarrow> string list \<Rightarrow> shell \<Rightarrow> shell" where
  "shell_set E file rest s =
    (if length rest < 2 then Println ''usage: set <tokens...> <value>'' s
     else (case parseSetPathAndValue (ctl_env.truncate E) rest of
       Inl e \<Rightarrow> Println (''error: '' @ e) s
     | Inr (keyPath, v) \<Rightarrow>
        (case applySetToFile (ctl_env.truncate E) file keyPath v (sh_fs s) of
          (Some e, fs) \<Rightarrow> Println (''error: '' @ e) (s\<lparr>sh_fs := fs\<rparr>)
        | (None, fs) \<Rightarrow> Println (''set '' @ keyPath) (s\<lparr>sh_fs := fs\<rparr>))))"

definition shell_show :: "shell_env \<Rightarrow> string \<Rightarrow> string list \<Rightarrow> unit cmd" where
  "shell_show E file rest s = (case showFromFile E file rest (sh_fs s) of
     Inl e \<Rightarrow> (Inr (), Println (''error: '' @ e) s)
   | Inr x \<Rightarrow> print_shown E x s)"

definition shell_discard :: "shell_env \<Rightarrow> string \<Rightarrow> shell \<Rightarrow> shell" where
  "shell_discard E file s = (case RemoveFile (ce_faults E) file (sh_fs s) of
     (RemError e, fs) \<Rightarrow> Println (''error: '' @ e) (s\<lparr>sh_fs := fs\<rparr>)
   | (_, fs) \<Rightarrow> Println ''candidate configuration discarded'' (s\<lparr>sh_fs := fs\<rparr>))"

definition shell_line :: "shell_env \<Rightarrow> string \<Rightarrow> string \<Rightarrow> string \<Rightarrow> string \<Rightarrow> bool cmd" where
  "shell_line E apiURL actor file text0 s =
    (let line = TrimSpace text0; tokens = Fields line in
     if line = [] then (Inr True, s)
     else
      (let cmd = hd tokens; rest = tl tokens in
       if cmd = ''set'' then (Inr True, shell_set E file rest s)
       else if cmd = ''show'' then go_on (shell_show E file rest s)
       else if cmd = ''save'' then go_on (then_print E (runConfigureOnce E apiURL actor file s))
       else if cmd = ''commit'' then go_on (stage_and_commit E apiURL actor file s)
       else if cmd = ''discard'' then (Inr True, shell_discard E file s)
       else if cmd = ''exit'' \<or> cmd = ''quit'' then (Inr False, s)
       else if cmd = ''help'' \<or> cmd = ''?'' then (Inr True, Println ''commands: set, show, save, commit, discard, exit'' s)
       else (Inr True, Println (''unknown command: '' @ cmd) s)))"

fun shell_loop :: "shell_env \<Rightarrow> string \<Rightarrow> string \<Rightarrow> string \<Rightarrow> string list \<Rightarrow> unit cmd" where
  "shell_loop E apiURL actor file [] s = (Inr (), Println [] s)"
| "shell_loop E apiURL actor file (l # ls) s = (case shell_line E apiURL actor file l s of
     (Inl e, s) \<Rightarrow> (Inl e, s)
   | (Inr False, s) \<Rightarrow> (Inr (), s)
   | (Inr True, s) \<Rightarrow> shell_loop E apiURL actor file ls s)"

definition runConfigureMode :: "shell_env \<Rightarrow> string \<Rightarrow> string \<Rightarrow> string \<Rightarrow> string list \<Rightarrow> unit cmd" where
  "runConfigureMode E apiURL actor file stdin s =
    shell_loop E apiURL actor file stdin
     (Println ''Use: set <path...> <value>, show [commands|configuration|configuration commands], commit, save, discard, exit''
       (Println (''Entering configure mode (candidate: '' @ file @ '')'') s))"

definition runConfigure :: "shell_env \<Rightarrow> string \<Rightarrow> string \<Rightarrow> string \<Rightarrow> string \<Rightarrow> string list \<Rightarrow> string list \<Rightarrow> unit cmd" where
  "runConfigure E apiURL actor file candidate args stdin s =
    (if args \<noteq> [] then
       fatal ''usage: configure [--url ...] [--actor ...] [--file changes.json] [--candidate candidate.json]'' s
     else if file \<noteq> [] then then_print E (runConfigureOnce E apiURL actor file s)
     else runConfigureMode E apiURL actor candidate stdin s)"

section \<open>show audit\<close>

definition audit_url :: "string \<Rightarrow> string \<Rightarrow> string \<Rightarrow> string \<Rightarrow> int \<Rightarrow> string" where
  "audit_url apiURL agentID decision since limit =
    apiURL @ ''/v1/audit?limit='' @ fmt_d limit @
    (if agentID \<noteq> [] then ''&agent_id='' @ agentID else []) @
    (if decision \<noteq> [] then ''&decision='' @ decision else []) @
    (if since \<noteq> [] then ''&since='' @ since else [])"

definition audit_row :: "vmap \<Rightarrow> string" where
  "audit_row e =
    (let ts = string_field e ''timestamp''; ts = (if length ts > 23 then take 23 ts else ts) in
     pad_right 24 ts @ '' '' @ pad_right 18 (string_field e ''agent_id'') @ '' '' @
     pad_right 8 (string_field e ''http_method'') @ '' '' @ pad_right 7 (string_field e ''decision'') @ '' '' @
     pad_right 28 (string_field e ''destination'') @ '' '' @ string_field e ''policy_id'')"

definition audit_table :: "vmap list \<Rightarrow> string list" where
  "audit_table events =
    (if length events = 0 then [''no audit events'']
     else [pad_right 24 ''TIMESTAMP'' @ '' '' @ pad_right 18 ''AGENT'' @ '' '' @ pad_right 8 ''METHOD'' @ '' '' @
           pad_right 7 ''DECISION'' @ '' '' @ pad_right 28 ''DESTINATION'' @ '' '' @ ''POLICY''] @
          map audit_row events @ [[newline] @ fmt_d (int (length events)) @ '' events''])"

definition runShowAudit :: "shell_env \<Rightarrow> string \<Rightarrow> string \<Rightarrow> string \<Rightarrow> string \<Rightarrow> int \<Rightarrow> bool \<Rightarrow> unit cmd" where
  "runShowAudit E apiURL agentID decision since limit jsonOut s =
    (let url = audit_url apiURL agentID decision since limit;
         s = s\<lparr>sh_calls := sh_calls s @ [\<lparr>al_Method = ''GET'', al_URL = url, al_Body = None\<rparr>]\<rparr> in
     case sv_http E (sh_calls s) of
       Inl e \<Rightarrow> fatal (''request failed: '' @ e) s
     | Inr (status, d) \<Rightarrow>
        (case sv_read E (sh_calls s) of
          Some e \<Rightarrow> fatal (''read response: '' @ e) s
        | None \<Rightarrow>
           if status \<ge> 400 then fatal (''error: HTTP '' @ fmt_d status @ '': '' @ d) s
           else if jsonOut then
             (Inr (), Println (case sv_indent E d of Inl _ \<Rightarrow> d | Inr pretty \<Rightarrow> pretty) s)
           else (case sv_events E d of
             Inl e \<Rightarrow> fatal (''parse response: '' @ e) s
           | Inr events \<Rightarrow> (Inr (), fold Println (audit_table events) s))))"

section \<open>token and install\<close>

text \<open>The duration is in nanoseconds; \<open>Unix\<close> of the expiry drops the fraction of a second.\<close>

definition token_claims :: "shell_env \<Rightarrow> int \<Rightarrow> string \<Rightarrow> string \<Rightarrow> string \<Rightarrow> string \<Rightarrow> int \<Rightarrow> JWTClaims" where
  "token_claims E nanos agentID teamID projectID envn ttl =
    \<lparr>cl_AgentID = agentID, cl_TeamID = teamID, cl_ProjectID = projectID, cl_Environment = envn,
     cl_Exp = (sv_unix E * 10 ^ 9 + nanos + ttl) div 10 ^ 9, cl_Iat = sv_unix E\<rparr>"

definition runToken :: "shell_env \<Rightarrow> int \<Rightarrow> string \<Rightarrow> string \<Rightarrow> string \<Rightarrow> string \<Rightarrow> string \<Rightarrow> int \<Rightarrow> unit cmd" where
  "runToken E nanos agentID teamID projectID envn secret ttl s =
    (if agentID = [] \<or> secret = [] then
       fatal ''usage: clawgressctl token --agent <id> --secret <key> [--team t] [--project p] [--env e] [--ttl 1h]'' s
     else (Inr (), Println (SignJWT (sv_jwt E) (token_claims E nanos agentID teamID projectID envn ttl) secret) s))"

definition install_plan :: "shell_env \<Rightarrow> string \<Rightarrow> string \<Rightarrow> bool \<Rightarrow> bool \<Rightarrow> vmap" where
  "install_plan E targetDisk hostname autoReboot yes =
    [(''mode'', VStr ''livecd-to-disk''), (''boot_source'', VStr ''squashfs''), (''target_disk'', VStr targetDisk),
     (''hostname'', VStr hostname), (''auto_reboot'', VBool autoReboot), (''confirmed'', VBool yes),
     (''requires_root'', VBool True), (''timestamp'', VStr (sv_stamp E)),
     (''transactional_profile'', VStr ''commit/configure'')]"

definition installer :: string where
  "installer = ''/usr/local/sbin/clawgress-install.sh''"

definition install_run :: "shell_env \<Rightarrow> string \<Rightarrow> string \<Rightarrow> bool \<Rightarrow> unit cmd" where
  "install_run E targetDisk hostname autoReboot s =
    (let installArgs = [''--target-disk'', targetDisk, ''--hostname'', hostname, ''--apply''];
         s = Println ([newline] @ ''--- Executing: '' @ installer @ '' '' @ Join installArgs '' '' @ '' ---'' @ [newline]) s;
         s = s\<lparr>sh_runs := sh_runs s @ [(installer, installArgs)]\<rparr> in
     case sv_run E installer installArgs of
       Some e \<Rightarrow> fatal (''install failed: '' @ e) s
     | None \<Rightarrow>
        (let s = Println ([newline] @ ''--- Install complete ---'') s in
         if autoReboot then
           (let s = Println ''Rebooting...'' s in (Inr (), s\<lparr>sh_runs := sh_runs s @ [(''reboot'', [])]\<rparr>))
         else (Inr (), s)))"

definition runInstall :: "shell_env \<Rightarrow> string \<Rightarrow> string \<Rightarrow> bool \<Rightarrow> bool \<Rightarrow> unit cmd" where
  "runInstall E targetDisk hostname autoReboot yes s =
    (if targetDisk = [] then fatal ''--target-disk is required'' s
     else
      (let plan = install_plan E targetDisk hostname autoReboot yes in
       if \<not> yes then
         (case prettyPrint E (VMap (mput ''status'' (VStr ''dry-run'') plan)) s of
           (Inl e, s) \<Rightarrow> (Inl e, s)
         | (Inr _, s) \<Rightarrow> (Inr (), Println ([newline] @ ''pass --yes to execute this installation plan'') s))
       else
         (case prettyPrint E (VMap (mput ''status'' (VStr ''executing'') plan)) s of
           (Inl e, s) \<Rightarrow> (Inl e, s)
         | (Inr _, s) \<Rightarrow> install_run E targetDisk hostname autoReboot s)))"

section \<open>The command word\<close>

text \<open>Which command the arguments name, and the arguments that are left for its flags.\<close>

datatype command = CConfigure | CCommit | CState | CSet | CShow | CShowAudit | CToken | CInstall | CUsage

definition main_command :: "string list \<Rightarrow> command \<times> string list" where
  "main_command args =
    (if length args < 2 then (CUsage, [])
     else
      (let cmd = args ! 1 in
       if cmd = ''configure'' then (CConfigure, drop 2 args)
       else if cmd = ''commit'' then (CCommit, drop 2 args)
       else if cmd = ''state'' then (CState, drop 2 args)
       else if cmd = ''set'' then (CSet, drop 2 args)
       else if cmd = ''show'' then
         (if length args \<ge> 3 \<and> args ! 2 = ''audit'' then (CShowAudit, drop 3 args) else (CShow, drop 2 args))
       else if cmd = ''token'' then (CToken, drop 2 args)
       else if cmd = ''install'' then (CInstall, drop 2 args)
       else (CUsage, [])))"

end
