(* ===== verification/Ctl_Props.thy ===== *)
theory Ctl_Props
  imports Ctl_Config Enforcer_Props
begin

text \<open>
  The candidate configuration: what a \<open>set\<close> does to the tree, that rendering it is deterministic, which
  rendered commands cannot be entered again, and which accepted commands the planner never sees.
\<close>

declare renderSetCommands.simps [simp del]

section \<open>Setting and getting\<close>

definition old_items :: "val option \<Rightarrow> val list" where
  "old_items ov = (case ov of None \<Rightarrow> [] | Some (VArr xs) \<Rightarrow> xs | Some v \<Rightarrow> [v])"

lemma walk_setParts_same:
  "parts \<noteq> [] \<Longrightarrow> walk (VMap (setParts m parts v app)) parts =
     Some (if app then VArr (old_items (walk (VMap m) parts) @ [v]) else v)"
proof (induction m parts v app rule: setParts.induct)
  case (2 m leaf v app)
  then show ?case by (auto simp: old_items_def split: option.splits val.splits)
next
  case (3 m key k parts v app)
  have "walk (VMap (case mget m key of None \<Rightarrow> [] | Some next \<Rightarrow>
      (case as_map next of Some child \<Rightarrow> child | None \<Rightarrow> []))) (k # parts) = walk (VMap m) (key # k # parts)"
    by (auto split: option.splits)
  then show ?case using 3 by simp
qed simp

lemma walk_empty_map [simp]: "q \<noteq> [] \<Longrightarrow> walk (VMap []) q = None"
  by (cases q) auto

lemma walk_leaf: "as_map v = None \<Longrightarrow> q \<noteq> [] \<Longrightarrow> walk v q = None"
  by (cases q) auto

lemma walk_setParts_frame:
  "\<not> prefix parts q \<Longrightarrow> \<not> prefix q parts \<Longrightarrow>
     walk (VMap (setParts m parts v app)) q = walk (VMap m) q"
proof (induction m parts v app arbitrary: q rule: setParts.induct)
  case (2 m leaf v app)
  then obtain x r where "q = x # r" "x \<noteq> leaf" by (cases q) auto
  then show ?case by (auto split: option.splits val.splits)
next
  case (3 m key k parts v app)
  then obtain x r where q: "q = x # r" by (cases q) auto
  show ?case
  proof (cases "x = key")
    case True
    then have "\<not> prefix (k # parts) r" "\<not> prefix r (k # parts)" using 3 q by auto
    moreover from this have "r \<noteq> []" by auto
    ultimately show ?thesis
      using 3(1) [OF refl, of r] q True by (auto split: option.splits simp: walk_leaf as_map_Some)
  qed (simp add: q)
qed simp

lemma update_entries: "set (AList.update k v m) \<subseteq> insert (k, v) (set m)"
  by (induction m) auto

lemma val_ok_mput: "val_ok (VMap m) \<Longrightarrow> val_ok v \<Longrightarrow> val_ok (VMap (mput k v m))"
  using update_entries [of k v m] by auto

lemma val_ok_mget: "val_ok (VMap m) \<Longrightarrow> mget m k = Some w \<Longrightarrow> val_ok w"
  using map_of_SomeD by fastforce

lemma setParts_ok:
  "val_ok (VMap m) \<Longrightarrow> val_ok v \<Longrightarrow> val_ok (VMap (setParts m parts v app))"
proof (induction m parts v app rule: setParts.induct)
  case (2 m leaf v app)
  then show ?case
    by (auto intro!: val_ok_mput dest: val_ok_mget simp del: val_ok.simps(2) split: option.splits val.splits)
next
  case (3 m key k parts v app)
  have "val_ok (VMap (case mget m key of None \<Rightarrow> [] | Some next \<Rightarrow>
      (case as_map next of Some child \<Rightarrow> child | None \<Rightarrow> [])))"
    using 3(2) by (auto dest: val_ok_mget simp: as_map_Some simp del: val_ok.simps(2) split: option.splits) simp_all
  then show ?case using 3 by (simp add: val_ok_mput del: val_ok.simps(2))
qed simp

text \<open>
  C35: a \<open>set\<close> changes one path. After setting a dotted path the value is found there (or, for a path
  of the schema's multi kind, appended to what was there, a scalar becoming a list first), every path
  that neither contains nor is contained in it reads as before, and all maps of the tree keep
  distinct keys.
\<close>

theorem set_then_get:
  assumes "\<not> prefix (SplitByte CHR ''.'' p) (SplitByte CHR ''.'' q)"
    and "\<not> prefix (SplitByte CHR ''.'' q) (SplitByte CHR ''.'' p)"
    and "val_ok (VMap cfg)" and "val_ok v"
  shows "getByPath (setByPath cfg p v app) p =
       Some (if app then VArr (old_items (getByPath cfg p) @ [v]) else v) \<and>
     getByPath (setByPath cfg p v app) q = getByPath cfg q \<and> val_ok (VMap (setByPath cfg p v app))"
  using walk_setParts_same [of "SplitByte CHR ''.'' p"] walk_setParts_frame [OF assms(1,2)] setParts_ok [OF assms(3,4)]
  by (simp add: getByPath_def setByPath_def)

theorem set_then_get_witness:
  "getByPath (setByPath [(''a'', VMap [(''b'', VStr ''x'')]), (''c'', VInt 1)] ''a.b'' (VStr ''y'') True) ''a.b'' =
     Some (VArr [VStr ''x'', VStr ''y'']) \<and>
   getByPath (setByPath [(''a'', VMap [(''b'', VStr ''x'')]), (''c'', VInt 1)] ''a.b'' (VStr ''y'') True) ''c'' = Some (VInt 1)"
  using set_then_get [of "''a.b''" "''c''" "[(''a'', VMap [(''b'', VStr ''x'')]), (''c'', VInt 1)]" "VStr ''y''" True]
  by (simp add: getByPath_def old_items_def gomap_ok_def)

section \<open>Rendering\<close>

lemma map_fst_insort: "map fst (insort_key fst p m) = insort (fst p) (map fst m)"
  by (induction m) auto

lemma map_fst_sort: "map fst (sort_key fst m) = sort (map fst m)"
  by (induction m) (auto simp: map_fst_insort)

lemma sorted_entries:
  assumes "gomap_ok m"
  shows "sort_key fst m = map (\<lambda>k. (k, the (mget m k))) (sort (map fst m))"
proof -
  have "\<forall>p \<in> set (sort_key fst m). p = (fst p, the (mget m (fst p)))"
    using assms by (auto simp: gomap_ok_def)
  then have "sort_key fst m = map (\<lambda>p. (fst p, the (mget m (fst p)))) (sort_key fst m)"
    by (metis (no_types, lifting) map_idI)
  also have "\<dots> = map (\<lambda>k. (k, the (mget m k))) (map fst (sort_key fst m))" by simp
  finally show ?thesis by (simp add: map_fst_sort)
qed

lemma render_veq: "veq v w \<Longrightarrow> renderSetCommands E v pre out = renderSetCommands E w pre out"
proof (induction E v pre out arbitrary: w rule: renderSetCommands.induct)
  case (1 E v pre out)
  show ?case
  proof (cases "v = w")
    case False
    from 1(2) False obtain m n where mn: "v = VMap m" "w = VMap n" "gomap_ok m" "gomap_ok n"
      and rel: "\<And>k. rel_option veq (mget m k) (mget n k)"
      by cases auto
    have keys: "sort (map fst m) = sort (map fst n)"
      using 1(2) meq_sorted_keys by (simp add: mn meq_def)
    let ?next = "\<lambda>k. if pre \<noteq> [] then pre @ ''.'' @ k else k"
    have step: "renderSetCommands E (the (mget m k)) (?next k) o1 = renderSetCommands E (the (mget n k)) (?next k) o1"
      if k: "k \<in> set (sort (map fst m))" for k o1
    proof -
      obtain x where x: "mget m k = Some x"
        using k by (metis list.set_map map_of_eq_None_iff not_Some_eq set_sort)
      with rel [of k] obtain y where y: "mget n k = Some y" "veq x y" by (auto simp: option_rel_Some1)
      have "(k, x) \<in> set (sort_key fst m)" using x by (simp add: map_of_SomeD)
      from 1(1) [OF mn(1) this refl refl y(2)] show ?thesis by (simp add: x y)
    qed
    have "fold (\<lambda>k out. renderSetCommands E (the (mget m k)) (?next k) out) (sort (map fst m)) out =
        fold (\<lambda>k out. renderSetCommands E (the (mget n k)) (?next k) out) (sort (map fst n)) out"
      unfolding keys [symmetric] by (rule fold_cong) (use step in auto)
    then show ?thesis
      unfolding mn renderSetCommands.simps [of E "VMap m"] renderSetCommands.simps [of E "VMap n"]
      by (simp add: sorted_entries [OF mn(3)] sorted_entries [OF mn(4)] fold_map comp_def Let_def)
  qed simp
qed

text \<open>
  \<open>show configuration commands\<close> is deterministic. The rendered commands are the same in whatever
  order Go visits the maps of the configuration.
\<close>

theorem render_deterministic:
  assumes "veq (VMap c) (VMap d)"
  shows "renderSetCommands E (VMap c) [] [] = renderSetCommands E (VMap d) [] []"
  by (rule render_veq) (rule assms)

definition entry :: "string list \<Rightarrow> string \<Rightarrow> TokenPath" where
  "entry toks v = \<lparr>tp_Kind = ''set'', tp_Tokens = toks, tp_ValueToken = v, tp_Description = [], tp_Multi = False\<rparr>"

definition demo_ctl :: ctl_env where
  "demo_ctl = \<lparr>ce_paths = [entry [''firewall'', ''nftables'', ''wan-block''] ''enable'',
       entry [''interfaces'', ''ethernet'', ''<ifname>'', ''address''] ''dhcp'',
       entry [''system'', ''host-name''] ''<name>''],
     ce_ParseFloat = (\<lambda>_. None), ce_decode = (\<lambda>_. None), ce_Sprint = (\<lambda>_. []),
     ce_json = \<lparr>marshal = (\<lambda>_. Inl []), unmarshal = (\<lambda>_. Inr [])\<rparr>, ce_faults = no_faults\<rparr>"

theorem render_deterministic_witness:
  "renderSetCommands demo_ctl (VMap [(''b'', VInt 1), (''a'', VBool True)]) [] [] =
   renderSetCommands demo_ctl (VMap [(''a'', VBool True), (''b'', VInt 1)]) [] []"
  by (rule render_deterministic, rule veq_maps) (simp_all add: gomap_ok_def veq_same)

section \<open>What cannot be entered again\<close>

lemma validate_enable: "validateValueToken ''enable'' ''enable''" "\<not> validateValueToken ''enable'' ''true''"
  by code_simp+

text \<open>
  rendered switches are rejected. A path that the schema lets one \<open>enable\<close> (and give no other
  value) accepts the word \<open>enable\<close>, which is stored as a boolean and rendered as \<open>true\<close>; the rendered
  command is not accepted. So the output of \<open>show configuration commands\<close> cannot be entered again.
\<close>

theorem rendered_switch_rejected:
  assumes "\<forall>p \<in> set (SetTokenPaths (ce_paths E)).
      matchPatternTokens (normalizeTokens (tp_Tokens p)) (normalizeTokens tokens) \<longrightarrow> tp_ValueToken p = ''enable''"
    and "\<exists>p \<in> set (SetTokenPaths (ce_paths E)). matchPatternTokens (normalizeTokens (tp_Tokens p)) (normalizeTokens tokens)"
  shows "(\<exists>path m. ValidateSetTokens (ce_paths E) tokens ''enable'' = Inr (path, m)) \<and>
     Sprint E (parseValue E ''enable'') = ''true'' \<and>
     ValidateSetTokens (ce_paths E) tokens ''true'' = Inl ''unknown or invalid command path/value''"
proof -
  let ?ps = "SetTokenPaths (ce_paths E)" and ?nt = "normalizeTokens tokens"
  have "\<exists>path m. ValidateSetTokens (ce_paths E) tokens ''enable'' = Inr (path, m)"
    using set_lookup.run_cases [of "(?nt, ''enable'')" ?ps] assms validate_enable(1)
    by (auto simp: ValidateSetTokens_def)
  moreover have "ValidateSetTokens (ce_paths E) tokens ''true'' = Inl ''unknown or invalid command path/value''"
    using set_lookup.run_miss [of ?ps "(?nt, ''true'')"] assms(1) validate_enable(2)
    by (auto simp: ValidateSetTokens_def)
  ultimately show ?thesis by (simp add: parseValue_def Sprint_def)
qed

theorem rendered_switch_rejected_witness:
  "parseSetPathAndValue demo_ctl [''firewall'', ''nftables'', ''wan-block'', ''enable''] =
     Inr (''firewall.nftables.wan_block'', VBool True) \<and>
   ValidateSetTokens (ce_paths demo_ctl) [''firewall'', ''nftables'', ''wan_block''] ''true'' =
     Inl ''unknown or invalid command path/value''"
proof -
  have "\<forall>p \<in> set (SetTokenPaths (ce_paths demo_ctl)). matchPatternTokens (normalizeTokens (tp_Tokens p))
      (normalizeTokens [''firewall'', ''nftables'', ''wan_block'']) \<longrightarrow> tp_ValueToken p = ''enable''"
    "\<exists>p \<in> set (SetTokenPaths (ce_paths demo_ctl)). matchPatternTokens (normalizeTokens (tp_Tokens p))
      (normalizeTokens [''firewall'', ''nftables'', ''wan_block''])"
    by code_simp+
  note r = rendered_switch_rejected [OF this]
  show ?thesis by (rule conjI, code_simp) (use r in simp)
qed

definition after_set :: "string list \<Rightarrow> vmap" where
  "after_set args = (case parseSetPathAndValue demo_ctl args of Inl _ \<Rightarrow> []
     | Inr (path, v) \<Rightarrow> setByPath [] path v (IsMultiPath (ce_paths demo_ctl) path))"

text \<open>
  accepted commands that configure something else. Every \<open>-\<close> of a command becomes \<open>_\<close> and every dot
  of a token starts a new level, also inside names: \<open>set interfaces ethernet br-lan address dhcp\<close> plans
  DHCP for \<open>br_lan\<close>, the same command for \<open>eth0.100\<close> plans no interface at all, and a host name of
  digits is stored as a number, which the planner ignores.
\<close>

theorem accepted_names_mangled:
  "map op_Scope (BuildOpsPlan (after_set [''interfaces'', ''ethernet'', ''br-lan'', ''address'', ''dhcp''])) =
     [''interfaces'', ''interfaces ethernet br_lan address dhcp''] \<and>
   after_set [''interfaces'', ''ethernet'', ''eth0.100'', ''address'', ''dhcp''] =
     [(''interfaces'', VMap [(''ethernet'', VMap [(''eth0'', VMap [(''100'', VMap [(''address'', VStr ''dhcp'')])])])])] \<and>
   map op_Scope (BuildOpsPlan (after_set [''interfaces'', ''ethernet'', ''eth0.100'', ''address'', ''dhcp''])) =
     [''interfaces''] \<and>
   after_set [''system'', ''host-name'', ''007''] = [(''system'', VMap [(''host_name'', VInt 7)])] \<and>
   map op_Scope (BuildOpsPlan (after_set [''system'', ''host-name'', ''007''])) = [''system'']"
  by (intro conjI; code_simp)

end
