(* ===== verification/Policy_Signing.thy ===== *)
theory Policy_Signing
  imports Policy_Engine
begin

text \<open>
  Signed policy bundles (internal/policy/signing.go). The HMAC (key first) and the JSON codecs are
  parameters; a marshalling error of the rules is dropped, as \<open>data, _ :=\<close> does.
\<close>

record SignedBundle =
  sb_Rules :: "Rule list"
  sb_Signature :: string
  sb_SignedAt :: string
  sb_Version :: int

record sign_env =
  se_hmac :: "string \<Rightarrow> string \<Rightarrow> string"
  se_rules :: "Rule list json"
  se_bundle :: "SignedBundle json"

definition hmacSHA256Hex :: "sign_env \<Rightarrow> string \<Rightarrow> string \<Rightarrow> string" where
  "hmacSHA256Hex E dat key = hex_encode (se_hmac E key dat)"

definition rules_bytes :: "sign_env \<Rightarrow> Rule list \<Rightarrow> string" where
  "rules_bytes E rules = (case marshal (se_rules E) rules of Inl _ \<Rightarrow> [] | Inr d \<Rightarrow> d)"

definition SignBundle :: "sign_env \<Rightarrow> string \<Rightarrow> Rule list \<Rightarrow> string \<Rightarrow> SignedBundle" where
  "SignBundle E stamp rules secret =
    (let dat = rules_bytes E rules; sig = hmacSHA256Hex E dat secret in
     \<lparr>sb_Rules = rules, sb_Signature = sig, sb_SignedAt = stamp, sb_Version = 1\<rparr>)"

definition VerifyBundle :: "sign_env \<Rightarrow> SignedBundle \<Rightarrow> string \<Rightarrow> error option" where
  "VerifyBundle E bundle secret =
    (let dat = rules_bytes E (sb_Rules bundle); expected = hmacSHA256Hex E dat secret in
     if expected \<noteq> sb_Signature bundle then Some ''signature mismatch'' else None)"

definition SaveSignedBundle :: "sign_env \<Rightarrow> faults \<Rightarrow> string \<Rightarrow> SignedBundle \<Rightarrow> fs \<Rightarrow> error option \<times> fs" where
  "SaveSignedBundle E F path bundle fs = (case marshal (se_bundle E) bundle of
     Inl e \<Rightarrow> (Some (''marshal bundle: '' @ e), fs)
   | Inr d \<Rightarrow> write_rename F ''write bundle: '' [] path d fs)"

definition LoadSignedBundle :: "sign_env \<Rightarrow> faults \<Rightarrow> fs \<Rightarrow> string \<Rightarrow> string \<Rightarrow> error + Rule list" where
  "LoadSignedBundle E F fs path secret =
    (let wrap = (\<lambda>what e. Inl (what @ '' bundle '' @ path @ '': '' @ e)) in
     case ReadFile F fs path of
       RNotExist \<Rightarrow> wrap ''read'' ''file does not exist''
     | RError e \<Rightarrow> wrap ''read'' e
     | RData d \<Rightarrow> (case unmarshal (se_bundle E) d of
         Inl e \<Rightarrow> wrap ''parse'' e
       | Inr bundle \<Rightarrow> (case VerifyBundle E bundle secret of
           Some e \<Rightarrow> wrap ''verify'' e
         | None \<Rightarrow> Inr (sb_Rules bundle))))"

text \<open>Saving a bundle is an atomic write.\<close>

interpretation bundle_file: atomic_file
  "\<lambda>F (E, path, bundle). SaveSignedBundle E F path bundle"
  "\<lambda>(E, path, bundle). marshal (se_bundle E) bundle"
  "\<lambda>(E, path, bundle). path"
proof (unfold_locales, goal_cases)
  case (1 F x fs fs')
  then show ?case by (auto simp: SaveSignedBundle_def write_rename_ok split: prod.splits sum.splits)
next
  case (2 F x fs e fs')
  then show ?case by (auto simp: SaveSignedBundle_def write_rename_err split: prod.splits sum.splits)
next
  case (3 q x F fs)
  then show ?case by (auto simp: SaveSignedBundle_def write_rename_frame split: prod.splits sum.splits)
qed

section \<open>What a bundle promises\<close>

lemma verify_iff: "VerifyBundle E b secret = None \<longleftrightarrow>
    sb_Signature b = hmacSHA256Hex E (rules_bytes E (sb_Rules b)) secret"
  by (auto simp: VerifyBundle_def Let_def)

lemma hex_digit_inject: "m < 16 \<Longrightarrow> n < 16 \<Longrightarrow> hex_digit m = hex_digit n \<longleftrightarrow> m = n"
proof -
  have "distinct ''0123456789abcdef''" "length ''0123456789abcdef'' = 16" by simp_all
  then show "m < 16 \<Longrightarrow> n < 16 \<Longrightarrow> hex_digit m = hex_digit n \<longleftrightarrow> m = n"
    unfolding hex_digit_def by (metis nth_eq_iff_index_eq)
qed

lemma hex_encode_inject: "hex_encode a = hex_encode b \<longleftrightarrow> a = b"
proof
  show "hex_encode a = hex_encode b \<Longrightarrow> a = b"
  proof (induction a arbitrary: b)
    case Nil
    then show ?case by (cases b) (auto simp: hex_encode_def)
  next
    case (Cons x a)
    then obtain y c where b: "b = y # c" by (cases b) (auto simp: hex_encode_def)
    have "byte x < 256" "byte y < 256" by (simp_all add: of_char_def)
    moreover have "hex_digit (byte x div 16) = hex_digit (byte y div 16)"
      "hex_digit (byte x mod 16) = hex_digit (byte y mod 16)" "hex_encode a = hex_encode c"
      using Cons.prems by (simp_all add: b hex_encode_def)
    ultimately have "(byte x :: nat) div 16 = byte y div 16" "(byte x :: nat) mod 16 = byte y mod 16"
      by (simp_all add: hex_digit_inject less_mult_imp_div_less)
    then have "(byte x :: nat) = byte y" by (metis div_mod_decomp)
    then show ?case using Cons.IH \<open>hex_encode a = hex_encode c\<close> by (simp add: b)
  qed
qed simp

lemma load_saved_bundle:
  assumes "SaveSignedBundle E F p b fs = (None, fs')" and "json_roundtrip (se_bundle E) b" and "f_read G p = None"
  shows "(\<exists>rs. LoadSignedBundle E G fs' p k = Inr rs) \<longleftrightarrow> VerifyBundle E b k = None"
    "VerifyBundle E b k = None \<Longrightarrow> LoadSignedBundle E G fs' p k = Inr (sb_Rules b)"
proof -
  obtain d where d: "marshal (se_bundle E) b = Inr d" "ReadFile G fs' p = RData d"
    using bundle_file.ok_readable [of F "(E, p, b)" fs fs' G] assms(1,3) by auto
  then have "unmarshal (se_bundle E) d = Inr b" using assms(2) by (simp add: json_roundtrip_def)
  then show "(\<exists>rs. LoadSignedBundle E G fs' p k = Inr rs) \<longleftrightarrow> VerifyBundle E b k = None"
    "VerifyBundle E b k = None \<Longrightarrow> LoadSignedBundle E G fs' p k = Inr (sb_Rules b)"
    using d(2) by (auto simp: LoadSignedBundle_def Let_def split: option.split)
qed

text \<open>
  C28: a signed bundle comes back, and only for its key. Rules signed and saved with a key are loaded
  with that key unchanged. Another key loads them exactly when it gives the rules the same HMAC; and a
  bundle that carries the same signature for other rules exists only if their HMACs collide. The time
  and the version are not covered: a bundle with both replaced is accepted like the original.
\<close>

theorem signed_bundle_roundtrip:
  fixes E :: sign_env and stamp k :: string and rules :: "Rule list"
  defines "b \<equiv> SignBundle E stamp rules k"
  assumes "SaveSignedBundle E F p b fs = (None, fs')" and "json_roundtrip (se_bundle E) b" and "f_read G p = None"
  shows "LoadSignedBundle E G fs' p k = Inr rules \<and>
     ((\<exists>rs. LoadSignedBundle E G fs' p k' = Inr rs) \<longleftrightarrow>
        se_hmac E k' (rules_bytes E rules) = se_hmac E k (rules_bytes E rules)) \<and>
     (VerifyBundle E (b\<lparr>sb_Rules := other\<rparr>) k = None \<longleftrightarrow>
        se_hmac E k (rules_bytes E other) = se_hmac E k (rules_bytes E rules)) \<and>
     VerifyBundle E (b\<lparr>sb_SignedAt := t, sb_Version := v\<rparr>) k = None"
proof -
  have b: "sb_Rules b = rules" "sb_Signature b = hmacSHA256Hex E (rules_bytes E rules) k"
    by (simp_all add: b_def SignBundle_def Let_def)
  show ?thesis
    using load_saved_bundle [OF assms(2-4)] by (auto simp: verify_iff b hmacSHA256Hex_def hex_encode_inject)
qed

definition demo_signer :: sign_env where
  "demo_signer = \<lparr>se_hmac = (\<lambda>k d. k @ d), se_rules = \<lparr>marshal = (\<lambda>_. Inr ''R''), unmarshal = (\<lambda>_. Inr [])\<rparr>,
     se_bundle = \<lparr>marshal = (\<lambda>_. Inr ''B''),
       unmarshal = (\<lambda>_. Inr \<lparr>sb_Rules = [], sb_Signature = hex_encode ''kR'', sb_SignedAt = ''t'', sb_Version = 1\<rparr>)\<rparr>\<rparr>"

theorem signed_bundle_roundtrip_witness:
  "let fs' = snd (SaveSignedBundle demo_signer no_faults ''b.json'' (SignBundle demo_signer ''t'' [] ''k'') (\<lambda>_. None)) in
     LoadSignedBundle demo_signer no_faults fs' ''b.json'' ''k'' = Inr [] \<and>
     (\<nexists>rs. LoadSignedBundle demo_signer no_faults fs' ''b.json'' ''other'' = Inr rs)"
proof -
  let ?b = "SignBundle demo_signer ''t'' [] ''k''"
  have save: "SaveSignedBundle demo_signer no_faults ''b.json'' ?b (\<lambda>_. None) =
      (None, snd (SaveSignedBundle demo_signer no_faults ''b.json'' ?b (\<lambda>_. None)))"
    by (simp add: SaveSignedBundle_def demo_signer_def write_rename_no_faults)
  have rt: "json_roundtrip (se_bundle demo_signer) ?b"
    by (simp add: json_roundtrip_def demo_signer_def SignBundle_def rules_bytes_def hmacSHA256Hex_def)
  have "se_hmac demo_signer ''other'' x \<noteq> se_hmac demo_signer ''k'' x" for x by (simp add: demo_signer_def)
  then show ?thesis using signed_bundle_roundtrip [OF save rt, of no_faults "''other''"] by simp
qed

end
