(* ===== verification/Dns_Rpz.thy ===== *)
theory Dns_Rpz
  imports Policy_Engine "HOL-Library.Word"
begin

text \<open>
  The DNS response-policy zone (internal/dns/rpz.go): a zone file with an entry for every domain of a
  deny rule. The clock is a parameter; \<open>GenerateRPZ\<close> and \<open>WriteRPZFile\<close> read it separately.
\<close>

record RPZConfig =
  rz_ZoneName :: string
  rz_SOAContact :: string
  rz_TTL :: int
  rz_Serial :: "32 word"

record RPZResult =
  rr_ZonePath :: string
  rr_DeniedCount :: nat
  rr_Serial :: "32 word"
  rr_GeneratedAt :: string

text \<open>A reading of the clock: Unix seconds and the RFC 3339 text.\<close>

record clock =
  ck_unix :: int
  ck_stamp :: string

section \<open>The entries\<close>

text \<open>
  The loop over the domains of a rule: the names written, in order, and the \<open>seen\<close> map. A pattern
  \<open>*.base\<close> gives \<open>base\<close> and \<open>*.base\<close>.
\<close>

fun domainEntries :: "string list \<Rightarrow> string set \<Rightarrow> string list \<times> string set" where
  "domainEntries [] seen = ([], seen)"
| "domainEntries (d # ds) seen =
    (if d = ''*'' then domainEntries ds seen
     else
      (let base = drop 2 d; wild = HasPrefix d ''*.'';
           (first, seen) = (if wild \<and> base \<notin> seen then ([base], insert base seen) else ([], seen));
           rpzName = (if wild then ''*.'' @ base else d);
           (second, seen) = (if rpzName \<notin> seen then ([rpzName], insert rpzName seen) else ([], seen));
           (rest, seen) = domainEntries ds seen
       in (first @ second @ rest, seen)))"

fun ruleEntries :: "Rule list \<Rightarrow> string set \<Rightarrow> string list" where
  "ruleEntries [] seen = []"
| "ruleEntries (r # rs) seen =
    (if ru_Action r \<noteq> ''deny'' then ruleEntries rs seen
     else (let (names, seen) = domainEntries (ru_Domains r) seen in names @ ruleEntries rs seen))"

definition entry_line :: "string \<Rightarrow> string" where
  "entry_line name = wln (pad_right 40 name @ '' CNAME .'')"

section \<open>The zone file\<close>

definition with_defaults :: "int \<Rightarrow> RPZConfig \<Rightarrow> RPZConfig" where
  "with_defaults unix cfg =
    (let cfg = (if rz_ZoneName cfg = [] then cfg\<lparr>rz_ZoneName := ''rpz.clawgress.local''\<rparr> else cfg);
         cfg = (if rz_SOAContact cfg = [] then cfg\<lparr>rz_SOAContact := ''admin.clawgress.local''\<rparr> else cfg);
         cfg = (if rz_TTL cfg = 0 then cfg\<lparr>rz_TTL := 60\<rparr> else cfg);
         cfg = (if rz_Serial cfg = 0 then cfg\<lparr>rz_Serial := word_of_int unix\<rparr> else cfg)
     in cfg)"

definition zone_header :: "string \<Rightarrow> RPZConfig \<Rightarrow> string" where
  "zone_header stamp cfg =
     wln (''; RPZ zone generated by Clawgress at '' @ stamp) @
     wln (''$TTL '' @ fmt_d (rz_TTL cfg)) @
     wln (''@ IN SOA '' @ rz_ZoneName cfg @ ''. '' @ rz_SOAContact cfg @ ''. ('') @
     wln (''    '' @ dec_nat (unat (rz_Serial cfg)) @ '' ; serial'') @
     wln ''    3600   ; refresh'' @ wln ''    600    ; retry'' @ wln ''    86400  ; expire'' @
     wln (''    '' @ fmt_d (rz_TTL cfg) @ ''     ; minimum TTL'') @
     wln '')'' @
     wln (wln (''@ IN NS '' @ rz_ZoneName cfg @ ''.''))"

definition GenerateRPZ :: "clock \<Rightarrow> Rule list \<Rightarrow> RPZConfig \<Rightarrow> string" where
  "GenerateRPZ ck rules cfg0 =
    (let cfg = with_defaults (ck_unix ck) cfg0 in
     zone_header (ck_stamp ck) cfg @ concat (map entry_line (ruleEntries rules {})))"

fun countDenied :: "string list \<Rightarrow> nat" where
  "countDenied [] = 0"
| "countDenied (line # lines) =
    (if Contains line ''CNAME .'' \<and> \<not> HasPrefix line '';'' then Suc (countDenied lines) else countDenied lines)"

definition WriteRPZFile :: "faults \<Rightarrow> clock \<Rightarrow> clock \<Rightarrow> string \<Rightarrow> Rule list \<Rightarrow> RPZConfig \<Rightarrow> fs \<Rightarrow> (error + RPZResult) \<times> fs" where
  "WriteRPZFile F ck1 ck2 path rules cfg fs =
    (let content = GenerateRPZ ck1 rules cfg; denied = countDenied (SplitByte newline content) in
     case write_rename F ''write RPZ zone: '' ''rename RPZ zone: '' path content fs of
       (Some e, fs) \<Rightarrow> (Inl e, fs)
     | (None, fs) \<Rightarrow>
        (let cfg = (if rz_Serial cfg = 0 then cfg\<lparr>rz_Serial := word_of_int (ck_unix ck2)\<rparr> else cfg) in
         (Inr \<lparr>rr_ZonePath = path, rr_DeniedCount = denied, rr_Serial = rz_Serial cfg,
            rr_GeneratedAt = ck_stamp ck2\<rparr>, fs)))"

definition GenerateNamedConf :: "string \<Rightarrow> string \<Rightarrow> string" where
  "GenerateNamedConf zoneName0 zoneFilePath0 =
    (let zoneName = (if zoneName0 = [] then ''rpz.clawgress.local'' else zoneName0);
         zoneFilePath = (if zoneFilePath0 = [] then ''/etc/bind/db.rpz.clawgress'' else zoneFilePath0) in
     wln (''// Clawgress RPZ zone '' @ emdash @ '' auto-generated, do not edit'') @
     wln (''zone '' @ quoted zoneName @ '' {'') @
     wln ''    type master;'' @
     wln (''    file '' @ quoted zoneFilePath @ '';'') @
     wln ''    allow-query { any; };'' @
     wln ''};'' @ wln [] @
     wln ''options {'' @
     wln ''    response-policy {'' @
     wln (''        zone '' @ quoted zoneName @ '';'') @
     wln ''    };'' @ wln ''};'')"

end
