(* ===== verification/Admin_Api.thy ===== *)
theory Admin_Api
  imports Identity_Registry Quota Audit_Log Policy_Conflict Policy_Signing Dns_Rpz Enforcer_Exec Enforcer_Nft Go_Url
begin

text \<open>
  The admin API (cmd/clawgress-admin-api/main.go): a handler per endpoint as a function from the
  server's state to a response, the effects on other processes and the new state. The routing of the
  HTTP library's mux is written out; a request body is decoded by a parameter, one per type. Handlers
  run to completion one after the other: the state is what the mutexes of the components protect.
\<close>

section \<open>State, requests and responses\<close>

record admin =
  ad_store :: Store
  ad_reg :: Registry
  ad_eng :: Engine
  ad_lim :: Limiter
  ad_fs :: fs

text \<open>The settings read at start-up.\<close>

record admin_conf =
  ac_stateDir :: string
  ac_nftApply :: bool
  ac_defaultOpsMode :: string
  ac_auditFile :: string

record ApiRequest =
  ar_Method :: string
  ar_Path :: string
  ar_RawQuery :: string
  ar_Body :: string

text \<open>The fields of \<open>CommitResponse\<close> that the handler adds to those of the store.\<close>

record CommitReply = CommitResponse +
  cy_NftApply :: string
  cy_NftError :: string
  cy_NftRules :: string
  cy_OpsPlan :: "Operation list option"
  cy_OpsMode :: string
  cy_OpsStatus :: string
  cy_OpsError :: string

definition commit_reply :: "CommitResponse \<Rightarrow> CommitReply" where
  "commit_reply r = CommitResponse.extend r \<lparr>cy_NftApply = [], cy_NftError = [], cy_NftRules = [],
     cy_OpsPlan = None, cy_OpsMode = [], cy_OpsStatus = [], cy_OpsError = []\<rparr>"

datatype payload =
    Obj "(string \<times> string) list"
  | AgentsOut "Agent list" | AgentOut Agent
  | RulesOut "Rule list" | RuleOut Rule
  | LimitsOut "Limit list" | LimitOut Limit
  | EventsOut "Event list"
  | ConfigureOut ConfigureResponse | CommitOut CommitReply | StateOut StateView
  | BundleOut SignedBundle | ConflictsOut "Conflict list" nat
  | RpzOut RPZResult | TextOut string
  | ValidateOut nat nat nat string string
  | MetricsOut | StaticOut | RedirectOut string

record Response =
  re_Status :: nat
  re_Body :: payload

datatype admin_effect = Sighup int | LogLine string | OpRun string "string list" | NftRun "string list" | Rndc

text \<open>The world: codecs, clock, faults and the answers of other programs.\<close>

record admin_env =
  aw_unicode :: unicode
  aw_getenv :: "string \<Rightarrow> string"
  aw_agents :: "Agent list json"
  aw_rules :: "Rule list json"
  aw_limits :: "Limit list json"
  aw_events :: "Event json"
  aw_time :: time_parse
  aw_op :: op_env
  aw_sign :: sign_env
  aw_resolver :: resolver
  aw_faults :: faults
  aw_exec :: exec_env
  aw_nft :: nft_run
  aw_now :: int
  aw_stamp :: string
  aw_clock1 :: clock
  aw_clock2 :: clock
  aw_rndc :: "error option \<times> string"
  aw_pidof :: "error option \<times> string"
  aw_kill :: "int \<Rightarrow> error option"
  aw_inConfigure :: "string \<Rightarrow> error + ConfigureRequest"
  aw_inCommit :: "string \<Rightarrow> error + CommitRequest"
  aw_inAgent :: "string \<Rightarrow> error + Agent"
  aw_inRule :: "string \<Rightarrow> error + Rule"
  aw_inLimit :: "string \<Rightarrow> error + Limit"
  aw_inBundle :: "string \<Rightarrow> error + SignedBundle"

type_synonym api_handler = "admin_env \<Rightarrow> admin_conf \<Rightarrow> ApiRequest \<Rightarrow> admin \<Rightarrow> Response \<times> admin_effect list \<times> admin"

definition writeJSON :: "nat \<Rightarrow> payload \<Rightarrow> Response" where
  "writeJSON status payload = \<lparr>re_Status = status, re_Body = payload\<rparr>"

definition fail :: "nat \<Rightarrow> string \<Rightarrow> Response" where
  "fail status msg = writeJSON status (Obj [(''error'', msg)])"

definition env_or :: "admin_env \<Rightarrow> string \<Rightarrow> string \<Rightarrow> string" where
  "env_or E key fallback = (let v = aw_getenv E key in if v \<noteq> [] then v else fallback)"

definition env_bool :: "admin_env \<Rightarrow> string \<Rightarrow> bool \<Rightarrow> bool" where
  "env_bool E key fallback =
    (let v = aw_getenv E key in
     if v = [] then fallback
     else if v \<in> {''1'', ''t'', ''T'', ''TRUE'', ''true'', ''True''} then True
     else if v \<in> {''0'', ''f'', ''F'', ''FALSE'', ''false'', ''False''} then False
     else fallback)"

section \<open>Signalling the gateway\<close>

fun signalLoop :: "admin_env \<Rightarrow> string list \<Rightarrow> admin_effect list" where
  "signalLoop E [] = []"
| "signalLoop E (s # ss) = (case Atoi s of
     None \<Rightarrow> signalLoop E ss
   | Some pid \<Rightarrow>
      (case aw_kill E pid of
         Some e \<Rightarrow> [LogLine (''signalGateway: SIGHUP pid '' @ fmt_d pid @ '': '' @ e)]
       | None \<Rightarrow> [Sighup pid, LogLine (''signalGateway: sent SIGHUP to gateway pid '' @ fmt_d pid)]) @ signalLoop E ss)"

definition signalGateway :: "admin_env \<Rightarrow> admin_effect list" where
  "signalGateway E = (case aw_pidof E of
     (Some e, _) \<Rightarrow> [LogLine (''signalGateway: gateway not running (pidof: '' @ e @ '')'')]
   | (None, out) \<Rightarrow>
      (let pidStr = TrimSpace out in if pidStr = [] then [] else signalLoop E (Fields pidStr)))"

section \<open>Operation mode\<close>

definition store_error_text :: "store_error \<Rightarrow> string" where
  "store_error_text e = (case e of ErrNoStagedRevision \<Rightarrow> ''no staged revision''
     | ErrRevisionMismatch \<Rightarrow> ''expected revision does not match staged revision'' | StoreError m \<Rightarrow> m)"

definition handleConfigure :: api_handler where
  "handleConfigure E C r s =
    (if ar_Method r \<noteq> ''POST'' then (fail 405 ''method not allowed'', [], s)
     else (case aw_inConfigure E (ar_Body r) of
       Inl _ \<Rightarrow> (fail 400 ''invalid JSON body'', [], s)
     | Inr req \<Rightarrow>
        (let req = (if cr_Actor req = [] then req\<lparr>cr_Actor := ''unknown''\<rparr> else req) in
         case Configure (aw_op E) (aw_faults E) (ad_store s) req (ad_fs s) of
           (Inl e, fs) \<Rightarrow> (fail 500 (store_error_text e), [], s\<lparr>ad_fs := fs\<rparr>)
         | (Inr resp, fs) \<Rightarrow> (writeJSON 200 (ConfigureOut resp), [], s\<lparr>ad_fs := fs\<rparr>))))"

text \<open>After the commit: the operations of the active revision, then the rule file.\<close>

definition runOps :: "admin_env \<Rightarrow> admin_conf \<Rightarrow> CommitRequest \<Rightarrow> Revision option \<Rightarrow> CommitReply \<Rightarrow> admin \<Rightarrow>
    error option \<times> CommitReply \<times> admin_effect list \<times> admin" where
  "runOps E C req active resp s = (case active of
     None \<Rightarrow> (None, resp, [], s)
   | Some rv \<Rightarrow>
      (let ops = BuildOpsPlan (rv_Changes rv);
           resp = resp\<lparr>cy_OpsPlan := Some ops\<rparr>;
           mode = (if cq_OpsMode req = [] then ac_defaultOpsMode C else cq_OpsMode req);
           m = NormalizeOpsMode (aw_unicode E) mode;
           resp = resp\<lparr>cy_OpsMode := if m = [] then ''dry-run'' else m\<rparr>;
           (err, result, x) = ExecuteOpsPlan (aw_unicode E) (aw_exec E) ops (cy_OpsMode resp)
             \<lparr>xs_fs = ad_fs s, xs_commands = []\<rparr>;
           runs = map (\<lambda>(name, args). OpRun name args) (xs_commands x);
           s = s\<lparr>ad_fs := xs_fs x\<rparr> in
       case err of
         Some e \<Rightarrow> (Some e, resp\<lparr>cy_OpsStatus := ''error'', cy_OpsError := e\<rparr>, runs, s)
       | None \<Rightarrow> (None, resp\<lparr>cy_OpsStatus := ox_Mode result\<rparr>, runs, s)))"

definition runNft :: "admin_env \<Rightarrow> admin_conf \<Rightarrow> Revision option \<Rightarrow> CommitReply \<Rightarrow> admin \<Rightarrow>
    Response \<times> admin_effect list \<times> admin" where
  "runNft E C active resp s =
    (if ac_nftApply C then
      (case active of
        None \<Rightarrow> (writeJSON 500 (CommitOut (resp\<lparr>cy_NftApply := ''error'',
            cy_NftError := ''active revision missing after commit''\<rparr>)), [], s)
      | Some rv \<Rightarrow>
         (case ApplyNftables (aw_unicode E) (aw_faults E) (aw_nft E) (ac_stateDir C) rv True (ad_fs s) of
            (_, Some e, runs, fs) \<Rightarrow> (writeJSON 500 (CommitOut (resp\<lparr>cy_NftApply := ''error'', cy_NftError := e\<rparr>)),
               map NftRun runs, s\<lparr>ad_fs := fs\<rparr>)
          | (result, None, runs, fs) \<Rightarrow> (writeJSON 200 (CommitOut (resp\<lparr>cy_NftApply := ''applied'',
               cy_NftRules := ap_RulesPath result\<rparr>)), map NftRun runs, s\<lparr>ad_fs := fs\<rparr>)))
     else (writeJSON 200 (CommitOut (resp\<lparr>cy_NftApply := ''disabled''\<rparr>)), [], s))"

definition afterCommit :: "admin_env \<Rightarrow> admin_conf \<Rightarrow> CommitRequest \<Rightarrow> CommitReply \<Rightarrow> admin \<Rightarrow>
    Response \<times> admin_effect list \<times> admin" where
  "afterCommit E C req resp s =
    (case State (aw_op E) (aw_faults E) (ad_store s) (ad_fs s) of
       Inl e \<Rightarrow> (writeJSON 500 (CommitOut (resp\<lparr>cy_NftApply := ''error'', cy_NftError := store_error_text e\<rparr>)), [], s)
     | Inr state \<Rightarrow>
        (case runOps E C req (sv_Active state) resp s of
           (Some _, resp, runs, s) \<Rightarrow> (writeJSON 500 (CommitOut resp), runs, s)
         | (None, resp, runs, s) \<Rightarrow>
             (let (out, effs, s) = runNft E C (sv_Active state) resp s in (out, runs @ effs, s))))"

definition handleCommit :: api_handler where
  "handleCommit E C r s =
    (if ar_Method r \<noteq> ''POST'' then (fail 405 ''method not allowed'', [], s)
     else (case aw_inCommit E (ar_Body r) of
       Inl _ \<Rightarrow> (fail 400 ''invalid JSON body'', [], s)
     | Inr req \<Rightarrow>
        (let req = (if cq_Actor req = [] then req\<lparr>cq_Actor := ''unknown''\<rparr> else req) in
         case Commit (aw_op E) (aw_faults E) (ad_store s) req (ad_fs s) of
           (Inl e, fs) \<Rightarrow> (fail (case e of ErrNoStagedRevision \<Rightarrow> 409 | ErrRevisionMismatch \<Rightarrow> 412 | StoreError _ \<Rightarrow> 500)
               (store_error_text e), [], s\<lparr>ad_fs := fs\<rparr>)
         | (Inr resp, fs) \<Rightarrow>
            afterCommit E C req (commit_reply resp) (s\<lparr>ad_fs := fs\<rparr>))))"

definition handleState :: api_handler where
  "handleState E C r s =
    (if ar_Method r \<noteq> ''GET'' then (fail 405 ''method not allowed'', [], s)
     else (case State (aw_op E) (aw_faults E) (ad_store s) (ad_fs s) of
       Inl e \<Rightarrow> (fail 500 (store_error_text e), [], s)
     | Inr state \<Rightarrow> (writeJSON 200 (StateOut state), [], s)))"

section \<open>Agents, policies and quotas\<close>

text \<open>What follows a change in memory: save the table, signal the gateway, answer.\<close>

definition persist :: "admin_env \<Rightarrow> error option \<times> fs \<Rightarrow> Response \<Rightarrow> admin \<Rightarrow> Response \<times> admin_effect list \<times> admin" where
  "persist E w ok s = (case w of
     (Some e, fs) \<Rightarrow> (fail 500 e, [], s\<lparr>ad_fs := fs\<rparr>)
   | (None, fs) \<Rightarrow> (ok, signalGateway E, s\<lparr>ad_fs := fs\<rparr>))"

definition saveAgents :: "admin_env \<Rightarrow> Response \<Rightarrow> admin \<Rightarrow> Response \<times> admin_effect list \<times> admin" where
  "saveAgents E ok s = persist E (RegistrySave (aw_agents E) (aw_faults E) (ad_reg s) (ad_fs s)) ok s"

definition saveRules :: "admin_env \<Rightarrow> Response \<Rightarrow> admin \<Rightarrow> Response \<times> admin_effect list \<times> admin" where
  "saveRules E ok s = persist E (EngineSave (aw_rules E) (aw_faults E) (ad_eng s) (ad_fs s)) ok s"

definition saveLimits :: "admin_env \<Rightarrow> Response \<Rightarrow> admin \<Rightarrow> Response \<times> admin_effect list \<times> admin" where
  "saveLimits E ok s = persist E (LimiterSave (aw_limits E) (aw_faults E) (ad_lim s) (ad_fs s)) ok s"

definition handleAgents :: api_handler where
  "handleAgents E C r s =
    (if ar_Method r = ''GET'' then (writeJSON 200 (AgentsOut (RegistryAll (ad_reg s))), [], s)
     else if ar_Method r = ''POST'' then
       (case aw_inAgent E (ar_Body r) of
         Inl _ \<Rightarrow> (fail 400 ''invalid JSON body'', [], s)
       | Inr a \<Rightarrow>
          if ag_AgentID a = [] \<or> ag_APIKey a = [] then (fail 400 ''agent_id and api_key are required'', [], s)
          else (let a = (if ag_Status a = [] then a\<lparr>ag_Status := ''active''\<rparr> else a) in
            saveAgents E (writeJSON 201 (AgentOut a)) (s\<lparr>ad_reg := RegistryAdd a (ad_reg s)\<rparr>)))
     else (fail 405 ''method not allowed'', [], s))"

definition handleAgent :: api_handler where
  "handleAgent E C r s =
    (let i = TrimPrefix (ar_Path r) ''/v1/agents/'' in
     if i = [] then (fail 400 ''agent_id required in path'', [], s)
     else if ar_Method r = ''GET'' then
       (case RegistryLookupByID (ad_reg s) i of
         None \<Rightarrow> (fail 404 ''agent not found'', [], s)
       | Some a \<Rightarrow> (writeJSON 200 (AgentOut a), [], s))
     else if ar_Method r = ''DELETE'' then
       (case RegistryRemove i (ad_reg s) of
         (False, _) \<Rightarrow> (fail 404 ''agent not found'', [], s)
       | (True, reg) \<Rightarrow> saveAgents E (writeJSON 200 (Obj [(''deleted'', i)])) (s\<lparr>ad_reg := reg\<rparr>))
     else (fail 405 ''method not allowed'', [], s))"

definition handlePolicies :: api_handler where
  "handlePolicies E C r s =
    (if ar_Method r = ''GET'' then (writeJSON 200 (RulesOut (Rules (ad_eng s))), [], s)
     else if ar_Method r = ''POST'' then
       (case aw_inRule E (ar_Body r) of
         Inl _ \<Rightarrow> (fail 400 ''invalid JSON body'', [], s)
       | Inr rule \<Rightarrow>
          if ru_PolicyID rule = [] \<or> ru_Action rule = [] then (fail 400 ''policy_id and action are required'', [], s)
          else if ru_Action rule \<noteq> ''allow'' \<and> ru_Action rule \<noteq> ''deny'' then
            (fail 400 (''action must be '' @ [CHR 39] @ ''allow'' @ [CHR 39] @ '' or '' @ [CHR 39] @ ''deny'' @ [CHR 39]), [], s)
          else (let rule = (if ru_AgentID rule = [] then rule\<lparr>ru_AgentID := ''*''\<rparr> else rule) in
            saveRules E (writeJSON 201 (RuleOut rule)) (s\<lparr>ad_eng := EngineAdd rule (ad_eng s)\<rparr>)))
     else (fail 405 ''method not allowed'', [], s))"

definition handlePolicy :: api_handler where
  "handlePolicy E C r s =
    (let i = TrimPrefix (ar_Path r) ''/v1/policies/'' in
     if i = [] then (fail 400 ''policy_id required in path'', [], s)
     else if ar_Method r = ''GET'' then
       (case EngineLookupByID (ad_eng s) i of
         None \<Rightarrow> (fail 404 ''policy not found'', [], s)
       | Some rule \<Rightarrow> (writeJSON 200 (RuleOut rule), [], s))
     else if ar_Method r = ''DELETE'' then
       (case EngineRemove i (ad_eng s) of
         (False, _) \<Rightarrow> (fail 404 ''policy not found'', [], s)
       | (True, eng) \<Rightarrow> saveRules E (writeJSON 200 (Obj [(''deleted'', i)])) (s\<lparr>ad_eng := eng\<rparr>))
     else (fail 405 ''method not allowed'', [], s))"

definition handleQuotas :: api_handler where
  "handleQuotas E C r s =
    (if ar_Method r = ''GET'' then (writeJSON 200 (LimitsOut (LimiterAll (ad_lim s))), [], s)
     else if ar_Method r = ''POST'' then
       (case aw_inLimit E (ar_Body r) of
         Inl _ \<Rightarrow> (fail 400 ''invalid JSON body'', [], s)
       | Inr lm \<Rightarrow>
          if li_AgentID lm = [] then (fail 400 ''agent_id is required'', [], s)
          else if li_RPS lm \<le> 0 \<and> li_RPM lm \<le> 0 then
            (fail 400 ''at least one of rps or rpm must be > 0'', [], s)
          else if li_Mode lm \<noteq> [] \<and> li_Mode lm \<noteq> ''hard_stop'' \<and> li_Mode lm \<noteq> ''alert_only'' then
            (fail 400 (''mode must be '' @ [CHR 39] @ ''hard_stop'' @ [CHR 39] @ '' or '' @ [CHR 39] @ ''alert_only'' @ [CHR 39]), [], s)
          else saveLimits E (writeJSON 201 (LimitOut lm)) (s\<lparr>ad_lim := LimiterSet (aw_now E) lm (ad_lim s)\<rparr>))
     else (fail 405 ''method not allowed'', [], s))"

definition handleQuota :: api_handler where
  "handleQuota E C r s =
    (let i = TrimPrefix (ar_Path r) ''/v1/quotas/'' in
     if i = [] then (fail 400 ''agent_id required in path'', [], s)
     else if ar_Method r = ''GET'' then
       (case LimiterLookupByID (ad_lim s) i of
         None \<Rightarrow> (fail 404 ''quota not found'', [], s)
       | Some lm \<Rightarrow> (writeJSON 200 (LimitOut lm), [], s))
     else if ar_Method r = ''DELETE'' then
       (case LimiterRemove i (ad_lim s) of
         (False, _) \<Rightarrow> (fail 404 ''quota not found'', [], s)
       | (True, limr) \<Rightarrow> saveLimits E (writeJSON 200 (Obj [(''deleted'', i)])) (s\<lparr>ad_lim := limr\<rparr>))
     else (fail 405 ''method not allowed'', [], s))"

section \<open>Audit query\<close>

definition audit_filter :: "string \<Rightarrow> Filter" where
  "audit_filter q =
    \<lparr>ft_AgentID = QueryGet q ''agent_id'', ft_Decision = QueryGet q ''decision'', ft_Since = QueryGet q ''since'',
     ft_Limit = (let v = QueryGet q ''limit'' in
       if v \<noteq> [] then (case Atoi v of Some n \<Rightarrow> if n > 0 then n else 100 | None \<Rightarrow> 100) else 100)\<rparr>"

definition handleAudit :: api_handler where
  "handleAudit E C r s =
    (if ar_Method r \<noteq> ''GET'' then (fail 405 ''method not allowed'', [], s)
     else (case Query (aw_events E) (aw_time E) (aw_faults E) (ad_fs s) (ac_auditFile C) (audit_filter (ar_RawQuery r)) of
       (_, Some e) \<Rightarrow> (fail 500 e, [], s)
     | (events, None) \<Rightarrow> (writeJSON 200 (EventsOut events), [], s)))"

section \<open>Diagnostic endpoints\<close>

definition sign_secret :: "admin_env \<Rightarrow> string" where
  "sign_secret E = (let secret = aw_getenv E ''CLAWGRESS_POLICY_SIGN_SECRET'' in
     if secret = [] then ''clawgress-default-sign-key'' else secret)"

definition handleSign :: api_handler where
  "handleSign E C r s =
    (if ar_Method r \<noteq> ''POST'' then (fail 405 ''method not allowed'', [], s)
     else (writeJSON 200 (BundleOut (SignBundle (aw_sign E) (aw_stamp E) (Rules (ad_eng s)) (sign_secret E))), [], s))"

definition handleVerify :: api_handler where
  "handleVerify E C r s =
    (if ar_Method r \<noteq> ''POST'' then (fail 405 ''method not allowed'', [], s)
     else (case aw_inBundle E (ar_Body r) of
       Inl _ \<Rightarrow> (fail 400 ''invalid JSON'', [], s)
     | Inr bundle \<Rightarrow>
        (case VerifyBundle (aw_sign E) bundle (sign_secret E) of
          Some e \<Rightarrow> (writeJSON 400 (Obj [(''error'', e), (''valid'', ''false'')]), [], s)
        | None \<Rightarrow> (writeJSON 200 (Obj [(''valid'', ''true'')]), [], s))))"

definition handleConflicts :: api_handler where
  "handleConflicts E C r s =
    (if ar_Method r \<noteq> ''GET'' then (fail 405 ''method not allowed'', [], s)
     else (let conflicts = DetectConflicts (aw_unicode E) (Rules (ad_eng s)) in
       (writeJSON 200 (ConflictsOut conflicts (length conflicts)), [], s)))"

definition handleNftRender :: api_handler where
  "handleNftRender E C r s =
    (if ar_Method r \<noteq> ''GET'' then (fail 405 ''method not allowed'', [], s)
     else (writeJSON 200 (TextOut (RenderPolicyNft (aw_resolver E) (Rules (ad_eng s)) ''clawgress'' ''egress_policy'')), [], s))"

definition handleNftTransparent :: api_handler where
  "handleNftTransparent E C r s =
    (if ar_Method r \<noteq> ''GET'' then (fail 405 ''method not allowed'', [], s)
     else (writeJSON 200 (TextOut (RenderTransparentNft
       \<lparr>tc_ProxyPort = 3128, tc_InboundIf = QueryGet (ar_RawQuery r) ''iface'',
        tc_SubnetCIDR = QueryGet (ar_RawQuery r) ''subnet'', tc_TableName = []\<rparr>)), [], s))"

definition rpz_path :: "admin_env \<Rightarrow> string" where
  "rpz_path E = env_or E ''CLAWGRESS_RPZ_ZONE_PATH'' ''/etc/bind/db.rpz.clawgress''"

definition rpz_config :: "admin_env \<Rightarrow> RPZConfig" where
  "rpz_config E = \<lparr>rz_ZoneName = env_or E ''CLAWGRESS_RPZ_ZONE_NAME'' ''rpz.clawgress.local'',
     rz_SOAContact = [], rz_TTL = 0, rz_Serial = 0\<rparr>"

definition handleRpzGenerate :: api_handler where
  "handleRpzGenerate E C r s =
    (if ar_Method r \<noteq> ''POST'' then (fail 405 ''method not allowed'', [], s)
     else (case WriteRPZFile (aw_faults E) (aw_clock1 E) (aw_clock2 E) (rpz_path E) (Rules (ad_eng s)) (rpz_config E) (ad_fs s) of
       (Inl e, fs) \<Rightarrow> (fail 500 e, [], s\<lparr>ad_fs := fs\<rparr>)
     | (Inr result, fs) \<Rightarrow>
        (let result = (case aw_rndc E of
              (Some _, out) \<Rightarrow> result\<lparr>rr_GeneratedAt := rr_GeneratedAt result @ '' (rndc reload failed: '' @ TrimSpace out @ '')''\<rparr>
            | (None, _) \<Rightarrow> result) in
         (writeJSON 200 (RpzOut result), [Rndc], s\<lparr>ad_fs := fs\<rparr>))))"

definition handleRpzPreview :: api_handler where
  "handleRpzPreview E C r s =
    (if ar_Method r \<noteq> ''GET'' then (fail 405 ''method not allowed'', [], s)
     else (writeJSON 200 (TextOut (GenerateRPZ (aw_clock1 E) (Rules (ad_eng s)) (rpz_config E))), [], s))"

definition handleNamedConf :: api_handler where
  "handleNamedConf E C r s =
    (if ar_Method r \<noteq> ''GET'' then (fail 405 ''method not allowed'', [], s)
     else (writeJSON 200 (TextOut (GenerateNamedConf (rz_ZoneName (rpz_config E)) (rpz_path E))), [], s))"

definition handleValidate :: api_handler where
  "handleValidate E C r s =
    (if ar_Method r \<noteq> ''GET'' then (fail 405 ''method not allowed'', [], s)
     else (writeJSON 200 (ValidateOut (length (RegistryAll (ad_reg s))) (length (Rules (ad_eng s)))
       (length (LimiterAll (ad_lim s))) (ac_stateDir C) (ac_auditFile C)), [], s))"

definition handleHealthz :: api_handler where
  "handleHealthz E C r s = (writeJSON 200 (Obj [(''status'', ''ok'')]), [], s)"

section \<open>Routing\<close>

text \<open>
  The mux: exact patterns, then subtree patterns. The paths here need no escaping, so that the escaped
  path the library compares is the path itself. A path that is not clean is redirected, except for
  \<open>CONNECT\<close>.
\<close>

definition routes :: "(string \<times> api_handler) list" where
  "routes =
    [(''/healthz'', handleHealthz),
     (''/metrics'', \<lambda>E C r s. (writeJSON 200 MetricsOut, [], s)),
     (''/v1/opmode/configure'', handleConfigure),
     (''/v1/opmode/commit'', handleCommit),
     (''/v1/opmode/state'', handleState),
     (''/v1/agents'', handleAgents),
     (''/v1/policies'', handlePolicies),
     (''/v1/quotas'', handleQuotas),
     (''/v1/audit'', handleAudit),
     (''/v1/policy/sign'', handleSign),
     (''/v1/policy/verify'', handleVerify),
     (''/v1/policy/conflicts'', handleConflicts),
     (''/v1/nft/render'', handleNftRender),
     (''/v1/nft/transparent'', handleNftTransparent),
     (''/v1/rpz/generate'', handleRpzGenerate),
     (''/v1/rpz/preview'', handleRpzPreview),
     (''/v1/rpz/named-conf'', handleNamedConf),
     (''/v1/config/validate'', handleValidate),
     (''/ui'', \<lambda>E C r s. (writeJSON 301 (RedirectOut ''/ui/''), [], s))]"

definition subtrees :: "(string \<times> api_handler) list" where
  "subtrees =
    [(''/v1/agents/'', handleAgent),
     (''/v1/policies/'', handlePolicy),
     (''/v1/quotas/'', handleQuota),
     (''/ui/'', \<lambda>E C r s. (writeJSON 200 StaticOut, [], s))]"

definition dispatch :: "string \<Rightarrow> api_handler" where
  "dispatch path E C r s = (case map_of routes path of
       Some h \<Rightarrow> h E C r s
     | None \<Rightarrow> (case find (\<lambda>(p, h). HasPrefix path p) subtrees of
         Some (_, h) \<Rightarrow> h E C r s
       | None \<Rightarrow> (writeJSON 404 (TextOut ''404 page not found''), [], s)))"

definition serve_admin :: api_handler where
  "serve_admin E C r s =
    (let path = (if ar_Method r = ''CONNECT'' then ar_Path r else cleanPath (ar_Path r)) in
     if path \<noteq> ar_Path r then (writeJSON 301 (RedirectOut path), [], s)
     else dispatch path E C r s)"

text \<open>Requests one after the other, each with the world it meets.\<close>

fun serve_all :: "admin_conf \<Rightarrow> (admin_env \<times> ApiRequest) list \<Rightarrow> admin \<Rightarrow> admin" where
  "serve_all C [] s = s"
| "serve_all C ((E, r) # rs) s = serve_all C rs (snd (snd (serve_admin E C r s)))"

section \<open>Start-up\<close>

definition startAdmin :: "admin_env \<Rightarrow> fs \<Rightarrow> error + admin_conf \<times> admin" where
  "startAdmin E fs =
    (let C = \<lparr>ac_stateDir = env_or E ''CLAWGRESS_STATE_DIR'' ''state'',
              ac_nftApply = env_bool E ''CLAWGRESS_NFT_APPLY'' True,
              ac_defaultOpsMode = env_or E ''CLAWGRESS_OPS_MODE'' ''dry-run'',
              ac_auditFile = env_or E ''CLAWGRESS_AUDIT_FILE'' ''/var/log/clawgress/audit.jsonl''\<rparr>;
         agentsFile = env_or E ''CLAWGRESS_AGENTS_FILE'' ''/etc/clawgress/agents.json'';
         policyFile = env_or E ''CLAWGRESS_POLICY_FILE'' ''/etc/clawgress/policy.json'';
         quotaFile = env_or E ''CLAWGRESS_QUOTA_FILE'' ''/etc/clawgress/quotas.json'';
         rd = ReadFile (aw_faults E) fs in
     case NewStore (aw_faults E) (ac_stateDir C) of
       Inl e \<Rightarrow> Inl (''initialize store: '' @ e)
     | Inr store \<Rightarrow>
     case NewRegistry (aw_agents E) (rd agentsFile) agentsFile of
       Inl e \<Rightarrow> Inl (''load identity registry: '' @ e)
     | Inr reg \<Rightarrow>
     case NewEngine (aw_rules E) (rd policyFile) policyFile of
       Inl e \<Rightarrow> Inl (''load policy engine: '' @ e)
     | Inr eng \<Rightarrow>
     case NewLimiter (aw_limits E) (rd quotaFile) (aw_now E) quotaFile of
       Inl e \<Rightarrow> Inl (''load quota limiter: '' @ e)
     | Inr limr \<Rightarrow> Inr (C, \<lparr>ad_store = store, ad_reg = reg, ad_eng = eng, ad_lim = limr, ad_fs = fs\<rparr>))"

end
