(* ===== verification/Ctl_Shell_Props.thy ===== *)
theory Ctl_Shell_Props
  imports Ctl_Shell Ctl_Props Admin_Api Gateway_Props
begin

text \<open>
  The command line tool with what it talks to: the candidate file it writes and reads back, the query
  that \<open>show audit\<close> sends to the admin API, the token that the gateway accepts, and the installer.
\<close>

section \<open>show audit and the API\<close>

text \<open>The query, as the parameters it is made of.\<close>

definition audit_params :: "string \<Rightarrow> string \<Rightarrow> string \<Rightarrow> int \<Rightarrow> string list" where
  "audit_params agentID decision since limit =
    [''limit'' @ ''='' @ fmt_d limit] @
    (if agentID \<noteq> [] then [''agent_id'' @ ''='' @ agentID] else []) @
    (if decision \<noteq> [] then [''decision'' @ ''='' @ decision] else []) @
    (if since \<noteq> [] then [''since'' @ ''='' @ since] else [])"

lemma audit_url_params:
  "audit_url api a d si n = api @ ''/v1/audit'' @ ''?'' @ Join (audit_params a d si n) ''&''"
  by (simp add: audit_url_def audit_params_def)

lemma fmt_d_safe: "query_safe (fmt_d n)"
proof -
  have "c \<in> set (fmt_d n) \<Longrightarrow> c = CHR ''-'' \<or> 48 \<le> byte c \<and> byte c \<le> 57" for c
    using set_dec_nat by (auto simp: fmt_d_def split: if_splits)
  then show ?thesis by (fastforce simp: query_safe_iff)
qed

lemma Atoi_fmt_d:
  assumes "0 < n" and "n < 2 ^ 63"
  shows "Atoi (fmt_d n) = Some n"
proof -
  have f: "fmt_d n = dec_nat (nat n)" using assms(1) by (simp add: fmt_d_def)
  obtain c s where cs: "dec_nat (nat n) = c # s" by (meson dec_nat_ne neq_Nil_conv)
  then have "48 \<le> byte c" using set_dec_nat [of c "nat n"] by simp
  then have "c \<noteq> CHR ''-''" "c \<noteq> CHR ''+''" by auto
  then show ?thesis using assms undec_dec_nat [of "nat n"] by (simp add: Atoi_def f cs HasPrefix_iff Let_def)
qed

text \<open>What becomes of a value on the way: \<open>+\<close> arrives as a blank.\<close>

definition plus_to_blank :: "string \<Rightarrow> string" where
  "plus_to_blank s = map (\<lambda>c. if c = CHR ''+'' then CHR '' '' else c) s"

lemma plus_to_blank_safe: "query_safe s \<Longrightarrow> plus_to_blank s = s"
  by (auto simp: plus_to_blank_def query_safe_iff intro: map_idI)

lemma param_pair:
  assumes "query_safe k" and "CHR ''='' \<notin> set k" and "query_safe (filter (\<lambda>c. c \<noteq> CHR ''+'') v)"
  shows "query_pair (k @ ''='' @ v) = Some (k, plus_to_blank v)"
  using assms(3) query_pair_decodes [OF assms(1,2), of v] QueryUnescape_no_pct [of v]
  by (simp add: query_safe_iff plus_to_blank_def)

lemma filter_safe: "query_safe v \<Longrightarrow> query_safe (filter P v)"
  by (simp add: query_safe_iff)

lemma audit_query_pairs:
  assumes "query_safe a" and "query_safe d" and "query_safe (filter (\<lambda>c. c \<noteq> CHR ''+'') si)"
  shows "ParseQuery (Join (audit_params a d si n) ''&'') =
     [(''limit'', fmt_d n)] @ (if a \<noteq> [] then [(''agent_id'', a)] else []) @ (if d \<noteq> [] then [(''decision'', d)] else []) @
     (if si \<noteq> [] then [(''since'', plus_to_blank si)] else [])"
proof -
  have "CHR ''&'' \<notin> set a" "CHR ''&'' \<notin> set d" "CHR ''&'' \<notin> set si" "CHR ''&'' \<notin> set (fmt_d n)"
    using assms fmt_d_safe [of n] by (simp_all add: query_safe_iff)
  then have amp: "\<forall>p \<in> set (audit_params a d si n). CHR ''&'' \<notin> set p" by (auto simp: audit_params_def)
  have split: "SplitByte CHR ''&'' (Join (audit_params a d si n) ''&'') = audit_params a d si n"
    using amp by (intro SplitByte_Join) (simp_all add: audit_params_def)
  have keys: "query_safe ''limit''" "query_safe ''agent_id''" "query_safe ''decision''" "query_safe ''since''"
    by (simp_all add: query_safe_def)
  have "query_pair (''limit'' @ ''='' @ fmt_d n) = Some (''limit'', fmt_d n)"
    using param_pair [OF keys(1) _ filter_safe [OF fmt_d_safe]] plus_to_blank_safe [OF fmt_d_safe] by simp
  moreover have "query_pair (''agent_id'' @ ''='' @ a) = Some (''agent_id'', a)"
    using param_pair [OF keys(2) _ filter_safe [OF assms(1)]] plus_to_blank_safe [OF assms(1)] by simp
  moreover have "query_pair (''decision'' @ ''='' @ d) = Some (''decision'', d)"
    using param_pair [OF keys(3) _ filter_safe [OF assms(2)]] plus_to_blank_safe [OF assms(2)] by simp
  moreover have "query_pair (''since'' @ ''='' @ si) = Some (''since'', plus_to_blank si)"
    using param_pair [OF keys(4) _ assms(3)] by simp
  ultimately show ?thesis
    unfolding ParseQuery_def split unfolding audit_params_def by (simp add: List.map_filter_simps)
qed

lemma audit_url_query:
  assumes "CHR ''?'' \<notin> set api" and "CHR ''#'' \<notin> set api" and "query_safe a" and "query_safe d"
    and "query_safe (filter (\<lambda>c. c \<noteq> CHR ''+'') si)"
  shows "url_query (audit_url api a d si n) = Join (audit_params a d si n) ''&''"
proof -
  have h: "CHR ''#'' \<notin> set a" "CHR ''#'' \<notin> set d" "CHR ''#'' \<notin> set si" "CHR ''#'' \<notin> set (fmt_d n)"
    using assms fmt_d_safe [of n] by (simp_all add: query_safe_iff)
  then have "CHR ''#'' \<notin> set (audit_url api a d si n)" using assms(2) by (simp add: audit_url_def)
  then have sent: "url_sent (audit_url api a d si n) = audit_url api a d si n"
    unfolding url_sent_def by (simp add: iffD2 [OF CutByte_None])
  have "CutByte CHR ''?'' (audit_url api a d si n) = Some (api @ ''/v1/audit'', Join (audit_params a d si n) ''&'')"
    unfolding audit_url_params CutByte_Some using assms(1) by simp
  then show ?thesis unfolding url_query_def sent by simp
qed

text \<open>
  C33: the filter that \<open>show audit\<close> is given reaches the audit query, except for a time with a positive
  offset. For values that need no escaping and a limit in range, the API decodes from the address
  exactly the agent, decision, limit and time of the flags, but the \<open>+\<close> of an offset arrives as a
  blank: the parser refuses the text, the query takes no time at all for it, and events of every age
  are returned as if no time had been given.
\<close>

theorem show_audit_reaches_filter:
  assumes "CHR ''?'' \<notin> set api" and "CHR ''#'' \<notin> set api" and "query_safe a" and "query_safe d"
    and "query_safe (filter (\<lambda>c. c \<noteq> CHR ''+'') si)" and "0 < n" and "n < 2 ^ 63"
  defines "f \<equiv> audit_filter (url_query (audit_url api a d si n))"
  shows "f = \<lparr>ft_AgentID = a, ft_Decision = d, ft_Since = plus_to_blank si, ft_Limit = n\<rparr> \<and>
    (CHR ''+'' \<notin> set si \<longrightarrow> ft_Since f = si) \<and>
    (CHR ''+'' \<in> set si \<and> (\<forall>x. CHR '' '' \<in> set x \<longrightarrow> tp_RFC3339 T x = None) \<longrightarrow> since_time T f = zero_time)"
proof -
  note q = audit_url_query [OF assms(1-5)] audit_query_pairs [OF assms(3-5)]
  have ne: "fmt_d n \<noteq> []" by (simp add: fmt_d_def)
  have f: "f = \<lparr>ft_AgentID = a, ft_Decision = d, ft_Since = plus_to_blank si, ft_Limit = n\<rparr>"
    using ne assms(6) Atoi_fmt_d [OF assms(6,7)]
    by (simp add: f_def audit_filter_def QueryGet_def q Let_def) (simp add: plus_to_blank_def)
  moreover have "CHR ''+'' \<notin> set si \<Longrightarrow> plus_to_blank si = si"
    by (auto simp: plus_to_blank_def intro: map_idI)
  moreover have "CHR '' '' \<in> set (plus_to_blank si)" if "CHR ''+'' \<in> set si"
    using that by (force simp: plus_to_blank_def image_iff)
  ultimately show ?thesis by (auto simp: since_time_def)
qed

theorem show_audit_reaches_filter_witness:
  "since_time \<lparr>tp_RFC3339 = (\<lambda>x. if CHR '' '' \<in> set x then None else Some 5), tp_RFC3339Nano = (\<lambda>_. None)\<rparr>
     (audit_filter (url_query (audit_url ''http://gw:8080'' ''a1'' ''deny'' ''2026-01-01T00:00:00+02:00'' 50))) = zero_time"
proof -
  have s: "query_safe ''a1''" "query_safe ''deny''" "query_safe (filter (\<lambda>c. c \<noteq> CHR ''+'') ''2026-01-01T00:00:00+02:00'')"
    by code_simp+
  have h: "CHR ''?'' \<notin> set ''http://gw:8080''" "CHR ''#'' \<notin> set ''http://gw:8080''" "CHR ''+'' \<in> set ''2026-01-01T00:00:00+02:00''"
    by code_simp+
  have n: "(0 :: int) < 50" "(50 :: int) < 2 ^ 63" by simp_all
  have T: "\<forall>x. CHR '' '' \<in> set x \<longrightarrow> tp_RFC3339 \<lparr>tp_RFC3339 = (\<lambda>x. if CHR '' '' \<in> set x then None else Some 5),
      tp_RFC3339Nano = (\<lambda>_. None)\<rparr> x = None"
    by (simp del: set_simps)
  show ?thesis using show_audit_reaches_filter [OF h(1,2) s n] h(3) T by blast
qed

section \<open>A token for the gateway\<close>

text \<open>
  C32: the token that the tool prints authenticates at the gateway. Presented as a bearer token to a
  gateway with the same secret it identifies the agent it was made for, with the team, project and
  environment of the flags, until the time of issue plus the given duration in whole seconds; after
  that, while the expiry is positive, nobody.
\<close>

theorem ctl_token_authenticates:
  fixes E :: shell_env and nanos ttl :: int and i team proj envn :: string
  defines "c \<equiv> token_claims E nanos i team proj envn ttl"
  assumes "i \<noteq> []" and "secret \<noteq> []"
    and "marshal (je_claims (sv_jwt E)) c = Inr d" and "json_roundtrip (je_claims (sv_jwt E)) c"
    and "je_header (sv_jwt E) jwt_header = Inr ''HS256''"
    and "wo_jwt W = sv_jwt E" and "ph_jwtSecret h = secret"
    and "header_Get (rq_Header r) ''Proxy-Authorization'' = ''Bearer '' @ SignJWT (sv_jwt E) c secret"
  shows "runToken E nanos i team proj envn secret ttl s = (Inr (), Println (SignJWT (sv_jwt E) c secret) s) \<and>
    (an_unix a \<le> cl_Exp c \<longrightarrow> snd (authenticate W a r h) = Some \<lparr>ag_AgentID = i, ag_TeamID = team,
       ag_ProjectID = proj, ag_Environment = envn, ag_APIKey = [], ag_Status = ''active''\<rparr>) \<and>
    (0 < cl_Exp c \<and> cl_Exp c < an_unix a \<longrightarrow> snd (authenticate W a r h) = None)"
proof -
  let ?t = "SignJWT (sv_jwt E) c secret"
  have cf: "cl_AgentID c = i" "cl_TeamID c = team" "cl_ProjectID c = proj" "cl_Environment c = envn"
    by (simp_all add: c_def token_claims_def)
  have auth: "extractProxyAuth r = ([], [], ?t)"
    unfolding extractProxyAuth_def Let_def assms(9) by (simp add: TrimPrefix_def)
  have ne: "?t \<noteq> []" by (simp add: SignJWT_def Let_def split: sum.split)
  have run: "snd (authenticate W a r h) = (case VerifyJWT (sv_jwt E) (an_unix a) ?t secret of
      Inr claims \<Rightarrow> Some \<lparr>ag_AgentID = cl_AgentID claims, ag_TeamID = cl_TeamID claims, ag_ProjectID = cl_ProjectID claims,
         ag_Environment = cl_Environment claims, ag_APIKey = [], ag_Status = ''active''\<rparr>
    | Inl _ \<Rightarrow> None)"
    unfolding authenticate_def auth using ne assms(3,7,8) by (simp split: sum.split)
  have good: "VerifyJWT (sv_jwt E) (an_unix a) ?t secret = Inr c" if "an_unix a \<le> cl_Exp c"
    using good_token_sign [OF assms(4-6), of "an_unix a" secret] that assms(2) by (simp add: VerifyJWT_iff cf)
  have late: "\<exists>e. VerifyJWT (sv_jwt E) (an_unix a) ?t secret = Inl e" if "0 < cl_Exp c" "cl_Exp c < an_unix a"
    using expired_sign [OF assms(4-6) that] by blast
  show ?thesis
    using run good late assms(2,3) by (auto simp: cf runToken_def c_def [symmetric])
qed

definition demo_shell :: shell_env where
  "demo_shell = \<lparr>ce_paths = ce_paths demo_ctl, ce_ParseFloat = (\<lambda>_. None), ce_decode = (\<lambda>_. None), ce_Sprint = (\<lambda>_. []),
     ce_json = \<lparr>marshal = (\<lambda>_. Inr ''J''), unmarshal = (\<lambda>_. Inr [(''system'', VMap [(''host_name'', VStr ''gw'')])])\<rparr>,
     ce_faults = no_faults, sv_pretty = (\<lambda>_. Inr []), sv_body = (\<lambda>_. Inr []), sv_indent = (\<lambda>d. Inr d),
     sv_events = (\<lambda>_. Inr []), sv_build = (\<lambda>_ _. None), sv_http = (\<lambda>_. Inr (200, [])), sv_read = (\<lambda>_. None),
     sv_run = (\<lambda>_ _. None), sv_stamp = ''t'', sv_jwt = demo_env, sv_unix = 0\<rparr>"

definition idle_shell :: shell where
  "idle_shell = \<lparr>sh_fs = (\<lambda>_. None), sh_out = [], sh_calls = [], sh_runs = []\<rparr>"

theorem ctl_token_authenticates_witness:
  "\<exists>token. runToken demo_shell 0 ''a1'' ''ops'' [] [] ''k'' (100 * 10 ^ 9) idle_shell = (Inr (), Println token idle_shell) \<and>
     snd (authenticate demo_world demo_answers (demo_request ''www.example.org'' (''Bearer '' @ token)) demo_gateway) =
       Some \<lparr>ag_AgentID = ''a1'', ag_TeamID = ''ops'', ag_ProjectID = [], ag_Environment = [], ag_APIKey = [], ag_Status = ''active''\<rparr>"
proof -
  have c: "token_claims demo_shell 0 ''a1'' ''ops'' [] [] (100 * 10 ^ 9) = demo_claims"
    by (simp add: token_claims_def demo_claims_def demo_shell_def)
  have e: "sv_jwt demo_shell = demo_env" "wo_jwt demo_world = demo_env" "ph_jwtSecret demo_gateway = ''k''"
    "an_unix demo_answers = 50" "cl_Exp demo_claims = 100"
    by (simp_all add: demo_shell_def demo_world_def demo_gateway_def demo_answers_def demo_claims_def)
  obtain d where d: "marshal (je_claims demo_env) demo_claims = Inr d" "json_roundtrip (je_claims demo_env) demo_claims"
      "je_header demo_env jwt_header = Inr ''HS256''"
    by (auto simp: demo_env_def json_roundtrip_def)
  note t = ctl_token_authenticates [of "''a1''" "''k''" demo_shell 0 "''ops''" "[]" "[]" "100 * 10 ^ 9" d demo_world demo_gateway
      "demo_request ''www.example.org'' (''Bearer '' @ SignJWT demo_env demo_claims ''k'')" idle_shell demo_answers, unfolded c e]
  show ?thesis using t d by (intro exI [of _ "SignJWT demo_env demo_claims ''k''"]) simp
qed

section \<open>The candidate file\<close>

text \<open>The path under which the words of a command are stored and looked up.\<close>

definition config_path :: "string list \<Rightarrow> string" where
  "config_path toks = ReplaceByte CHR ''-'' CHR ''_'' (Join toks ''.'')"

lemma ReplaceByte_dots: "ReplaceByte CHR ''-'' CHR ''_'' (Join ps ''.'') = Join (map (ReplaceByte CHR ''-'' CHR ''_'') ps) ''.''"
  by (induction ps "''.''" rule: Join.induct) (simp_all add: ReplaceByte_def)

lemma ReplaceByte_gone: "a \<notin> set s \<Longrightarrow> ReplaceByte a b s = s"
  unfolding ReplaceByte_def by (intro map_idI) auto

lemma normalize_visible: "list_all visible t \<Longrightarrow> normalizeToken t = ReplaceByte CHR ''-'' CHR ''_'' t"
  by (simp add: normalizeToken_def TrimSpace_visible)

lemma ReplaceByte_visible: "list_all visible t \<Longrightarrow> list_all visible (ReplaceByte CHR ''-'' CHR ''_'' t)"
  by (auto simp: ReplaceByte_def list_all_iff visible_def)

lemma set_SplitByte: "p \<in> set (SplitByte c s) \<Longrightarrow> set p \<subseteq> set s"
proof -
  assume "p \<in> set (SplitByte c s)"
  moreover have "p \<in> set ps \<Longrightarrow> set p \<subseteq> set (Join ps sep)" for ps sep
    by (induction ps sep rule: Join.induct) auto
  ultimately show "set p \<subseteq> set s" using Join_SplitByte [of c s] by metis
qed

text \<open>A command of visible words sets the path that the same words name, to the value of its last word.\<close>

lemma parsed_set:
  assumes "parseSetPathAndValue E (toks @ [raw]) = Inr (path, v)" and "\<forall>t \<in> set toks. list_all visible t"
  shows "path = config_path toks \<and> v = parseValue E raw"
proof -
  have *: "validateLoop nt w ps = Inr (p, m) \<Longrightarrow> p = Join nt ''.''" for nt w ps p m
    by (induction ps) (auto split: if_splits)
  have words: "Join (normalizeTokens toks) ''.'' = config_path toks"
    using assms(2) normalize_visible unfolding config_path_def ReplaceByte_dots normalizeTokens_def
    by (metis (no_types, lifting) map_cong)
  show ?thesis
  proof (cases "length (toks @ [raw]) = 2 \<and> Contains ((toks @ [raw]) ! 0) ''.''")
    case True
    then obtain t where t: "toks = [t]" by (cases toks) auto
    let ?r = "ReplaceByte CHR ''-'' CHR ''_'' t"
    have "list_all visible ?r" "CHR ''-'' \<notin> set ?r"
      using assms(2) ReplaceByte_visible by (auto simp: t ReplaceByte_def)
    then have "normalizeToken p = p" if "p \<in> set (SplitByte CHR ''.'' ?r)" for p
    proof -
      have "list_all visible p" "CHR ''-'' \<notin> set p"
        using set_SplitByte [OF that] \<open>list_all visible ?r\<close> \<open>CHR ''-'' \<notin> set ?r\<close> by (auto simp: list_all_iff)
      then show ?thesis by (simp add: normalize_visible ReplaceByte_gone)
    qed
    then have "normalizeTokens (SplitByte CHR ''.'' ?r) = SplitByte CHR ''.'' ?r"
      unfolding normalizeTokens_def by (intro map_idI)
    then have "Join (normalizeTokens (SplitByte CHR ''.'' ?r)) ''.'' = config_path toks"
      by (simp add: t config_path_def)
    then show ?thesis
      using assms(1) True unfolding parseSetPathAndValue_def Let_def
      by (auto simp: t ValidateSetTokens_def dest!: * split: sum.splits)
  next
    case False
    then show ?thesis
      using assms(1) words unfolding parseSetPathAndValue_def Let_def
      by (auto simp: ValidateSetTokens_def dest!: * split: sum.splits if_splits)
  qed
qed

text \<open>
  What \<open>encoding/json\<close> gives back for a value that was encoded: every number is a \<open>float64\<close>.
\<close>

primrec json_image :: "val \<Rightarrow> val" where
  "json_image VNil = VNil"
| "json_image (VBool b) = VBool b"
| "json_image (VFloat x) = VFloat x"
| "json_image (VInt i) = VFloat (rnd64 (of_int i))"
| "json_image (VStr s) = VStr s"
| "json_image (VArr xs) = VArr (map json_image xs)"
| "json_image (VMap m) = VMap (map (map_prod id json_image) m)"
| "json_image (VSpecial t) = VSpecial t"

definition json_tree :: "vmap \<Rightarrow> vmap" where
  "json_tree m = map (map_prod id json_image) m"

lemma mget_json: "mget (map (map_prod id json_image) m) k = map_option json_image (mget m k)"
  by (induction m) auto

lemma walk_json: "walk (json_image v) ps = map_option json_image (walk v ps)"
proof (induction ps arbitrary: v)
  case (Cons p ps)
  show ?case by (cases v) (simp_all add: mget_json Cons.IH split: option.split)
qed simp

lemma getByPath_json: "getByPath (json_tree cfg) path = map_option json_image (getByPath cfg path)"
  using walk_json [of "VMap cfg"] by (simp add: getByPath_def json_tree_def)

text \<open>The words that \<open>set\<close> takes for switches.\<close>

definition on_words :: "string set" where
  "on_words = {''enable'', ''enabled'', ''on'', ''true''}"

definition off_words :: "string set" where
  "off_words = {''disable'', ''disabled'', ''off'', ''false''}"

lemma words_no_number: "raw \<in> on_words \<union> off_words \<Longrightarrow> Atoi raw = None"
proof -
  have "\<forall>w \<in> {''enable'', ''enabled'', ''on'', ''true'', ''disable'', ''disabled'', ''off'', ''false''}. Atoi w = None"
    by code_simp
  then show "raw \<in> on_words \<union> off_words \<Longrightarrow> Atoi raw = None" by (auto simp: on_words_def off_words_def)
qed

lemma parsed_value:
  "(raw \<in> on_words \<longrightarrow> json_image (parseValue E raw) = VBool True) \<and>
   (raw \<in> off_words \<longrightarrow> json_image (parseValue E raw) = VBool False) \<and>
   (\<forall>i. Atoi raw = Some i \<longrightarrow> json_image (parseValue E raw) = VFloat (rnd64 (of_int i))) \<and>
   (raw \<notin> on_words \<union> off_words \<and> Atoi raw = None \<and> ce_ParseFloat E raw = None \<and>
      \<not> HasPrefix raw ''{'' \<and> \<not> HasPrefix raw ''['' \<longrightarrow> json_image (parseValue E raw) = VStr raw)"
proof (intro conjI allI impI)
  show "json_image (parseValue E raw) = VBool True" if "raw \<in> on_words"
    using that by (auto simp: on_words_def parseValue_def)
  show "json_image (parseValue E raw) = VBool False" if "raw \<in> off_words"
    using that by (auto simp: off_words_def parseValue_def)
  show "json_image (parseValue E raw) = VFloat (rnd64 (of_int i))" if "Atoi raw = Some i" for i
  proof -
    have "raw \<notin> on_words \<union> off_words" using words_no_number that by force
    then show ?thesis using that by (simp add: on_words_def off_words_def parseValue_def)
  qed
  show "json_image (parseValue E raw) = VStr raw"
    if "raw \<notin> on_words \<union> off_words \<and> Atoi raw = None \<and> ce_ParseFloat E raw = None \<and> \<not> HasPrefix raw ''{'' \<and> \<not> HasPrefix raw ''[''"
    using that by (simp add: on_words_def off_words_def parseValue_def)
qed

text \<open>
  C34: what was set is shown, as JSON keeps it. When \<open>set\<close> with some words and a value succeeds, \<open>show\<close> with
  the same words finds the value in the candidate file under the path they name: itself, or for a path
  that takes several values appended to those that were there. The value is true or false for the words
  for on and off, the number for a decimal integer (so \<open>007\<close> shows as 7, and beyond \<open>2^53\<close> it is
  rounded, because the file is read back into floats), and the text itself for any other text that is
  neither a float nor begins like a JSON list or object. The decoder is assumed to invert the encoder
  on the tree that was written, up to the conversion of its numbers to floats.
\<close>

theorem set_then_show:
  assumes "runSet E file (toks @ [raw]) s = (Inr (), s')" and "\<forall>t \<in> set toks. list_all visible t"
    and "loadOrInitConfig (ctl_env.truncate E) (sh_fs s) file = Inr cfg"
    and "\<And>d. marshal (ce_json E) (setByPath cfg (config_path toks) (parseValue (ctl_env.truncate E) raw)
           (IsMultiPath (ce_paths E) (config_path toks))) = Inr d \<Longrightarrow>
        unmarshal (ce_json E) (d @ [newline]) =
          Inr (json_tree (setByPath cfg (config_path toks) (parseValue (ctl_env.truncate E) raw)
           (IsMultiPath (ce_paths E) (config_path toks))))"
    and "f_read (ce_faults E) file = None"
    and "Join toks '' '' \<notin> {''commands'', ''configuration'', ''configuration json'', ''configuration commands''}"
  defines "x \<equiv> json_image (parseValue (ctl_env.truncate E) raw)"
  shows "showFromFile E file toks (sh_fs s') = Inr (ShowVal (VMap [(''key'', VStr (config_path toks)),
       (''value'', if IsMultiPath (ce_paths E) (config_path toks)
          then VArr (map json_image (old_items (getByPath cfg (config_path toks))) @ [x]) else x)])) \<and>
     (raw \<in> on_words \<longrightarrow> x = VBool True) \<and> (raw \<in> off_words \<longrightarrow> x = VBool False) \<and>
     (\<forall>i. Atoi raw = Some i \<longrightarrow> x = VFloat (rnd64 (of_int i))) \<and>
     (raw \<notin> on_words \<union> off_words \<and> Atoi raw = None \<and> ce_ParseFloat E raw = None \<and>
        \<not> HasPrefix raw ''{'' \<and> \<not> HasPrefix raw ''['' \<longrightarrow> x = VStr raw)"
proof -
  let ?E = "ctl_env.truncate E" and ?path = "config_path toks"
  let ?m = "IsMultiPath (ce_paths E) ?path" and ?v = "parseValue (ctl_env.truncate E) raw"
  let ?new = "setByPath cfg ?path ?v ?m"
  have E: "ce_paths ?E = ce_paths E" "ce_json ?E = ce_json E" "ce_faults ?E = ce_faults E" "ce_ParseFloat ?E = ce_ParseFloat E"
    by (simp_all add: ctl_env.truncate_def)
  have "toks \<noteq> []" using assms(1) by (auto simp: runSet_def fatal_def)
  obtain p v where pv: "parseSetPathAndValue ?E (toks @ [raw]) = Inr (p, v)"
    using assms(1) by (auto simp: runSet_def fatal_def split: if_splits sum.splits)
  then have parsed: "parseSetPathAndValue ?E (toks @ [raw]) = Inr (?path, ?v)" using parsed_set [OF pv assms(2)] by simp
  obtain fs where w: "applySetToFile ?E file ?path ?v (sh_fs s) = (None, fs)" "sh_fs s' = fs"
    using assms(1) parsed by (auto simp: runSet_def fatal_def Println_def split: if_splits prod.splits option.splits)
  then obtain d where d: "marshal (ce_json E) ?new = Inr d" "fs file = Some (d @ [newline])"
    using assms(3)
    by (auto simp: applySetToFile_def writeJSONFile_def Let_def E WriteFile_def split: sum.splits option.splits if_splits)
  have load: "loadOrInitConfig ?E fs file = Inr (json_tree ?new)"
    using d assms(4,5) by (simp add: loadOrInitConfig_def ReadFile_def E)
  have "getByPath ?new ?path = Some (if ?m then VArr (old_items (getByPath cfg ?path) @ [?v]) else ?v)"
    using walk_setParts_same [of "SplitByte CHR ''.'' ?path" cfg ?v ?m] by (simp add: getByPath_def setByPath_def)
  then have "getByPath (json_tree ?new) ?path = Some (if ?m then VArr (map json_image (old_items (getByPath cfg ?path)) @ [x]) else x)"
    unfolding getByPath_json by (simp add: x_def)
  then have "show_key (json_tree ?new) toks = Inr (ShowVal (VMap [(''key'', VStr ?path),
      (''value'', if ?m then VArr (map json_image (old_items (getByPath cfg ?path)) @ [x]) else x)]))"
    by (simp add: show_key_def config_path_def [symmetric] Let_def)
  then have "showFromFile E file toks (sh_fs s') = Inr (ShowVal (VMap [(''key'', VStr ?path),
      (''value'', if ?m then VArr (map json_image (old_items (getByPath cfg ?path)) @ [x]) else x)]))"
    using load assms(6) w(2) \<open>toks \<noteq> []\<close> by (simp add: showFromFile_def)
  then show ?thesis using parsed_value [of raw ?E] unfolding x_def E(4) by blast
qed

text \<open>A codec of the configurations that set the host name and nothing else.\<close>

definition host_json :: "vmap json" where
  "host_json = \<lparr>marshal = (\<lambda>m. if m = [(''system'', VMap [(''host_name'', VInt 7)])] then Inr ''7''
       else (case m of [(''system'', VMap [(''host_name'', VStr t)])] \<Rightarrow> Inr (CHR 0x22 # t) | _ \<Rightarrow> Inl ''unsupported'')),
     unmarshal = (\<lambda>d. case d of [] \<Rightarrow> Inl ''empty''
       | c # t \<Rightarrow> Inr [(''system'', VMap [(''host_name'', if c = CHR 0x22 then VStr (butlast t) else VFloat 7)])])\<rparr>"

definition host_shell :: shell_env where
  "host_shell = demo_shell\<lparr>ce_json := host_json\<rparr>"

theorem set_then_show_witness:
  "showFromFile host_shell ''candidate.json'' [''system'', ''host-name'']
     (sh_fs (snd (runSet host_shell ''candidate.json'' [''system'', ''host-name'', ''gw''] idle_shell))) =
   Inr (ShowVal (VMap [(''key'', VStr ''system.host_name''), (''value'', VStr ''gw'')])) \<and>
   showFromFile host_shell ''candidate.json'' [''system'', ''host-name'']
     (sh_fs (snd (runSet host_shell ''candidate.json'' [''system'', ''host-name'', ''007''] idle_shell))) =
   Inr (ShowVal (VMap [(''key'', VStr ''system.host_name''), (''value'', VFloat 7)]))"
proof -
  let ?E = "ctl_env.truncate host_shell" and ?toks = "[''system'', ''host-name'']" and ?f = "''candidate.json''"
  have path: "config_path ?toks = ''system.host_name''" by code_simp
  have m: "\<not> IsMultiPath (ce_paths host_shell) ''system.host_name''" by code_simp
  have vis: "\<forall>t \<in> set ?toks. list_all visible t" by code_simp
  have l: "loadOrInitConfig ?E (sh_fs idle_shell) ?f = Inr []" by code_simp
  have tree: "setByPath [] ''system.host_name'' v False = [(''system'', VMap [(''host_name'', v)])]" for v
  proof -
    have "SplitByte CHR ''.'' ''system.host_name'' = [''system'', ''host_name'']" by code_simp
    then show ?thesis by (simp add: setByPath_def)
  qed
  have r: "unmarshal (ce_json host_shell) (d @ [newline]) = Inr (json_tree (setByPath [] (config_path ?toks) v
      (IsMultiPath (ce_paths host_shell) (config_path ?toks))))"
    if "marshal (ce_json host_shell) (setByPath [] (config_path ?toks) v (IsMultiPath (ce_paths host_shell) (config_path ?toks))) = Inr d" for v d
  proof -
    have "rnd64 7 = 7" using is_f64_of_int [of 7] by simp
    then show ?thesis using that m
      by (auto simp: path tree host_shell_def host_json_def json_tree_def split: if_splits val.splits)
  qed
  have f: "f_read (ce_faults host_shell) ?f = None" by (simp add: host_shell_def demo_shell_def)
  have j: "Join ?toks '' '' \<notin> {''commands'', ''configuration'', ''configuration json'', ''configuration commands''}" by code_simp
  have ok: "fst (runSet host_shell ?f (?toks @ [''gw'']) idle_shell) = Inr ()"
    "fst (runSet host_shell ?f (?toks @ [''007'']) idle_shell) = Inr ()" by code_simp+
  have run: "runSet host_shell ?f (?toks @ [w]) idle_shell = (Inr (), snd (runSet host_shell ?f (?toks @ [w]) idle_shell))"
    if "fst (runSet host_shell ?f (?toks @ [w]) idle_shell) = Inr ()" for w
    using that by (metis prod.collapse)
  note t = set_then_show [OF run vis l r f j, unfolded path if_not_P [OF m]]
  have "Atoi ''gw'' = None" "Atoi ''007'' = Some 7" by code_simp+
  moreover have "rnd64 (of_int 7) = 7" "ce_ParseFloat host_shell ''gw'' = None"
    using is_f64_of_int [of 7] by (simp_all add: host_shell_def demo_shell_def)
  ultimately have n: "Atoi ''gw'' = None" "Atoi ''007'' = Some 7" "rnd64 (of_int 7) = 7" "ce_ParseFloat host_shell ''gw'' = None"
    by blast+
  show ?thesis
    using t [OF ok(1)] t [OF ok(2)] n by (auto simp: on_words_def off_words_def HasPrefix_iff)
qed

text \<open>The installer is run only when the plan is confirmed.\<close>

lemma install_needs_confirmation:
  "sh_runs (snd (runInstall E disk host reboot False s)) = sh_runs s"
  by (simp add: runInstall_def fatal_def prettyPrint_def Println_def Let_def split: sum.split prod.split)

text \<open>In configure mode \<open>save\<close> without a candidate file ends the session; \<open>set\<close> and \<open>show\<close> only report errors.\<close>

lemma save_without_candidate_exits:
  assumes "sh_fs s file = None" and "f_read (ce_faults E) file = None"
  shows "shell_loop E api actor file (''save'' # lines) s = (Inl (''read --file: open '' @ file @ '': no such file or directory''), s)"
proof -
  have f: "TrimSpace ''save'' = ''save''" "Fields ''save'' = [''save'']" by code_simp+
  show ?thesis using assms
    by (simp add: shell_line_def f Let_def runConfigureOnce_def ReadFile_def then_print_def go_on_def fatal_def)
qed

end
