(* ===== verification/Dns_Props.thy ===== *)
theory Dns_Props
  imports Dns_Rpz Policy_Conflict
begin

text \<open>
  The response-policy zone against the policy it is made from: which names it holds and which hosts it
  blocks, that it ignores the precedence of the rules, and what writing it leaves on disk.
\<close>

section \<open>The names of the zone\<close>

text \<open>The names a domain stands for, and the list of a policy's deny rules without the repetitions.\<close>

definition expand :: "string \<Rightarrow> string list" where
  "expand d = (if d = ''*'' then [] else if HasPrefix d ''*.'' then [drop 2 d, d] else [d])"

fun first_seen :: "string set \<Rightarrow> string list \<Rightarrow> string list" where
  "first_seen seen [] = []"
| "first_seen seen (s # xs) = (if s \<in> seen then first_seen seen xs else s # first_seen (insert s seen) xs)"

interpretation zone_names: seen_loop "\<lambda>_. False" "\<lambda>s. s" first_seen
  by unfold_locales simp_all

definition denied_domains :: "Rule list \<Rightarrow> string list" where
  "denied_domains rules = concat (map ru_Domains (filter (\<lambda>r. ru_Action r = ''deny'') rules))"

lemma domainEntries_first_seen:
  "domainEntries ds seen = (first_seen seen (concat (map expand ds)), seen \<union> set (concat (map expand ds)))"
proof (induction ds arbitrary: seen)
  case (Cons d ds)
  consider "d = ''*''" | "d \<noteq> ''*''" "\<not> HasPrefix d ''*.''" | b where "d = ''*.'' @ b"
    by (auto simp: HasPrefix_ex)
  then show ?case
  proof cases
    case 3
    then show ?thesis by (auto simp: expand_def Let_def Cons.IH insert_absorb)
  qed (auto simp: expand_def Let_def Cons.IH insert_absorb)
qed simp

lemma ruleEntries_first_seen:
  "ruleEntries rules seen = first_seen seen (concat (map expand (denied_domains rules)))"
proof (induction rules arbitrary: seen)
  case (Cons r rules)
  then show ?case
    using zone_names.run_append [of seen "concat (map expand (ru_Domains r))"]
    by (simp add: denied_domains_def domainEntries_first_seen)
qed (simp add: denied_domains_def)

lemma set_ruleEntries: "set (ruleEntries rules {}) = (\<Union>d \<in> set (denied_domains rules). set (expand d))"
  using zone_names.run_keys [of "{}" "concat (map expand (denied_domains rules))"]
  by (simp add: ruleEntries_first_seen)

lemma distinct_ruleEntries: "distinct (ruleEntries rules {})"
  using zone_names.run_distinct_keys [of "{}" "concat (map expand (denied_domains rules))"]
  by (simp add: ruleEntries_first_seen)

text \<open>
  What a resolver does with the names, without regard to case: an entry blocks its own name, \<open>*.base\<close>
  every name below \<open>base\<close>. The host is in lower case, as the engine has it.
\<close>

definition rpz_blocks :: "unicode \<Rightarrow> string list \<Rightarrow> string \<Rightarrow> bool" where
  "rpz_blocks U names h \<longleftrightarrow>
     (\<exists>n \<in> set names. h = ToLower U n \<or> (\<exists>b. ToLower U n = ''*.'' @ b \<and> suffix (CHR ''.'' # b) h))"

lemma byte_lower_char: "byte (lower_char c) = (if 65 \<le> byte c \<and> byte c \<le> 90 then byte c + 32 else byte c)"
  by (auto simp: lower_char_def byte_char_of_small)

lemma lower_char_mark:
  assumes "byte k < 65"
  shows "lower_char c = k \<longleftrightarrow> c = k"
proof
  assume "lower_char c = k"
  then have "byte (lower_char c) < 65" using assms by simp
  then have "\<not> (65 \<le> byte c \<and> byte c \<le> 90)" unfolding byte_lower_char by (auto split: if_splits)
  then show "c = k" using \<open>lower_char c = k\<close> by (auto simp: lower_char_def)
next
  assume "c = k"
  then show "lower_char c = k" using assms by (simp add: lower_char_def)
qed

lemma ToLower_star:
  assumes "is_ascii d"
  shows "ToLower U d = ''*'' \<longleftrightarrow> d = ''*''" "ToLower U d = ''*.'' @ b \<longleftrightarrow> (\<exists>a. d = ''*.'' @ a \<and> b = ToLower U a)"
proof -
  have m: "lower_char c = CHR ''*'' \<longleftrightarrow> c = CHR ''*''" "lower_char c = CHR ''.'' \<longleftrightarrow> c = CHR ''.''" for c
    by (rule lower_char_mark, simp)+
  have l: "ToLower U d = map lower_char d" using assms by (simp add: ToLower_def)
  show "ToLower U d = ''*'' \<longleftrightarrow> d = ''*''" unfolding l by (cases d) (simp_all add: m)
  show "ToLower U d = ''*.'' @ b \<longleftrightarrow> (\<exists>a. d = ''*.'' @ a \<and> b = ToLower U a)"
  proof
    assume "ToLower U d = ''*.'' @ b"
    then obtain a where "d = CHR ''*'' # CHR ''.'' # a" "map lower_char a = b"
      unfolding l by (cases d; cases "tl d") (simp_all add: m)
    then show "\<exists>a. d = ''*.'' @ a \<and> b = ToLower U a"
      using assms by (intro exI [of _ a]) (simp add: ToLower_def)
  next
    assume "\<exists>a. d = ''*.'' @ a \<and> b = ToLower U a"
    then obtain a where "d = CHR ''*'' # CHR ''.'' # a" "b = map lower_char a" "is_ascii a"
      using assms by (auto simp: ToLower_def)
    then show "ToLower U d = ''*.'' @ b" unfolding l using m(1) [of "CHR ''*''"] m(2) [of "CHR ''.''"] by simp
  qed
qed

lemma matchDomain_ascii:
  assumes "is_ascii p"
  shows "matchDomain U h p \<longleftrightarrow> p = ''*'' \<or> (\<exists>d. p = ''*.'' @ d \<and> below h (ToLower U d)) \<or>
     (h = ToLower U p \<and> (\<nexists>d. p = ''*.'' @ d))"
proof -
  have "matchDomain U h p = matchDomain U h (ToLower U p)" using assms by (simp add: matchDomain_def)
  then show ?thesis
    using matchDomain_lower [of U "ToLower U p" h] assms ToLower_star [OF assms] by auto
qed

lemma expand_blocks:
  assumes "is_ascii d" and "d \<noteq> ''*''" and "\<not> HasPrefix d ''*.*.''"
  shows "rpz_blocks U (expand d) h \<longleftrightarrow> matchDomain U h d"
proof (cases "HasPrefix d ''*.''")
  case True
  then obtain b where d: "d = ''*.'' @ b" by (auto simp: HasPrefix_ex)
  have b: "is_ascii b" "\<nexists>a. b = ''*.'' @ a" using assms(1,3) by (auto simp: d HasPrefix_ex)
  then have "\<nexists>a. ToLower U b = ''*.'' @ a" using ToLower_star(2) by blast
  moreover have "ToLower U d = ''*.'' @ ToLower U b" using ToLower_star(2) [OF assms(1)] d by blast
  moreover have "matchDomain U h d \<longleftrightarrow> h = ToLower U b \<or> suffix (CHR ''.'' # ToLower U b) h"
    using matchDomain_ascii [OF assms(1), of U h] by (simp add: d below_def)
  moreover have "expand d = [b, d]" by (simp add: d expand_def)
  ultimately show ?thesis by (auto simp: rpz_blocks_def suffix_Cons)
next
  case False
  then have "\<nexists>a. d = ''*.'' @ a" by (auto simp: HasPrefix_ex)
  then show ?thesis using assms(2) False ToLower_star(2) [OF assms(1)]
    by (auto simp: expand_def rpz_blocks_def matchDomain_ascii [OF assms(1)])
qed

lemma rpz_blocks_set: "rpz_blocks U names h \<longleftrightarrow> (\<exists>n \<in> set names. rpz_blocks U [n] h)"
  by (auto simp: rpz_blocks_def)

lemma stars_expand: "set ds \<subseteq> {''*''} \<Longrightarrow> concat (map expand ds) = []"
  by (auto simp: expand_def)

text \<open>
  C30: what the zone blocks, against the rules. For ASCII patterns with at most one leading wildcard, each
  name is written once, and a host is blocked exactly when it matches a domain other than \<open>*\<close> of some
  deny rule, as the policy engine matches it. A deny rule that has no domain, or only \<open>*\<close>, passes the
  engine's domain test for every host and adds nothing to the zone: it is as if the rule were not there.
\<close>

theorem rpz_zone_exact:
  assumes "\<forall>d \<in> set (denied_domains rules). is_ascii d \<and> \<not> HasPrefix d ''*.*.''"
  shows "distinct (ruleEntries rules {}) \<and>
     (rpz_blocks U (ruleEntries rules {}) h \<longleftrightarrow>
      (\<exists>r \<in> set rules. ru_Action r = ''deny'' \<and> (\<exists>d \<in> set (ru_Domains r). d \<noteq> ''*'' \<and> matchDomain U h d))) \<and>
     (\<forall>xs r ys. rules = xs @ r # ys \<and> set (ru_Domains r) \<subseteq> {''*''} \<longrightarrow>
        matchDomainList U h (ru_Domains r) \<and> ruleEntries rules {} = ruleEntries (xs @ ys) {})"
proof (intro conjI allI impI)
  show "distinct (ruleEntries rules {})" by (rule distinct_ruleEntries)
  have "rpz_blocks U (ruleEntries rules {}) h \<longleftrightarrow> (\<exists>d \<in> set (denied_domains rules). rpz_blocks U (expand d) h)"
    unfolding rpz_blocks_set [of U "ruleEntries rules {}"] rpz_blocks_set [of U "expand d" for d] set_ruleEntries by blast
  also have "\<dots> \<longleftrightarrow> (\<exists>d \<in> set (denied_domains rules). d \<noteq> ''*'' \<and> matchDomain U h d)"
    using assms expand_blocks [of _ U h] by (auto simp: expand_def rpz_blocks_def)
  finally show "rpz_blocks U (ruleEntries rules {}) h \<longleftrightarrow>
      (\<exists>r \<in> set rules. ru_Action r = ''deny'' \<and> (\<exists>d \<in> set (ru_Domains r). d \<noteq> ''*'' \<and> matchDomain U h d))"
    by (auto simp: denied_domains_def)
  fix xs r ys assume r: "rules = xs @ r # ys \<and> set (ru_Domains r) \<subseteq> {''*''}"
  then show "matchDomainList U h (ru_Domains r)"
    by (cases "ru_Domains r") (auto simp: matchDomainList_iff matchDomain_ascii)
  show "ruleEntries rules {} = ruleEntries (xs @ ys) {}"
    using r stars_expand [of "ru_Domains r"] by (simp add: ruleEntries_first_seen denied_domains_def del: concat_eq_Nil_conv)
qed

theorem rpz_zone_exact_witness:
  "rpz_blocks ascii_only (ruleEntries [mk_rule ''d'' ''*'' [''*.Evil.com''] ''deny'', mk_rule ''e'' ''*'' [] ''deny''] {}) ''a.evil.com'' \<and>
   \<not> rpz_blocks ascii_only (ruleEntries [mk_rule ''d'' ''*'' [''*.Evil.com''] ''deny'', mk_rule ''e'' ''*'' [] ''deny''] {}) ''x.org''"
proof -
  let ?rs = "[mk_rule ''d'' ''*'' [''*.Evil.com''] ''deny'', mk_rule ''e'' ''*'' [] ''deny'']"
  have 1: "\<forall>d \<in> set (denied_domains ?rs). is_ascii d \<and> \<not> HasPrefix d ''*.*.''" by code_simp
  have "matchDomain ascii_only ''a.evil.com'' ''*.Evil.com''" "\<not> matchDomain ascii_only ''x.org'' ''*.Evil.com''"
    by code_simp+
  then show ?thesis
    using rpz_zone_exact [OF 1, of ascii_only "''a.evil.com''"] rpz_zone_exact [OF 1, of ascii_only "''x.org''"]
    by (auto simp: mk_rule_def)
qed

text \<open>
  the zone ignores who is asking and which rule comes first. Here agent \<open>a1\<close> may reach the site by
  the first rule and only \<open>a2\<close> is denied it; the zone blocks it for everyone.
\<close>

theorem rpz_overblocks:
  fixes rules :: "Rule list"
  defines "rules \<equiv> [mk_rule ''ok'' ''a1'' [''x.com''] ''allow'', mk_rule ''no'' ''a2'' [''x.com''] ''deny'']"
  shows "de_Action (Evaluate ascii_only \<lparr>en_rules = rules, en_path = []\<rparr> ''a1'' ''x.com'') = ''allow'' \<and>
     rpz_blocks ascii_only (ruleEntries rules {}) ''x.com''"
proof -
  have "ruleEntries rules {} = [''x.com'']" unfolding rules_def by code_simp
  moreover have "de_Action (Evaluate ascii_only \<lparr>en_rules = rules, en_path = []\<rparr> ''a1'' ''x.com'') = ''allow''"
    unfolding rules_def by code_simp
  moreover have "ToLower ascii_only ''x.com'' = ''x.com''" by code_simp
  ultimately show ?thesis by (simp add: rpz_blocks_def)
qed

section \<open>Writing the zone\<close>

lemma countDenied_append: "countDenied (xs @ ys) = countDenied xs + countDenied ys"
  by (induction xs) auto

lemma countDenied_lines:
  "countDenied (SplitByte newline (a @ newline # b)) = countDenied (SplitByte newline a) + countDenied (SplitByte newline b)"
  by (simp add: SplitByte_append_sep countDenied_append)

lemma count_entry:
  assumes "newline \<notin> set n" and "\<not> HasPrefix n '';''" and "n \<noteq> []"
  shows "countDenied (SplitByte newline (entry_line n @ s)) = Suc (countDenied (SplitByte newline s))"
proof -
  let ?l = "pad_right 40 n @ '' CNAME .''"
  have nl: "newline \<notin> set ?l" using assms(1) by (auto simp: pad_right_def newline_def)
  have c: "Contains ?l ''CNAME .''"
    unfolding Contains_iff by (rule exI [of _ "pad_right 40 n @ '' ''"], rule exI [of _ "[]"]) simp
  have h: "\<not> HasPrefix ?l '';''"
    using assms(2,3) by (cases n) (auto simp: pad_right_def)
  have "SplitByte newline (entry_line n @ s) = ?l # SplitByte newline s"
    using SplitByte_cons [OF nl, of s] by (simp add: entry_line_def wln_def)
  then show ?thesis using c h by (simp only: countDenied.simps) simp
qed

lemma count_entries:
  "\<forall>n \<in> set ns. newline \<notin> set n \<and> \<not> HasPrefix n '';'' \<and> n \<noteq> [] \<Longrightarrow>
     countDenied (SplitByte newline (concat (map entry_line ns))) = length ns"
  by (induction ns) (simp_all add: count_entry)

lemma header_ends: "\<exists>h. zone_header stamp cfg = h @ [newline]"
  unfolding zone_header_def wln_def by (metis append_assoc)

text \<open>
  the zone file is replaced whole or not at all, and the result counts its entries. A failed write
  leaves the old zone; a successful one puts the generated zone in place and reports one denied entry
  per name, for names that are not empty and hold no line end or leading semicolon (and a zone name
  that does not look like an entry). The serial number reported is the configured one, else the time
  after the write, which the file's serial, taken before it, can differ from.
\<close>

theorem rpz_write:
  assumes "\<forall>n \<in> set (ruleEntries rules {}). newline \<notin> set n \<and> \<not> HasPrefix n '';'' \<and> n \<noteq> []"
    and "countDenied (SplitByte newline (zone_header (ck_stamp ck1) (with_defaults (ck_unix ck1) cfg))) = 0"
  shows "case WriteRPZFile F ck1 ck2 path rules cfg fs of
       (Inl e, fs') \<Rightarrow> fs' path = fs path
     | (Inr res, fs') \<Rightarrow> fs' path = Some (GenerateRPZ ck1 rules cfg) \<and>
         rr_DeniedCount res = length (ruleEntries rules {}) \<and>
         rr_Serial res = (if rz_Serial cfg = 0 then word_of_int (ck_unix ck2) else rz_Serial cfg)"
proof -
  let ?h = "zone_header (ck_stamp ck1) (with_defaults (ck_unix ck1) cfg)"
  let ?es = "concat (map entry_line (ruleEntries rules {}))"
  obtain h where h: "?h = h @ [newline]" using header_ends by blast
  have "countDenied (SplitByte newline h) = 0"
    using assms(2) countDenied_lines [of h "[]"] by (simp add: h)
  then have "countDenied (SplitByte newline (?h @ ?es)) = length (ruleEntries rules {})"
    using countDenied_lines [of h ?es] count_entries [OF assms(1)] by (simp add: h)
  then have n: "countDenied (SplitByte newline (GenerateRPZ ck1 rules cfg)) = length (ruleEntries rules {})"
    by (simp add: GenerateRPZ_def Let_def)
  obtain err fs' where w: "write_rename F ''write RPZ zone: '' ''rename RPZ zone: '' path (GenerateRPZ ck1 rules cfg) fs = (err, fs')"
    by fastforce
  show ?thesis
  proof (cases err)
    case None
    then show ?thesis using w write_rename_ok [OF w [unfolded None]] n by (simp add: WriteRPZFile_def Let_def)
  next
    case (Some e)
    then show ?thesis using w write_rename_err [OF w [unfolded Some]] by (simp add: WriteRPZFile_def Let_def)
  qed
qed

definition demo_clock :: clock where
  "demo_clock = \<lparr>ck_unix = 5, ck_stamp = ''2026''\<rparr>"

definition demo_zone :: RPZConfig where
  "demo_zone = \<lparr>rz_ZoneName = ''rpz.local'', rz_SOAContact = ''admin'', rz_TTL = 60, rz_Serial = 7\<rparr>"

theorem rpz_write_witness:
  "case WriteRPZFile no_faults demo_clock demo_clock ''z'' [mk_rule ''d'' ''*'' [''*.x.com''] ''deny''] demo_zone (\<lambda>_. None) of
       (Inl e, fs') \<Rightarrow> fs' ''z'' = None
     | (Inr res, fs') \<Rightarrow> fs' ''z'' = Some (GenerateRPZ demo_clock [mk_rule ''d'' ''*'' [''*.x.com''] ''deny''] demo_zone) \<and>
         rr_DeniedCount res = 2 \<and> rr_Serial res = 7"
proof -
  have n: "ruleEntries [mk_rule ''d'' ''*'' [''*.x.com''] ''deny''] {} = [''x.com'', ''*.x.com'']" by code_simp
  have 1: "\<forall>n \<in> set (ruleEntries [mk_rule ''d'' ''*'' [''*.x.com''] ''deny''] {}).
      newline \<notin> set n \<and> \<not> HasPrefix n '';'' \<and> n \<noteq> []"
    unfolding n by code_simp
  have d: "with_defaults 5 demo_zone = demo_zone" by (simp add: with_defaults_def demo_zone_def)
  have "countDenied (SplitByte newline (zone_header ''2026'' demo_zone)) = 0"
    by code_simp
  then have 2: "countDenied (SplitByte newline (zone_header (ck_stamp demo_clock)
      (with_defaults (ck_unix demo_clock) demo_zone))) = 0"
    by (simp add: demo_clock_def d)
  show ?thesis
    using rpz_write [OF 1 2, where F = no_faults and path = "''z''" and fs = "\<lambda>_. None" and ?ck2.0 = demo_clock, unfolded n]
    by (simp add: demo_zone_def split: prod.splits sum.splits)
qed

end
