(* ===== verification/Store_Sqlite.thy ===== *)
theory Store_Sqlite
  imports Identity_Registry Policy_Engine Quota
begin

text \<open>
  The SQLite store (internal/store/sqlite.go). A table is the list of its rows in the order of their
  row ids; the statements of the code are the list operations they denote: an upsert replaces the row
  with the same primary key in place or appends one, a delete removes it. Which statement fails is
  chosen by \<open>sql_faults\<close>. A query without \<open>ORDER BY\<close> may give the rows in any order: the list stands
  for it. The statements that only write to the log are left out.
\<close>

text \<open>The columns of a policy that the table has; the domains are JSON text.\<close>

record policy_row =
  pr_PolicyID :: string
  pr_AgentID :: string
  pr_Domains :: string
  pr_Action :: string

record DB =
  db_agents :: "Agent list"
  db_policies :: "policy_row list"
  db_quotas :: "Limit list"

text \<open>An iteration that breaks off after some rows, with the error that \<open>rows.Err\<close> reports.\<close>

record sql_faults =
  sf_open :: "error option"
  sf_exec :: "string \<Rightarrow> error option"
  sf_query :: "error option"
  sf_rows :: "(nat \<times> error) option"

definition no_sql_faults :: sql_faults where
  "no_sql_faults = \<lparr>sf_open = None, sf_exec = (\<lambda>_. None), sf_query = None, sf_rows = None\<rparr>"

section \<open>Opening\<close>

text \<open>The first 40 bytes of each migration statement, which name it in an error.\<close>

definition migrations :: "string list" where
  "migrations =
    [''CREATE TABLE IF NOT EXISTS agents ('' @ [newline, CHR 0x09, CHR 0x09, CHR 0x09] @ ''a'',
     ''CREATE UNIQUE INDEX IF NOT EXISTS idx_ag'',
     ''CREATE TABLE IF NOT EXISTS policies ('' @ [newline, CHR 0x09, CHR 0x09],
     ''CREATE TABLE IF NOT EXISTS quotas ('' @ [newline, CHR 0x09, CHR 0x09, CHR 0x09] @ ''a'']"

fun migrateLoop :: "sql_faults \<Rightarrow> string list \<Rightarrow> error option" where
  "migrateLoop F [] = None"
| "migrateLoop F (s # stmts) = (case sf_exec F s of
     Some e \<Rightarrow> Some (''exec '' @ fmt_q s @ '': '' @ e)
   | None \<Rightarrow> migrateLoop F stmts)"

definition migrate :: "sql_faults \<Rightarrow> error option" where
  "migrate F = migrateLoop F migrations"

text \<open>The tables that the file holds already are an argument: the statements keep existing ones.\<close>

definition OpenDB :: "sql_faults \<Rightarrow> string \<Rightarrow> DB \<Rightarrow> error + DB" where
  "OpenDB F path on_disk = (case sf_open F of
     Some e \<Rightarrow> Inl (''open sqlite '' @ path @ '': '' @ e)
   | None \<Rightarrow> (case sf_exec F ''PRAGMA journal_mode=WAL'' of
       Some e \<Rightarrow> Inl (''set WAL mode: '' @ e)
     | None \<Rightarrow> (case migrate F of
         Some e \<Rightarrow> Inl (''migrate: '' @ e)
       | None \<Rightarrow> Inr on_disk)))"

section \<open>Rows\<close>

fun upsertRow :: "('r \<Rightarrow> string) \<Rightarrow> 'r \<Rightarrow> 'r list \<Rightarrow> 'r list" where
  "upsertRow key r [] = [r]"
| "upsertRow key r (x # rows) = (if key x = key r then r # rows else x # upsertRow key r rows)"

definition deleteRow :: "('r \<Rightarrow> string) \<Rightarrow> string \<Rightarrow> 'r list \<Rightarrow> 'r list" where
  "deleteRow key k rows = filter (\<lambda>r. key r \<noteq> k) rows"

text \<open>The rows that an iteration delivers before it ends, and the error it ends with.\<close>

definition iterate :: "sql_faults \<Rightarrow> 'r list \<Rightarrow> 'r list \<times> error option" where
  "iterate F rows = (case sf_rows F of None \<Rightarrow> (rows, None) | Some (n, e) \<Rightarrow> (take n rows, Some e))"

section \<open>Agents\<close>

definition LoadAgents :: "sql_faults \<Rightarrow> DB \<Rightarrow> Registry \<Rightarrow> error option \<times> Registry" where
  "LoadAgents F d reg = (case sf_query F of
     Some e \<Rightarrow> (Some (''query agents: '' @ e), reg)
   | None \<Rightarrow> (let (rows, err) = iterate F (db_agents d) in (err, fold RegistryAdd rows reg)))"

text \<open>The unique index on \<open>api_key\<close>: no two rows share a key.\<close>

definition SaveAgent :: "sql_faults \<Rightarrow> Agent \<Rightarrow> DB \<Rightarrow> error option \<times> DB" where
  "SaveAgent F a d = (case sf_exec F ''INSERT INTO agents'' of
     Some e \<Rightarrow> (Some e, d)
   | None \<Rightarrow>
      if \<exists>b \<in> set (db_agents d). ag_AgentID b \<noteq> ag_AgentID a \<and> ag_APIKey b = ag_APIKey a then
        (Some ''UNIQUE constraint failed: agents.api_key'', d)
      else (None, d\<lparr>db_agents := upsertRow ag_AgentID a (db_agents d)\<rparr>))"

definition DeleteAgent :: "sql_faults \<Rightarrow> string \<Rightarrow> DB \<Rightarrow> error option \<times> DB" where
  "DeleteAgent F agentID d = (case sf_exec F ''DELETE FROM agents'' of
     Some e \<Rightarrow> (Some e, d)
   | None \<Rightarrow> (None, d\<lparr>db_agents := deleteRow ag_AgentID agentID (db_agents d)\<rparr>))"

section \<open>Policies\<close>

text \<open>A row becomes a rule; domains that do not parse become the empty list.\<close>

definition rowRule :: "string list json \<Rightarrow> policy_row \<Rightarrow> Rule" where
  "rowRule J row =
    \<lparr>ru_PolicyID = pr_PolicyID row, ru_AgentID = pr_AgentID row,
     ru_Domains = (case unmarshal J (pr_Domains row) of Inl _ \<Rightarrow> [] | Inr ds \<Rightarrow> ds),
     ru_Methods = [], ru_PathPrefixes = [], ru_Conditions = [], ru_Action = pr_Action row\<rparr>"

definition LoadPolicies :: "string list json \<Rightarrow> sql_faults \<Rightarrow> DB \<Rightarrow> Engine \<Rightarrow> error option \<times> Engine" where
  "LoadPolicies J F d eng = (case sf_query F of
     Some e \<Rightarrow> (Some (''query policies: '' @ e), eng)
   | None \<Rightarrow> (let (rows, err) = iterate F (db_policies d) in (err, fold (\<lambda>row. EngineAdd (rowRule J row)) rows eng)))"

definition SavePolicy :: "string list json \<Rightarrow> sql_faults \<Rightarrow> Rule \<Rightarrow> DB \<Rightarrow> error option \<times> DB" where
  "SavePolicy J F r d = (case marshal J (ru_Domains r) of
     Inl e \<Rightarrow> (Some (''marshal domains: '' @ e), d)
   | Inr domainsJSON \<Rightarrow> (case sf_exec F ''INSERT INTO policies'' of
       Some e \<Rightarrow> (Some e, d)
     | None \<Rightarrow> (None, d\<lparr>db_policies := upsertRow pr_PolicyID
         \<lparr>pr_PolicyID = ru_PolicyID r, pr_AgentID = ru_AgentID r, pr_Domains = domainsJSON, pr_Action = ru_Action r\<rparr>
         (db_policies d)\<rparr>)))"

definition DeletePolicy :: "sql_faults \<Rightarrow> string \<Rightarrow> DB \<Rightarrow> error option \<times> DB" where
  "DeletePolicy F policyID d = (case sf_exec F ''DELETE FROM policies'' of
     Some e \<Rightarrow> (Some e, d)
   | None \<Rightarrow> (None, d\<lparr>db_policies := deleteRow pr_PolicyID policyID (db_policies d)\<rparr>))"

section \<open>Quotas\<close>

text \<open>Each \<open>Set\<close> reads the clock: the readings are a list-indexed function.\<close>

fun setAll :: "(nat \<Rightarrow> int) \<Rightarrow> nat \<Rightarrow> Limit list \<Rightarrow> Limiter \<Rightarrow> Limiter" where
  "setAll clk i [] l = l"
| "setAll clk i (q # qs) l = setAll clk (Suc i) qs (LimiterSet (clk i) q l)"

definition LoadQuotas :: "sql_faults \<Rightarrow> (nat \<Rightarrow> int) \<Rightarrow> DB \<Rightarrow> Limiter \<Rightarrow> error option \<times> Limiter" where
  "LoadQuotas F clk d l = (case sf_query F of
     Some e \<Rightarrow> (Some (''query quotas: '' @ e), l)
   | None \<Rightarrow> (let (rows, err) = iterate F (db_quotas d) in (err, setAll clk 0 rows l)))"

definition SaveQuota :: "sql_faults \<Rightarrow> Limit \<Rightarrow> DB \<Rightarrow> error option \<times> DB" where
  "SaveQuota F q d = (case sf_exec F ''INSERT INTO quotas'' of
     Some e \<Rightarrow> (Some e, d)
   | None \<Rightarrow> (None, d\<lparr>db_quotas := upsertRow li_AgentID q (db_quotas d)\<rparr>))"

definition DeleteQuota :: "sql_faults \<Rightarrow> string \<Rightarrow> DB \<Rightarrow> error option \<times> DB" where
  "DeleteQuota F agentID d = (case sf_exec F ''DELETE FROM quotas'' of
     Some e \<Rightarrow> (Some e, d)
   | None \<Rightarrow> (None, d\<lparr>db_quotas := deleteRow li_AgentID agentID (db_quotas d)\<rparr>))"

section \<open>The tables are keyed stores\<close>

definition find_row :: "('r \<Rightarrow> string) \<Rightarrow> 'r list \<Rightarrow> string \<Rightarrow> 'r option" where
  "find_row key rows k = find (\<lambda>r. key r = k) rows"

lemma find_upsert:
  "find_row key (upsertRow key r rows) k = (if k = key r then Some r else find_row key rows k)"
  by (induction rows) (auto simp: find_row_def)

lemma find_delete: "find_row key (deleteRow key k rows) k' = (if k' = k then None else find_row key rows k')"
  by (induction rows) (auto simp: find_row_def deleteRow_def)

lemma keys_upsert: "map key (upsertRow key r rows) =
    (if key r \<in> set (map key rows) then map key rows else map key rows @ [key r])"
  by (induction rows) auto

lemma keys_delete: "map key (deleteRow key k rows) = filter (\<lambda>x. x \<noteq> k) (map key rows)"
  by (simp add: deleteRow_def filter_map comp_def)

text \<open>
  Rows under their primary key, with an upsert and a delete. Whether a delete removed a row is not
  reported by the code; the interface asks for it, so the interpretation computes it from the table.
\<close>

interpretation sql_rows: keyed_store "find_row key" "upsertRow key"
  "\<lambda>k rows. (find_row key rows k \<noteq> None, deleteRow key k rows)" key "\<lambda>r. r" "\<lambda>rows. distinct (map key rows)"
  for key :: "'r \<Rightarrow> string"
  by unfold_locales (simp_all add: find_upsert find_delete keys_upsert keys_delete)

end
