(* ===== verification/Store_Props.thy ===== *)
theory Store_Props
  imports Store_Sqlite Policy_Props
begin

text \<open>
  What survives a round trip through the SQLite store, table by table, and what a rule loses there.
\<close>

section \<open>Policies\<close>

text \<open>The rule that a row can hold: no methods, no path prefixes, no conditions.\<close>

definition columns_only :: "Rule \<Rightarrow> Rule" where
  "columns_only r = r\<lparr>ru_Methods := [], ru_PathPrefixes := [], ru_Conditions := []\<rparr>"

definition save_policies :: "string list json \<Rightarrow> Rule list \<Rightarrow> DB \<Rightarrow> DB" where
  "save_policies J rs d = fold (\<lambda>r d. snd (SavePolicy J no_sql_faults r d)) rs d"

lemma upsertRow_new: "key r \<notin> set (map key rows) \<Longrightarrow> upsertRow key r rows = rows @ [r]"
  by (induction rows) auto

lemma replaceOrAppend_new: "ru_PolicyID r \<notin> set (map ru_PolicyID rs) \<Longrightarrow> replaceOrAppend r rs = rs @ [r]"
  by (induction rs) auto

lemma load_rows:
  "distinct (map ru_PolicyID (en_rules e) @ map pr_PolicyID rows) \<Longrightarrow>
     en_rules (fold (\<lambda>row. EngineAdd (rowRule J row)) rows e) = en_rules e @ map (rowRule J) rows"
proof (induction rows arbitrary: e)
  case (Cons row rows)
  have "en_rules (EngineAdd (rowRule J row) e) = en_rules e @ [rowRule J row]"
    using Cons.prems by (simp add: EngineAdd_def replaceOrAppend_new rowRule_def)
  then show ?case using Cons.IH [of "EngineAdd (rowRule J row) e"] Cons.prems by (simp add: rowRule_def)
qed simp

lemma save_rows:
  assumes "\<forall>r \<in> set rs. \<exists>t. marshal J (ru_Domains r) = Inr t \<and> unmarshal J t = Inr (ru_Domains r)"
    and "distinct (map pr_PolicyID (db_policies d) @ map ru_PolicyID rs)"
  shows "\<exists>rows. db_policies (save_policies J rs d) = db_policies d @ rows \<and> map (rowRule J) rows = map columns_only rs \<and>
     map pr_PolicyID rows = map ru_PolicyID rs"
  using assms
proof (induction rs arbitrary: d)
  case Nil
  then show ?case by (simp add: save_policies_def)
next
  case (Cons r rs)
  then obtain t where t: "marshal J (ru_Domains r) = Inr t" "unmarshal J t = Inr (ru_Domains r)" by auto
  define row where "row = \<lparr>pr_PolicyID = ru_PolicyID r, pr_AgentID = ru_AgentID r, pr_Domains = t, pr_Action = ru_Action r\<rparr>"
  have s: "snd (SavePolicy J no_sql_faults r d) = d\<lparr>db_policies := db_policies d @ [row]\<rparr>"
    using Cons.prems(2) t by (simp add: SavePolicy_def no_sql_faults_def row_def upsertRow_new)
  have rr: "rowRule J row = columns_only r"
    using t(2) by (simp add: rowRule_def row_def columns_only_def)
  have "\<exists>rows. db_policies (save_policies J rs (d\<lparr>db_policies := db_policies d @ [row]\<rparr>)) =
        (db_policies d @ [row]) @ rows \<and> map (rowRule J) rows = map columns_only rs \<and> map pr_PolicyID rows = map ru_PolicyID rs"
    using Cons.IH [of "d\<lparr>db_policies := db_policies d @ [row]\<rparr>"] Cons.prems by (simp add: row_def)
  then obtain rows where "db_policies (save_policies J rs (d\<lparr>db_policies := db_policies d @ [row]\<rparr>)) =
      db_policies d @ row # rows" "map (rowRule J) rows = map columns_only rs" "map pr_PolicyID rows = map ru_PolicyID rs"
    by auto
  then show ?case
    using s rr by (intro exI [of _ "row # rows"]) (simp add: save_policies_def row_def)
qed

definition fresh_db :: DB where
  "fresh_db = \<lparr>db_agents = [], db_policies = [], db_quotas = []\<rparr>"

text \<open>
  C29: what the database keeps of a policy. Rules with distinct ids that are saved to a fresh database
  and loaded into an empty engine come back in the same order, with their agent, domains and action,
  and without their methods, path prefixes and conditions: the list comes back unchanged exactly when
  no rule has any. A rule that allowed one method of one path then allows everything on its domains.
\<close>

theorem sqlite_policies_roundtrip:
  assumes "\<forall>r \<in> set rs. \<exists>t. marshal J (ru_Domains r) = Inr t \<and> unmarshal J t = Inr (ru_Domains r)"
    and "distinct (map ru_PolicyID rs)" and "en_rules e = []"
  shows "fst (LoadPolicies J no_sql_faults (save_policies J rs fresh_db) e) = None \<and>
     en_rules (snd (LoadPolicies J no_sql_faults (save_policies J rs fresh_db) e)) = map columns_only rs \<and>
     (en_rules (snd (LoadPolicies J no_sql_faults (save_policies J rs fresh_db) e)) = rs \<longleftrightarrow>
      (\<forall>r \<in> set rs. ru_Methods r = [] \<and> ru_PathPrefixes r = [] \<and> ru_Conditions r = []))"
proof -
  obtain rows where rows: "db_policies (save_policies J rs fresh_db) = rows"
    "map (rowRule J) rows = map columns_only rs" "map pr_PolicyID rows = map ru_PolicyID rs"
    using save_rows [of rs J fresh_db] assms(1,2) by (auto simp: fresh_db_def)
  have l: "LoadPolicies J no_sql_faults (save_policies J rs fresh_db) e =
      (None, fold (\<lambda>row. EngineAdd (rowRule J row)) rows e)"
    by (simp add: LoadPolicies_def no_sql_faults_def iterate_def rows(1))
  have r: "en_rules (fold (\<lambda>row. EngineAdd (rowRule J row)) rows e) = map columns_only rs"
    using load_rows [of e rows J] assms(2,3) rows by simp
  have "columns_only x = x \<longleftrightarrow> ru_Methods x = [] \<and> ru_PathPrefixes x = [] \<and> ru_Conditions x = []" for x
    by (cases x) (auto simp: columns_only_def)
  then have "map columns_only rs = rs \<longleftrightarrow> (\<forall>r \<in> set rs. ru_Methods r = [] \<and> ru_PathPrefixes r = [] \<and> ru_Conditions r = [])"
    by (induction rs) auto
  with l r show ?thesis by simp
qed

definition plain_json :: "string list json" where
  "plain_json = \<lparr>marshal = (\<lambda>ds. Inr (Join ds '',''))
     , unmarshal = (\<lambda>t. if t = ''?'' then Inl ''invalid'' else Inr (SplitByte CHR '','' t))\<rparr>"

definition read_only :: Rule where
  "read_only = (mk_rule ''ro'' ''*'' [''api.com''] ''allow'')\<lparr>ru_Methods := [''GET'']\<rparr>"

text \<open>Before the round trip a \<open>DELETE\<close> is denied, after it it is allowed.\<close>

theorem sqlite_policies_roundtrip_witness:
  "de_Action (EvaluateRich ascii_only \<lparr>en_rules = [read_only], en_path = []\<rparr> ((plain_ctx ''a'' ''api.com'')\<lparr>rc_Method := ''DELETE''\<rparr>)) = ''deny'' \<and>
   en_rules (snd (LoadPolicies plain_json no_sql_faults (save_policies plain_json [read_only] fresh_db) \<lparr>en_rules = [], en_path = []\<rparr>)) =
     [columns_only read_only] \<and>
   de_Action (EvaluateRich ascii_only \<lparr>en_rules = [columns_only read_only], en_path = []\<rparr>
      ((plain_ctx ''a'' ''api.com'')\<lparr>rc_Method := ''DELETE''\<rparr>)) = ''allow''"
proof (intro conjI)
  have "\<forall>r \<in> set [read_only]. \<exists>t. marshal plain_json (ru_Domains r) = Inr t \<and> unmarshal plain_json t = Inr (ru_Domains r)"
    by (simp add: plain_json_def read_only_def mk_rule_def)
  then show "en_rules (snd (LoadPolicies plain_json no_sql_faults (save_policies plain_json [read_only] fresh_db)
      \<lparr>en_rules = [], en_path = []\<rparr>)) = [columns_only read_only]"
    using sqlite_policies_roundtrip [of "[read_only]" plain_json "\<lparr>en_rules = [], en_path = []\<rparr>"] by simp
qed code_simp+

text \<open>
  a damaged policy row opens the policy. Domains that do not parse are read as the empty list, and
  a rule without domains applies to every host: loaded into an empty engine, such a row decides every
  request of its agent by its action.
\<close>

theorem sqlite_damaged_row_matches_all:
  assumes "unmarshal J (pr_Domains row) = Inl err" and "pr_AgentID row \<in> {''*'', [], rc_AgentID ctx}"
    and "en_rules e = []" and "db_policies d = [row]"
  shows "de_Action (EvaluateRich U (snd (LoadPolicies J no_sql_faults d e)) ctx) = pr_Action row"
proof -
  have "en_rules (snd (LoadPolicies J no_sql_faults d e)) = [rowRule J row]"
    using load_rows [of e "[row]" J] assms(3,4) by (simp add: LoadPolicies_def no_sql_faults_def iterate_def)
  moreover have "ruleApplies U h ctx (rowRule J row)" for h
    using assms(1,2) by (simp add: ruleApplies_def rowRule_def)
  ultimately show ?thesis by (simp add: EvaluateRich_def Let_def evalLoop_step ruleDecision_def rowRule_def)
qed

theorem sqlite_damaged_row_matches_all_witness:
  "de_Action (EvaluateRich ascii_only (snd (LoadPolicies plain_json no_sql_faults
     (fresh_db\<lparr>db_policies := [\<lparr>pr_PolicyID = ''p'', pr_AgentID = ''*'', pr_Domains = ''?'', pr_Action = ''allow''\<rparr>]\<rparr>)
     \<lparr>en_rules = [], en_path = []\<rparr>)) (plain_ctx ''a'' ''anything.com'')) = ''allow''"
  using sqlite_damaged_row_matches_all [of plain_json
      "\<lparr>pr_PolicyID = ''p'', pr_AgentID = ''*'', pr_Domains = ''?'', pr_Action = ''allow''\<rparr>" "''invalid''"]
  by (simp add: plain_json_def)

section \<open>Agents and quotas\<close>

text \<open>An agent that was saved is found after a load, under its id and, while it is active, under its key.\<close>

lemma sqlite_agent_loaded:
  assumes "registry_ok reg" and "distinct (map ag_AgentID (db_agents d))" and "a \<in> set (db_agents d)"
  shows "RegistryLookupByID (snd (LoadAgents no_sql_faults d reg)) (ag_AgentID a) = Some a"
  using agent_store.lookup_fold_add_distinct [OF assms]
  by (simp add: LoadAgents_def no_sql_faults_def iterate_def)

text \<open>A load only adds: an agent deleted from the database stays in a registry that holds it.\<close>

lemma sqlite_load_keeps_deleted:
  assumes "registry_ok reg" and "ag_AgentID a \<notin> ag_AgentID ` set (db_agents d)"
    and "RegistryLookupByID reg (ag_AgentID a) = Some a"
  shows "RegistryLookupByID (snd (LoadAgents no_sql_faults d reg)) (ag_AgentID a) = Some a"
proof -
  have "find (\<lambda>v. ag_AgentID v = ag_AgentID a) (rev (db_agents d)) = None"
    using assms(2) unfolding find_None_iff set_rev image_iff by metis
  then show ?thesis
    using agent_store.lookup_fold_add [OF assms(1), of "db_agents d" "ag_AgentID a"] assms(3)
    by (simp add: LoadAgents_def no_sql_faults_def iterate_def)
qed

text \<open>Two agents never share a key in the table.\<close>

lemma sqlite_keys_unique:
  assumes "inj_on ag_APIKey (set (db_agents d))" and "distinct (map ag_AgentID (db_agents d))"
  shows "inj_on ag_APIKey (set (db_agents (snd (SaveAgent F a d))))"
proof -
  have *: "set (upsertRow ag_AgentID a rows) \<subseteq> insert a {b \<in> set rows. ag_AgentID b \<noteq> ag_AgentID a}"
    if "distinct (map ag_AgentID rows)" for rows
    using that by (induction rows) (auto simp: image_iff)
  show ?thesis
  proof (cases "\<exists>b \<in> set (db_agents d). ag_AgentID b \<noteq> ag_AgentID a \<and> ag_APIKey b = ag_APIKey a")
    case False
    then have "inj_on ag_APIKey (insert a {b \<in> set (db_agents d). ag_AgentID b \<noteq> ag_AgentID a})"
      using assms(1) by (auto simp: inj_on_def)
    from inj_on_subset [OF this * [OF assms(2)]] show ?thesis
      using assms(1) by (cases "sf_exec F ''INSERT INTO agents''") (auto simp: SaveAgent_def)
  qed (use assms(1) in \<open>auto simp: SaveAgent_def split: option.splits\<close>)
qed

end
