(* ===== verification/Service_Config.thy ===== *)
theory Service_Config
  imports Go_Files
begin

text \<open>
  The service configuration (internal/config/config.go) and the mutual-TLS settings
  (internal/security/mtls.go). The strict JSON decoder, which fills a record that already holds the
  defaults and may leave it partly filled when it fails, is a parameter; so are the certificate
  functions of the TLS library.
\<close>

section \<open>config.go\<close>

record GatewayConfig =
  gc_Listen :: string
  gc_ReadTimeout :: int
  gc_WriteTimeout :: int

record AdminAPIConfig =
  ac_Listen :: string
  ac_UIPath :: string
  ac_StateDir :: string

record FilesConfig =
  fc_Agents :: string
  fc_Policy :: string
  fc_Quotas :: string
  fc_Audit :: string
  fc_SQLite :: string

record Config =
  cf_Gateway :: GatewayConfig
  cf_AdminAPI :: AdminAPIConfig
  cf_Files :: FilesConfig

definition Defaults :: Config where
  "Defaults =
    \<lparr>cf_Gateway = \<lparr>gc_Listen = '':3128'', gc_ReadTimeout = 60, gc_WriteTimeout = 0\<rparr>,
     cf_AdminAPI = \<lparr>ac_Listen = '':8080'', ac_UIPath = ''/ui/'', ac_StateDir = ''/var/lib/clawgress/state''\<rparr>,
     cf_Files = \<lparr>fc_Agents = ''/etc/clawgress/agents.json'', fc_Policy = ''/etc/clawgress/policy.json'',
       fc_Quotas = ''/etc/clawgress/quotas.json'', fc_Audit = ''/var/log/clawgress/audit.jsonl'', fc_SQLite = []\<rparr>\<rparr>"

definition validate :: "Config \<Rightarrow> error option" where
  "validate cfg =
    (if gc_Listen (cf_Gateway cfg) = [] then Some ''gateway.listen must not be empty''
     else if ac_Listen (cf_AdminAPI cfg) = [] then Some ''admin_api.listen must not be empty''
     else if gc_ReadTimeout (cf_Gateway cfg) < 0 then Some ''gateway.read_timeout_s must be >= 0''
     else if gc_WriteTimeout (cf_Gateway cfg) < 0 then Some ''gateway.write_timeout_s must be >= 0''
     else if fc_Agents (cf_Files cfg) = [] then Some ''files.agents must not be empty''
     else if fc_Policy (cf_Files cfg) = [] then Some ''files.policy must not be empty''
     else if fc_Audit (cf_Files cfg) = [] then Some ''files.audit must not be empty''
     else None)"

definition LoadConfig :: "(string \<Rightarrow> Config \<Rightarrow> Config \<times> error option) \<Rightarrow> faults \<Rightarrow> fs \<Rightarrow> string \<Rightarrow> Config \<times> error option" where
  "LoadConfig decode F fs path =
    (let cfg = Defaults in
     if path = [] then (cfg, None)
     else (case ReadFile F fs path of
       RNotExist \<Rightarrow> (cfg, None)
     | RError e \<Rightarrow> (cfg, Some (''read config '' @ path @ '': '' @ e))
     | RData d \<Rightarrow> (case decode d cfg of
         (cfg, Some e) \<Rightarrow> (cfg, Some (''parse config '' @ path @ '': '' @ e))
       | (cfg, None) \<Rightarrow> (case validate cfg of
           Some e \<Rightarrow> (cfg, Some (''validate config '' @ path @ '': '' @ e))
         | None \<Rightarrow> (cfg, None)))))"

text \<open>A configuration that loads without an error is a valid one, whatever the decoder did.\<close>

lemma loaded_config_valid: "snd (LoadConfig decode F fs path) = None \<Longrightarrow> validate (fst (LoadConfig decode F fs path)) = None"
  by (auto simp: LoadConfig_def Let_def Defaults_def validate_def [of "\<lparr>cf_Gateway = g, cf_AdminAPI = a, cf_Files = f\<rparr>" for g a f]
      split: read_result.splits prod.splits option.splits if_splits)

section \<open>mtls.go\<close>

record MTLSConfig =
  mt_CertFile :: string
  mt_KeyFile :: string
  mt_CAFile :: string

text \<open>The fields of \<open>tls.Config\<close> that the code sets; certificates and pools are the library's values.\<close>

datatype cipher = ECDHE_ECDSA_AES256_GCM | ECDHE_RSA_AES256_GCM | ECDHE_ECDSA_AES128_GCM | ECDHE_RSA_AES128_GCM

record ('cert, 'pool) tls_config =
  tl_Certificates :: "'cert list"
  tl_MinVersion12 :: bool
  tl_CipherSuites :: "cipher list"
  tl_ClientCAs :: "'pool option"
  tl_RequireAndVerifyClientCert :: bool

record ('cert, 'pool) tls_env =
  te_LoadX509KeyPair :: "string \<Rightarrow> string \<Rightarrow> error + 'cert"
  te_PoolFromPEM :: "string \<Rightarrow> 'pool option"

definition NewTLSConfig :: "('cert, 'pool) tls_env \<Rightarrow> faults \<Rightarrow> fs \<Rightarrow> MTLSConfig \<Rightarrow> error + ('cert, 'pool) tls_config" where
  "NewTLSConfig E F fs cfg = (case te_LoadX509KeyPair E (mt_CertFile cfg) (mt_KeyFile cfg) of
     Inl e \<Rightarrow> Inl (''load server cert: '' @ e)
   | Inr cert \<Rightarrow>
      (let tlsCfg = \<lparr>tl_Certificates = [cert], tl_MinVersion12 = True,
             tl_CipherSuites = [ECDHE_ECDSA_AES256_GCM, ECDHE_RSA_AES256_GCM, ECDHE_ECDSA_AES128_GCM, ECDHE_RSA_AES128_GCM],
             tl_ClientCAs = None, tl_RequireAndVerifyClientCert = False\<rparr> in
       if mt_CAFile cfg \<noteq> [] then
         (case ReadFile F fs (mt_CAFile cfg) of
           RNotExist \<Rightarrow> Inl (''read CA cert: '' @ ''no such file'')
         | RError e \<Rightarrow> Inl (''read CA cert: '' @ e)
         | RData caPEM \<Rightarrow> (case te_PoolFromPEM E caPEM of
             None \<Rightarrow> Inl ''no valid certs in CA file''
           | Some pool \<Rightarrow> Inr (tlsCfg\<lparr>tl_ClientCAs := Some pool, tl_RequireAndVerifyClientCert := True\<rparr>)))
       else Inr tlsCfg))"

text \<open>\<open>os.Stat\<close>: the error for a path that does not exist, or that cannot be examined.\<close>

definition Stat :: "faults \<Rightarrow> fs \<Rightarrow> string \<Rightarrow> error option" where
  "Stat F fs p = (case f_read F p of Some e \<Rightarrow> Some e
     | None \<Rightarrow> (case fs p of None \<Rightarrow> Some ''no such file'' | Some _ \<Rightarrow> None))"

fun statLoop :: "faults \<Rightarrow> fs \<Rightarrow> (string \<times> string) list \<Rightarrow> error option" where
  "statLoop F fs [] = None"
| "statLoop F fs ((name, path) # files) =
    (if path = [] then Some (name @ '' file path is empty'')
     else (case Stat F fs path of
       Some e \<Rightarrow> Some (name @ '' file '' @ path @ '': '' @ e)
     | None \<Rightarrow> statLoop F fs files))"

definition ValidateMTLSConfig :: "faults \<Rightarrow> fs \<Rightarrow> MTLSConfig \<Rightarrow> error option" where
  "ValidateMTLSConfig F fs cfg =
    (case statLoop F fs [(''cert'', mt_CertFile cfg), (''key'', mt_KeyFile cfg)] of
       Some e \<Rightarrow> Some e
     | None \<Rightarrow>
        if mt_CAFile cfg \<noteq> [] then
          (case Stat F fs (mt_CAFile cfg) of
            Some e \<Rightarrow> Some (''CA file '' @ mt_CAFile cfg @ '': '' @ e)
          | None \<Rightarrow> None)
        else None)"

text \<open>
  Clients are verified exactly when a CA file is configured, and then the pool is the one of that file;
  a CA file that is missing, unreadable or without certificates is an error, never a fallback to
  unverified clients.
\<close>

lemma mtls_client_verification:
  assumes "NewTLSConfig E F fs cfg = Inr t"
  shows "tl_RequireAndVerifyClientCert t \<longleftrightarrow> mt_CAFile cfg \<noteq> []"
    and "mt_CAFile cfg \<noteq> [] \<Longrightarrow> \<exists>pem pool. fs (mt_CAFile cfg) = Some pem \<and> te_PoolFromPEM E pem = Some pool \<and>
      tl_ClientCAs t = Some pool"
  using assms
  by (auto simp: NewTLSConfig_def ReadFile_def Let_def split: sum.splits if_splits option.splits read_result.splits)

end
