(* ===== verification/Admin_Props.thy ===== *)
theory Admin_Props
  imports Admin_Api
begin

text \<open>
  The admin API on its own: routing, reads that change nothing, and the tables that stay valid under
  every sequence of requests.
\<close>

section \<open>Every request is a handler or changes nothing\<close>

lemma dispatch_cases:
  "(\<exists>resp. dispatch path E C r s = (resp, [], s)) \<or>
   (\<exists>(p, h) \<in> set (routes @ subtrees). dispatch path E C r s = h E C r s)"
proof (cases "map_of routes path")
  case None
  show ?thesis
  proof (cases "find (\<lambda>(p, h). HasPrefix path p) subtrees")
    case Some
    with None show ?thesis using find_SomeD [OF Some]
      by (auto simp only: dispatch_def option.case prod.case set_append Un_iff split: prod.split)
  next
    case no: None
    show ?thesis unfolding dispatch_def None no option.case by blast
  qed
next
  case (Some h)
  from map_of_SomeD [OF this] show ?thesis unfolding dispatch_def Some option.case by auto
qed

lemma serve_admin_dispatch:
  "(\<exists>resp. serve_admin E C r s = (resp, [], s) \<and> re_Status resp = 301) \<or>
   serve_admin E C r s = dispatch (ar_Path r) E C r s"
proof (cases "(if ar_Method r = ''CONNECT'' then ar_Path r else cleanPath (ar_Path r)) \<noteq> ar_Path r")
  case True
  then show ?thesis unfolding serve_admin_def Let_def if_P [OF True] by (simp add: writeJSON_def)
next
  case False
  then have p: "(if ar_Method r = ''CONNECT'' then ar_Path r else cleanPath (ar_Path r)) = ar_Path r" by (rule notnotD)
  show ?thesis unfolding serve_admin_def Let_def p by simp
qed

lemma serve_admin_all:
  assumes "\<And>resp. Q (resp, [], s)" and "\<And>p h. (p, h) \<in> set (routes @ subtrees) \<Longrightarrow> Q (h E C r s)"
  shows "Q (serve_admin E C r s)"
proof -
  have d: "Q (dispatch path E C r s)" for path
    using dispatch_cases [of path E C r s]
  proof
    assume "\<exists>resp. dispatch path E C r s = (resp, [], s)"
    then obtain resp where "dispatch path E C r s = (resp, [], s)" ..
    with assms(1) show ?thesis by (simp only:)
  next
    assume "\<exists>(p, h) \<in> set (routes @ subtrees). dispatch path E C r s = h E C r s"
    then obtain p h where "(p, h) \<in> set (routes @ subtrees)" "dispatch path E C r s = h E C r s"
      by (elim bexE) (simp only: split_paired_all prod.case)
    with assms(2) show ?thesis by (simp only:)
  qed
  from serve_admin_dispatch [of E C r s] show ?thesis
  proof
    assume "\<exists>resp. serve_admin E C r s = (resp, [], s) \<and> re_Status resp = 301"
    then obtain resp where "serve_admin E C r s = (resp, [], s)" by blast
    with assms(1) show ?thesis by (simp only:)
  qed (simp only: d)
qed

lemma route_names: "map fst routes =
    [''/healthz'', ''/metrics'', ''/v1/opmode/configure'', ''/v1/opmode/commit'', ''/v1/opmode/state'',
     ''/v1/agents'', ''/v1/policies'', ''/v1/quotas'', ''/v1/audit'', ''/v1/policy/sign'', ''/v1/policy/verify'',
     ''/v1/policy/conflicts'', ''/v1/nft/render'', ''/v1/nft/transparent'', ''/v1/rpz/generate'', ''/v1/rpz/preview'',
     ''/v1/rpz/named-conf'', ''/v1/config/validate'', ''/ui'']"
  by (simp only: routes_def list.map fst_conv)

lemma agent_path_route: "map_of routes (''/v1/agents/'' @ i) = None"
proof -
  have "''/v1/agents/'' @ i \<notin> set (map fst routes)" unfolding route_names by simp
  then show ?thesis by (simp only: map_of_eq_None_iff set_map not_False_eq_True)
qed

lemma dispatch_agent: "dispatch (''/v1/agents/'' @ i) E C r s = handleAgent E C r s"
  unfolding dispatch_def agent_path_route subtrees_def
  by (simp only: option.case find.simps prod.case HasPrefix_append if_True)

lemma dispatch_policies: "dispatch ''/v1/policies'' E C r s = handlePolicies E C r s"
  unfolding dispatch_def routes_def by (simp del: map_of_eq_None_iff)

section \<open>Reads change nothing\<close>

lemmas api_handlers = handleHealthz_def handleConfigure_def handleCommit_def handleState_def handleAgents_def
  handleAgent_def handlePolicies_def handlePolicy_def handleQuotas_def handleQuota_def handleAudit_def
  handleSign_def handleVerify_def handleConflicts_def handleNftRender_def handleNftTransparent_def
  handleRpzGenerate_def handleRpzPreview_def handleNamedConf_def handleValidate_def

text \<open>The handlers, one by one.\<close>

lemma all_handlers:
  assumes "\<And>payload n. Q (\<lambda>E C r s. (writeJSON n payload, [], s))"
    and "Q handleHealthz" "Q handleConfigure" "Q handleCommit" "Q handleState" "Q handleAgents" "Q handleAgent"
    "Q handlePolicies" "Q handlePolicy" "Q handleQuotas" "Q handleQuota" "Q handleAudit" "Q handleSign"
    "Q handleVerify" "Q handleConflicts" "Q handleNftRender" "Q handleNftTransparent" "Q handleRpzGenerate"
    "Q handleRpzPreview" "Q handleNamedConf" "Q handleValidate"
    and "(p, h) \<in> set (routes @ subtrees)"
  shows "Q h"
proof -
  have "h \<in> snd ` set (routes @ subtrees)" using assms(22) by force
  then show ?thesis unfolding routes_def subtrees_def using assms(1-21)
    by (simp only: append.simps list.set image_insert image_empty snd_conv insert_iff empty_iff) (elim disjE; simp only:)
qed

lemma handler_reads:
  assumes "(p, h) \<in> set (routes @ subtrees)" and "ar_Method r \<notin> {''POST'', ''DELETE''}"
  shows "snd (h E C r s) = ([], s)"
proof (rule all_handlers [OF _ _ _ _ _ _ _ _ _ _ _ _ _ _ _ _ _ _ _ _ _ assms(1)])
  have post: "(ar_Method r = ''POST'') = False" "(ar_Method r \<noteq> ''POST'') = True" "(ar_Method r = ''DELETE'') = False"
    using assms(2) by simp_all
  show "snd (handleConfigure E C r s) = ([], s)" "snd (handleCommit E C r s) = ([], s)"
    "snd (handleSign E C r s) = ([], s)" "snd (handleVerify E C r s) = ([], s)"
    "snd (handleRpzGenerate E C r s) = ([], s)" "snd (handleAgents E C r s) = ([], s)"
    "snd (handlePolicies E C r s) = ([], s)" "snd (handleQuotas E C r s) = ([], s)"
    unfolding handleConfigure_def handleCommit_def handleSign_def handleVerify_def handleRpzGenerate_def
      handleAgents_def handlePolicies_def handleQuotas_def post
    by (simp_all only: if_True if_False snd_conv split: if_split) simp_all
  show "snd (handleAgent E C r s) = ([], s)" "snd (handlePolicy E C r s) = ([], s)" "snd (handleQuota E C r s) = ([], s)"
    unfolding handleAgent_def handlePolicy_def handleQuota_def Let_def post
    by (simp_all split: option.split)
  show "snd (handleState E C r s) = ([], s)" "snd (handleAudit E C r s) = ([], s)"
    by (simp_all add: handleState_def handleAudit_def split: sum.split prod.split option.split)
  show "snd (handleConflicts E C r s) = ([], s)" "snd (handleNftRender E C r s) = ([], s)"
    "snd (handleNftTransparent E C r s) = ([], s)" "snd (handleRpzPreview E C r s) = ([], s)"
    "snd (handleNamedConf E C r s) = ([], s)" "snd (handleValidate E C r s) = ([], s)"
    "snd (handleHealthz E C r s) = ([], s)"
    by (simp_all only: handleConflicts_def handleNftRender_def handleNftTransparent_def handleRpzPreview_def
        handleNamedConf_def handleValidate_def handleHealthz_def Let_def snd_conv split: if_split) simp_all
qed simp

text \<open>
  C38: only \<open>POST\<close> and \<open>DELETE\<close> change anything. A request with another method leaves every table and
  every file as it was and signals nobody, whatever its path and body.
\<close>

theorem admin_reads_change_nothing:
  assumes "ar_Method r \<notin> {''POST'', ''DELETE''}"
  shows "snd (serve_admin E C r s) = ([], s)"
  by (rule serve_admin_all) (simp_all add: handler_reads [OF _ assms])

theorem admin_reads_change_nothing_witness:
  "\<forall>E C s. snd (serve_admin E C \<lparr>ar_Method = ''GET'', ar_Path = ''/v1/agents/a1'', ar_RawQuery = [], ar_Body = []\<rparr> s) = ([], s)"
  using admin_reads_change_nothing [of "\<lparr>ar_Method = ''GET'', ar_Path = ''/v1/agents/a1'', ar_RawQuery = [], ar_Body = []\<rparr>"]
  by simp

section \<open>The tables stay valid\<close>

text \<open>What the tables hold when every entry came through the API.\<close>

definition agent_valid :: "Agent \<Rightarrow> bool" where
  "agent_valid a \<longleftrightarrow> ag_AgentID a \<noteq> [] \<and> ag_APIKey a \<noteq> [] \<and> ag_Status a \<noteq> []"

definition rule_valid :: "Rule \<Rightarrow> bool" where
  "rule_valid r \<longleftrightarrow> ru_PolicyID r \<noteq> [] \<and> ru_AgentID r \<noteq> [] \<and> ru_Action r \<in> {''allow'', ''deny''}"

definition limit_valid :: "Limit \<Rightarrow> bool" where
  "limit_valid m \<longleftrightarrow> li_AgentID m \<noteq> [] \<and> (0 < li_RPS m \<or> 0 < li_RPM m) \<and> li_Mode m \<in> {''hard_stop'', ''alert_only''}"

definition admin_ok :: "admin \<Rightarrow> bool" where
  "admin_ok s \<longleftrightarrow>
     (registry_ok (ad_reg s) \<and> (\<forall>i a. RegistryLookupByID (ad_reg s) i = Some a \<longrightarrow> agent_valid a)) \<and>
     (engine_ok (ad_eng s) \<and> (\<forall>r \<in> set (Rules (ad_eng s)). rule_valid r)) \<and>
     (tables_ok (ad_lim s) \<and> (\<forall>i m. LimiterLookupByID (ad_lim s) i = Some m \<longrightarrow> limit_valid m))"

lemma admin_ok_fs [simp]: "admin_ok (s\<lparr>ad_fs := f\<rparr>) = admin_ok s"
  by (simp add: admin_ok_def)

lemma admin_ok_add_agent: "admin_ok s \<Longrightarrow> agent_valid a \<Longrightarrow> admin_ok (s\<lparr>ad_reg := RegistryAdd a (ad_reg s)\<rparr>)"
  by (simp add: admin_ok_def agent_store.lookup_add)

lemma admin_ok_remove_agent: "admin_ok s \<Longrightarrow> admin_ok (s\<lparr>ad_reg := snd (RegistryRemove i (ad_reg s))\<rparr>)"
  by (simp add: admin_ok_def agent_store.lookup_remove)

lemma set_replaceOrAppend: "set (replaceOrAppend r rs) \<subseteq> insert r (set rs)"
  by (induction rs) auto

lemma set_removeFirst: "set (snd (removeFirst i rs)) \<subseteq> set rs"
  by (induction rs) (auto split: prod.splits)

lemma admin_ok_add_rule:
  assumes "admin_ok s" and "rule_valid r"
  shows "admin_ok (s\<lparr>ad_eng := EngineAdd r (ad_eng s)\<rparr>)"
proof -
  have "\<forall>q \<in> set (Rules (EngineAdd r (ad_eng s))). rule_valid q"
    using assms set_replaceOrAppend [of r "en_rules (ad_eng s)"] by (auto simp: admin_ok_def Rules_def EngineAdd_def)
  then show ?thesis using assms(1) policy_store.inv_add by (simp add: admin_ok_def)
qed

lemma admin_ok_remove_rule:
  assumes "admin_ok s"
  shows "admin_ok (s\<lparr>ad_eng := snd (EngineRemove i (ad_eng s))\<rparr>)"
proof -
  have "set (Rules (snd (EngineRemove i (ad_eng s)))) \<subseteq> set (Rules (ad_eng s))"
    using set_removeFirst [of i "en_rules (ad_eng s)"] by (simp add: Rules_def EngineRemove_snd)
  then show ?thesis using assms policy_store.inv_remove by (auto simp: admin_ok_def)
qed

lemma admin_ok_set_limit:
  assumes "admin_ok s" and "limit_valid (with_mode m)"
  shows "admin_ok (s\<lparr>ad_lim := LimiterSet now m (ad_lim s)\<rparr>)"
  using assms quota_store.inv_add quota_store.lookup_add by (simp add: admin_ok_def)

lemma admin_ok_remove_limit: "admin_ok s \<Longrightarrow> admin_ok (s\<lparr>ad_lim := snd (LimiterRemove i (ad_lim s))\<rparr>)"
  using quota_store.inv_remove quota_store.lookup_remove by (simp add: admin_ok_def)

lemma limit_valid_checked:
  assumes "li_AgentID m \<noteq> []" and "\<not> (li_RPS m \<le> 0 \<and> li_RPM m \<le> 0)"
    and "\<not> (li_Mode m \<noteq> [] \<and> li_Mode m \<noteq> ''hard_stop'' \<and> li_Mode m \<noteq> ''alert_only'')"
  shows "limit_valid (with_mode m)"
  using assms by (auto simp: limit_valid_def with_mode_def)

lemma persist_ok [simp]: "admin_ok (snd (snd (persist E w ok s))) = admin_ok s"
  by (simp add: persist_def split: prod.split option.split)

lemma runOps_ok: "admin_ok (snd (snd (snd (runOps E C req act resp s)))) = admin_ok s"
  by (simp add: runOps_def Let_def split: option.split prod.split)

lemma runNft_ok: "admin_ok (snd (snd (runNft E C act resp s))) = admin_ok s"
  by (simp add: runNft_def split: option.split prod.split)

lemma afterCommit_ok: "admin_ok (snd (snd (afterCommit E C req resp s))) = admin_ok s"
  by (simp add: afterCommit_def runNft_ok runOps_ok Let_def split_beta split: sum.split option.split)

lemma commit_ok: "admin_ok s \<Longrightarrow> admin_ok (snd (snd (handleCommit E C r s)))"
  by (simp add: handleCommit_def Let_def afterCommit_ok split: sum.split prod.split)

lemma handler_ok:
  assumes "(p, h) \<in> set (routes @ subtrees)" and "admin_ok s"
  shows "admin_ok (snd (snd (h E C r s)))"
proof (rule all_handlers [OF _ _ _ _ _ _ _ _ _ _ _ _ _ _ _ _ _ _ _ _ _ assms(1)])
  show "admin_ok (snd (snd (handleCommit E C r s)))" using commit_ok [OF assms(2)] .
  show "admin_ok (snd (snd (handleAgents E C r s)))"
    using assms(2) by (simp add: handleAgents_def saveAgents_def Let_def admin_ok_add_agent agent_valid_def split: sum.split)
  show "admin_ok (snd (snd (handleAgent E C r s)))"
    using admin_ok_remove_agent [OF assms(2)] assms(2)
    by (simp add: handleAgent_def saveAgents_def Let_def split: sum.split option.split prod.split bool.split) (metis snd_conv)
  show "admin_ok (snd (snd (handlePolicies E C r s)))"
    using assms(2) by (simp add: handlePolicies_def saveRules_def Let_def admin_ok_add_rule rule_valid_def split: sum.split)
  show "admin_ok (snd (snd (handlePolicy E C r s)))"
    using admin_ok_remove_rule [OF assms(2)] assms(2)
    by (simp add: handlePolicy_def saveRules_def Let_def split: sum.split option.split prod.split bool.split) (metis snd_conv)
  show "admin_ok (snd (snd (handleQuotas E C r s)))"
    using assms(2) admin_ok_set_limit [OF assms(2) limit_valid_checked]
    by (simp only: handleQuotas_def saveLimits_def persist_ok snd_conv split: sum.split if_split) blast
  show "admin_ok (snd (snd (handleQuota E C r s)))"
    using admin_ok_remove_limit [OF assms(2)] assms(2)
    by (simp add: handleQuota_def saveLimits_def Let_def split: sum.split option.split prod.split bool.split) (metis snd_conv)
qed (use assms(2) in \<open>simp_all add: api_handlers Let_def split: sum.split prod.split option.split\<close>)

lemma serve_all_ok: "admin_ok s \<Longrightarrow> admin_ok (serve_all C reqs s)"
proof (induction C reqs s rule: serve_all.induct)
  case (2 C E r rs s)
  have "admin_ok (snd (snd (serve_admin E C r s)))"
    by (rule serve_admin_all [where Q = "\<lambda>x. admin_ok (snd (snd x))"]) (simp_all add: handler_ok \<open>admin_ok s\<close>)
  with 2 show ?case by simp
qed simp

lemma two_actions: "\<forall>r \<in> set rs. rule_valid r \<Longrightarrow> de_Action (evalLoop U h ctx rs) \<in> {''allow'', ''deny''}"
  by (induction rs) (simp_all add: evalLoop_step ruleDecision_def rule_valid_def)

text \<open>
  C11: the tables stay valid. However many requests are served, whatever they contain and whichever
  writes fail, ids and keys are not empty, a lookup finds the entry with that id, policy ids are
  distinct, every rule allows or denies (so every decision is one of the two), and every limit
  restricts something in a known mode.
\<close>

theorem admin_tables_stay_valid:
  assumes "admin_ok s"
  shows "admin_ok (serve_all C reqs s) \<and>
    de_Action (EvaluateRich U (ad_eng (serve_all C reqs s)) ctx) \<in> {''allow'', ''deny''}"
proof -
  have ok: "admin_ok (serve_all C reqs s)" by (rule serve_all_ok [OF assms])
  then have "\<forall>r \<in> set (en_rules (ad_eng (serve_all C reqs s))). rule_valid r" by (simp add: admin_ok_def Rules_def)
  with ok show ?thesis by (simp add: EvaluateRich_loop two_actions del: insert_iff)
qed

text \<open>A server that starts without table files.\<close>

definition fresh_admin :: admin where
  "fresh_admin = \<lparr>ad_store = \<lparr>st_baseDir = ''state''\<rparr>,
     ad_reg = \<lparr>rg_byKey = [], rg_byID = [], rg_path = ''agents.json''\<rparr>,
     ad_eng = \<lparr>en_rules = [], en_path = ''policy.json''\<rparr>,
     ad_lim = \<lparr>lm_limits = [], lm_buckets = [], lm_path = ''quotas.json''\<rparr>, ad_fs = (\<lambda>_. None)\<rparr>"

lemma fresh_admin_ok: "admin_ok fresh_admin"
  by (simp add: admin_ok_def fresh_admin_def registry_ok_def engine_ok_def tables_ok_def RegistryLookupByID_def
      LimiterLookupByID_def Rules_def)

theorem admin_tables_stay_valid_witness: "\<forall>C reqs. admin_ok (serve_all C reqs fresh_admin)"
  using admin_tables_stay_valid [OF fresh_admin_ok] by blast

end
