(* ===== verification/Admin_Flows.thy ===== *)
theory Admin_Flows
  imports Admin_Props Gateway_Props Enforcer_Runs Opmode_Props
begin

text \<open>
  The admin API together with the components it drives: what the gateway holds after a deletion and its
  signal, what a refused save leaves in memory, who owns a key that two agents share, and a commit
  whose operations fail.
\<close>

section \<open>Deleting an agent\<close>

lemma signalLoop_sends:
  "s \<in> set ss \<Longrightarrow> Atoi s = Some pid \<Longrightarrow> aw_kill E pid = None \<Longrightarrow> Sighup pid \<in> set (signalLoop E ss)"
  by (induction ss) (auto split: option.splits)

lemma signalGateway_sends:
  assumes "aw_pidof E = (None, out)" and "w \<in> set (Fields (TrimSpace out))" and "Atoi w = Some pid" and "aw_kill E pid = None"
  shows "Sighup pid \<in> set (signalGateway E)"
proof -
  have "TrimSpace out \<noteq> []" using assms(2) by (auto simp: Fields_def)
  then show ?thesis using assms signalLoop_sends [OF assms(2-4)] by (simp add: signalGateway_def)
qed

lemma persist_accepted:
  assumes "persist E w ok s = (resp, effs, s')" and "re_Status resp \<noteq> 500"
  shows "fst w = None \<and> effs = signalGateway E \<and> s' = s\<lparr>ad_fs := snd w\<rparr> \<and> resp = ok"
  using assms by (auto simp: persist_def fail_def writeJSON_def split: prod.splits option.splits)

lemma delete_agent_accepted:
  assumes "handleAgent E C r s = (resp, effs, s')" and "ar_Method r = ''DELETE''" and "ar_Path r = ''/v1/agents/'' @ i"
    and "re_Status resp = 200"
  shows "ad_reg s' = snd (RegistryRemove i (ad_reg s)) \<and> effs = signalGateway E \<and>
     (\<exists>fs. RegistrySave (aw_agents E) (aw_faults E) (ad_reg s') fs = (None, ad_fs s'))"
proof -
  have i: "TrimPrefix (ar_Path r) ''/v1/agents/'' = i" using assms(3) by (simp add: TrimPrefix_def)
  obtain reg where r: "RegistryRemove i (ad_reg s) = (True, reg)"
      "saveAgents E (writeJSON 200 (Obj [(''deleted'', i)])) (s\<lparr>ad_reg := reg\<rparr>) = (resp, effs, s')"
    using assms(1,4) unfolding handleAgent_def Let_def i assms(2)
    by (auto simp: fail_def writeJSON_def split: if_splits prod.splits bool.splits)
  show ?thesis
    using persist_accepted [OF r(2) [unfolded saveAgents_def]] assms(4) r(1)
    by (auto simp: prod_eq_iff)
qed

text \<open>
  C10: deleting an agent revokes its key at the gateway, and only that. When the API answers 200, the process
  it found under the gateway's name is sent its signal, and once a gateway over the same files has
  reloaded, no key authenticates as the deleted agent; every other agent is stored as before, and the key
  of an active one that shares it with no other agent authenticates as that agent; a key that
  authenticates at all is the key of an active agent of the registry. Bearer tokens are not revoked: a
  request without an API key authenticates after the reload exactly as it did before.
\<close>

theorem admin_delete_revokes:
  fixes a :: answers
  assumes "serve_admin E C r s = (resp, effs, s')" and "ar_Method r = ''DELETE''"
    and "ar_Path r = ''/v1/agents/'' @ i" and "re_Status resp = 200" and "registry_ok (ad_reg s)"
    and "json_roundtrip (aw_agents E) (RegistryAll (ad_reg s'))"
    and "aw_pidof E = (None, out)" and "w \<in> set (Fields (TrimSpace out))" and "Atoi w = Some pid" and "aw_kill E pid = None"
    and "rg_path (ph_reg h) = rg_path (ad_reg s)" and "ph_fs h = ad_fs s'" and "rl_agents R = aw_agents E"
    and "f_read (wo_faults W) (rg_path (ad_reg s)) = None"
  defines "h' \<equiv> snd (reload W a R h)"
  shows "Sighup pid \<in> set effs \<and>
     (\<forall>k b. LookupByKey (ph_reg h') k = Some b \<longrightarrow> ag_AgentID b \<noteq> i \<and> ag_APIKey b = k \<and> ag_Status b = ''active'' \<and>
        RegistryLookupByID (ad_reg s) (ag_AgentID b) = Some b) \<and>
     (\<forall>j. RegistryLookupByID (ph_reg h') j = (if j = i then None else RegistryLookupByID (ad_reg s) j)) \<and>
     (\<forall>b. RegistryLookupByID (ad_reg s) (ag_AgentID b) = Some b \<and> ag_AgentID b \<noteq> i \<and> ag_Status b = ''active'' \<and>
        (\<forall>c. RegistryLookupByID (ad_reg s) (ag_AgentID c) = Some c \<and> ag_AgentID c \<noteq> i \<and> ag_APIKey c = ag_APIKey b \<longrightarrow> c = b) \<longrightarrow>
        LookupByKey (ph_reg h') (ag_APIKey b) = Some b) \<and>
     (\<forall>x q u t. extractProxyAuth q = (u, [], t) \<longrightarrow> authenticate W x q h' = authenticate W x q h)"
proof -
  have "serve_admin E C r s = handleAgent E C r s"
    using serve_admin_dispatch [of E C r s] assms(1,4) dispatch_agent [of i E C r s] unfolding assms(3) by auto
  with assms(1) have "handleAgent E C r s = (resp, effs, s')" by simp
  from delete_agent_accepted [OF this assms(2-4)] obtain fs where
    d: "ad_reg s' = snd (RegistryRemove i (ad_reg s))" "effs = signalGateway E"
       "RegistrySave (aw_agents E) (aw_faults E) (ad_reg s') fs = (None, ad_fs s')" by blast
  have ok: "registry_ok (ad_reg s')" unfolding d(1) by (rule registry_ok_remove [OF assms(5)])
  have path: "rg_path (ad_reg s') = rg_path (ad_reg s)" by (auto simp: d(1) RegistryRemove_def split: option.split)
  note ld = saved_then_loaded [OF ok d(3) assms(6), where G = "wo_faults W" and g = "ph_reg h"]
  have g: "ph_reg h' = fold RegistryAdd (RegistryAll (ad_reg s')) ((ph_reg h)\<lparr>rg_byKey := [], rg_byID := []\<rparr>)"
    using ld assms(11-14) path by (simp add: h'_def reload_def Let_def split: prod.split)
  have gone: "RegistryLookupByID (ad_reg s') j = (if j = i then None else RegistryLookupByID (ad_reg s) j)" for j
    unfolding d(1) by (rule agent_store.lookup_remove [OF assms(5)])
  show ?thesis unfolding g reloaded_ids [OF ok]
  proof (intro conjI allI impI)
    show "Sighup pid \<in> set effs" using signalGateway_sends [OF assms(7-10)] d(2) by simp
    show "RegistryLookupByID (ad_reg s') j = (if j = i then None else RegistryLookupByID (ad_reg s) j)" for j
      by (rule gone)
  next
    fix k b assume "LookupByKey (fold RegistryAdd (RegistryAll (ad_reg s')) ((ph_reg h)\<lparr>rg_byKey := [], rg_byID := []\<rparr>)) k = Some b"
    note k = reloaded_keys [OF ok this]
    then show "ag_APIKey b = k" "ag_Status b = ''active''" by blast+
    from k have "RegistryLookupByID (ad_reg s') (ag_AgentID b) = Some b" by blast
    then show "ag_AgentID b \<noteq> i" "RegistryLookupByID (ad_reg s) (ag_AgentID b) = Some b"
      unfolding gone by (auto split: if_splits)
  next
    fix b
    assume b: "RegistryLookupByID (ad_reg s) (ag_AgentID b) = Some b \<and> ag_AgentID b \<noteq> i \<and> ag_Status b = ''active'' \<and>
        (\<forall>c. RegistryLookupByID (ad_reg s) (ag_AgentID c) = Some c \<and> ag_AgentID c \<noteq> i \<and> ag_APIKey c = ag_APIKey b \<longrightarrow> c = b)"
    show "LookupByKey (fold RegistryAdd (RegistryAll (ad_reg s')) ((ph_reg h)\<lparr>rg_byKey := [], rg_byID := []\<rparr>)) (ag_APIKey b) = Some b"
      using b by (intro reloaded_sole_key [OF ok]) (auto simp: gone split: if_splits)
  next
    fix x q u t assume "extractProxyAuth q = (u, [], t)"
    moreover have "ph_jwtSecret h' = ph_jwtSecret h" by (simp add: h'_def reload_def Let_def split: prod.split)
    ultimately show "authenticate W x q h' = authenticate W x q h" by (simp add: authenticate_def)
  qed
qed

text \<open>A world in which every write succeeds and one gateway runs, as process 7.\<close>

definition host_change :: Revision where
  "host_change = \<lparr>rv_RevisionID = ''rev_1_00'', rv_Actor = ''ops'',
     rv_Changes = [(''system'', VMap [(''host_name'', VStr ''gw'')])], rv_CreatedAt = 10 ^ 9\<rparr>"

definition demo_admin :: admin_env where
  "demo_admin = \<lparr>aw_unicode = ascii_only, aw_getenv = (\<lambda>_. []),
     aw_agents = \<lparr>marshal = (\<lambda>_. Inr ''A''), unmarshal = (\<lambda>_. Inr [demo_agent ''a2'' ''k2''])\<rparr>,
     aw_rules = \<lparr>marshal = (\<lambda>_. Inr ''R''), unmarshal = (\<lambda>_. Inr [])\<rparr>,
     aw_limits = \<lparr>marshal = (\<lambda>_. Inr ''L''), unmarshal = (\<lambda>_. Inr [])\<rparr>,
     aw_events = \<lparr>marshal = (\<lambda>_. Inr ''E''), unmarshal = (\<lambda>_. Inl ''bad'')\<rparr>,
     aw_time = \<lparr>tp_RFC3339 = (\<lambda>_. None), tp_RFC3339Nano = (\<lambda>_. None)\<rparr>,
     aw_op = demo_env1\<lparr>oe_revision := \<lparr>marshal = (\<lambda>v. Inr ''R''), unmarshal = (\<lambda>_. Inr host_change)\<rparr>\<rparr>,
     aw_sign = \<lparr>se_hmac = (\<lambda>k d. k), se_rules = \<lparr>marshal = (\<lambda>_. Inr ''R''), unmarshal = (\<lambda>_. Inr [])\<rparr>,
        se_bundle = \<lparr>marshal = (\<lambda>_. Inr ''B''), unmarshal = (\<lambda>_. Inl ''bad'')\<rparr>\<rparr>,
     aw_resolver = \<lparr>rs_ip6 = (\<lambda>_. None), rs_lookup = (\<lambda>_. Inl ''no such host'')\<rparr>,
     aw_faults = no_faults, aw_exec = calm_env, aw_nft = (\<lambda>_. (None, [])), aw_now = 0, aw_stamp = ''t'',
     aw_clock1 = \<lparr>ck_unix = 0, ck_stamp = ''t''\<rparr>, aw_clock2 = \<lparr>ck_unix = 0, ck_stamp = ''t''\<rparr>,
     aw_rndc = (None, []), aw_pidof = (None, ''7''), aw_kill = (\<lambda>_. None),
     aw_inConfigure = (\<lambda>_. Inl ''bad''),
     aw_inCommit = (\<lambda>_. Inr \<lparr>cq_Actor = ''ops'', cq_ExpectedRevisionID = [], cq_OpsMode = ''apply''\<rparr>),
     aw_inAgent = (\<lambda>_. Inl ''bad''),
     aw_inRule = (\<lambda>b. Inr \<lparr>ru_PolicyID = b, ru_AgentID = ''*'', ru_Domains = [], ru_Methods = [], ru_PathPrefixes = [],
        ru_Conditions = [], ru_Action = ''deny''\<rparr>),
     aw_inLimit = (\<lambda>_. Inl ''bad''), aw_inBundle = (\<lambda>_. Inl ''bad'')\<rparr>"

definition two_agents :: admin where
  "two_agents = fresh_admin\<lparr>ad_reg := RegistryAdd (demo_agent ''a2'' ''k2'') (RegistryAdd (demo_agent ''a1'' ''k1'') empty_registry)\<rparr>"

definition demo_conf :: admin_conf where
  "demo_conf = \<lparr>ac_stateDir = ''state'', ac_nftApply = True, ac_defaultOpsMode = ''dry-run'', ac_auditFile = ''audit.jsonl''\<rparr>"

definition api_request :: "string \<Rightarrow> string \<Rightarrow> string \<Rightarrow> ApiRequest" where
  "api_request m p b = \<lparr>ar_Method = m, ar_Path = p, ar_RawQuery = [], ar_Body = b\<rparr>"

theorem admin_delete_revokes_witness:
  defines "x \<equiv> serve_admin demo_admin demo_conf (api_request ''DELETE'' ''/v1/agents/a1'' []) two_agents"
    and "h' \<equiv> \<lambda>fs. snd (reload demo_world demo_answers
      \<lparr>rl_agents = aw_agents demo_admin, rl_rules = aw_rules demo_admin, rl_limits = aw_limits demo_admin\<rparr> (demo_gateway\<lparr>ph_fs := fs\<rparr>))"
  shows "Sighup 7 \<in> set (fst (snd x)) \<and>
    (\<forall>k b. LookupByKey (ph_reg (h' (ad_fs (snd (snd x))))) k \<noteq> Some (demo_agent ''a1'' b)) \<and>
    LookupByKey (ph_reg (h' (ad_fs (snd (snd x))))) ''k2'' = Some (demo_agent ''a2'' ''k2'')"
proof -
  let ?R = "\<lparr>rl_agents = aw_agents demo_admin, rl_rules = aw_rules demo_admin, rl_limits = aw_limits demo_admin\<rparr>"
  obtain resp effs s' where x: "x = (resp, effs, s')" by (metis prod_cases3)
  have "re_Status (fst x) = 200" "RegistryAll (ad_reg (snd (snd x))) = [demo_agent ''a2'' ''k2'']"
    unfolding x_def by code_simp+
  then have st: "re_Status resp = 200" "RegistryAll (ad_reg s') = [demo_agent ''a2'' ''k2'']" by (simp_all add: x)
  have ok: "registry_ok (ad_reg two_agents)" by (simp add: two_agents_def registry_ok_empty_registry)
  have w: "''7'' \<in> set (Fields (TrimSpace ''7''))" "Atoi ''7'' = Some 7" by code_simp+
  have rt: "json_roundtrip (aw_agents demo_admin) (RegistryAll (ad_reg s'))"
    by (simp add: st(2) json_roundtrip_def demo_admin_def)
  have p: "ar_Method (api_request ''DELETE'' ''/v1/agents/a1'' []) = ''DELETE''"
    "ar_Path (api_request ''DELETE'' ''/v1/agents/a1'' []) = ''/v1/agents/'' @ ''a1''"
    "aw_pidof demo_admin = (None, ''7'')" "aw_kill demo_admin 7 = None"
    "rg_path (ad_reg two_agents) = ''agents.json''" "rg_path (ph_reg demo_gateway) = ''agents.json''"
    by (simp_all add: api_request_def demo_admin_def two_agents_def demo_gateway_def RegistryAdd_def empty_registry_def)
  have f: "f_read (wo_faults demo_world) (rg_path (ad_reg two_agents)) = None" by (simp add: demo_world_def)
  have d: "ag_AgentID (demo_agent i k) = i" "ag_APIKey (demo_agent i k) = k" "ag_Status (demo_agent i k) = ''active''" for i k
    by (simp_all add: demo_agent_def)
  have look: "RegistryLookupByID (ad_reg two_agents) j = (if j = ''a2'' then Some (demo_agent ''a2'' ''k2'')
      else if j = ''a1'' then Some (demo_agent ''a1'' ''k1'') else None)" for j
    by (simp add: two_agents_def RegistryLookupByID_def RegistryAdd_def demo_agent_def empty_registry_def)
  note t = admin_delete_revokes [OF x [unfolded x_def] p(1,2) st(1) ok rt p(3) w p(4), of "demo_gateway\<lparr>ph_fs := ad_fs s'\<rparr>" ?R
      demo_world demo_answers]
  have pre: "rg_path (ph_reg (demo_gateway\<lparr>ph_fs := ad_fs s'\<rparr>)) = rg_path (ad_reg two_agents)"
    "ph_fs (demo_gateway\<lparr>ph_fs := ad_fs s'\<rparr>) = ad_fs s'" "rl_agents ?R = aw_agents demo_admin"
    using p(5,6) by (simp_all)
  have h: "h' fs = snd (reload demo_world demo_answers ?R (demo_gateway\<lparr>ph_fs := fs\<rparr>))" for fs by (simp only: h'_def)
  note t = t [OF pre f, folded h]
  have "Sighup 7 \<in> set effs" using t by blast
  moreover have "LookupByKey (ph_reg (h' (ad_fs s'))) k \<noteq> Some (demo_agent ''a1'' b)" for k b
  proof
    assume "LookupByKey (ph_reg (h' (ad_fs s'))) k = Some (demo_agent ''a1'' b)"
    then have "ag_AgentID (demo_agent ''a1'' b) \<noteq> ''a1''" using t by blast
    then show False by (simp add: d)
  qed
  moreover have "LookupByKey (ph_reg (h' (ad_fs s'))) (ag_APIKey (demo_agent ''a2'' ''k2'')) = Some (demo_agent ''a2'' ''k2'')"
  proof -
    have "c = demo_agent ''a2'' ''k2''"
      if "RegistryLookupByID (ad_reg two_agents) (ag_AgentID c) = Some c \<and> ag_AgentID c \<noteq> ''a1'' \<and> ag_APIKey c = ''k2''" for c
      using that unfolding look by (auto split: if_splits)
    moreover have "RegistryLookupByID (ad_reg two_agents) (ag_AgentID (demo_agent ''a2'' ''k2'')) = Some (demo_agent ''a2'' ''k2'') \<and>
        ag_AgentID (demo_agent ''a2'' ''k2'') \<noteq> ''a1'' \<and> ag_Status (demo_agent ''a2'' ''k2'') = ''active''"
      by (simp add: look d)
    ultimately show ?thesis
      using t [THEN conjunct2, THEN conjunct2, THEN conjunct2, THEN conjunct1, rule_format, of "demo_agent ''a2'' ''k2''"] d(2)
      by simp
  qed
  ultimately show ?thesis unfolding x fst_conv snd_conv d by blast
qed

section \<open>A refused change\<close>

lemma add_rule_request:
  assumes "ar_Method r = ''POST''" and "ar_Path r = ''/v1/policies''" and "aw_inRule E (ar_Body r) = Inr rule"
    and "rule_valid rule"
  shows "serve_admin E C r s = saveRules E (writeJSON 201 (RuleOut rule)) (s\<lparr>ad_eng := EngineAdd rule (ad_eng s)\<rparr>)"
proof -
  have clean: "cleanPath ''/v1/policies'' = ''/v1/policies''" by code_simp
  have "map_of routes ''/v1/policies'' = Some handlePolicies" by (simp add: routes_def)
  then have "serve_admin E C r s = handlePolicies E C r s"
    using assms(1,2) clean by (simp add: serve_admin_def dispatch_def)
  then show ?thesis using assms(1,3,4) by (auto simp: handlePolicies_def rule_valid_def)
qed

text \<open>
  C36: a refused policy change takes effect later. When the policy file cannot be written the API answers
  500 and the file is as before, but the rule is in the API's table; the next rule that is accepted
  writes a file that holds both, in the order of the requests.
\<close>

theorem admin_refused_change_persists:
  assumes "ar_Method r = ''POST''" and "ar_Path r = ''/v1/policies''" and "aw_inRule E (ar_Body r) = Inr rule"
    and "rule_valid rule" and "EngineSave (aw_rules E) (aw_faults E) (EngineAdd rule (ad_eng s)) (ad_fs s) = (Some e, fs)"
    and "ar_Method r2 = ''POST''" and "ar_Path r2 = ''/v1/policies''" and "aw_inRule E2 (ar_Body r2) = Inr rule2"
    and "rule_valid rule2" and "EngineSave (aw_rules E2) (aw_faults E2) (EngineAdd rule2 (EngineAdd rule (ad_eng s))) fs = (None, fs2)"
    and "ru_PolicyID rule2 \<noteq> ru_PolicyID rule"
  shows "fst (serve_admin E C r s) = fail 500 e \<and> fs (en_path (ad_eng s)) = ad_fs s (en_path (ad_eng s)) \<and>
     (let s2 = snd (snd (serve_admin E2 C r2 (snd (snd (serve_admin E C r s))))) in
        ad_eng s2 = EngineAdd rule2 (EngineAdd rule (ad_eng s)) \<and>
        EngineLookupByID (ad_eng s2) (ru_PolicyID rule) = Some rule \<and>
        (\<exists>d. marshal (aw_rules E2) (Rules (ad_eng s2)) = Inr d \<and> ad_fs s2 (en_path (ad_eng s)) = Some d))"
proof -
  have p: "en_path (EngineAdd q x) = en_path x" for q x by (simp add: EngineAdd_def)
  have one: "serve_admin E C r s = (fail 500 e, [], s\<lparr>ad_eng := EngineAdd rule (ad_eng s), ad_fs := fs\<rparr>)"
    using assms(5) by (simp add: add_rule_request [OF assms(1-4)] saveRules_def persist_def)
  have two: "serve_admin E2 C r2 (s\<lparr>ad_eng := EngineAdd rule (ad_eng s), ad_fs := fs\<rparr>) =
      (writeJSON 201 (RuleOut rule2), signalGateway E2, s\<lparr>ad_eng := EngineAdd rule2 (EngineAdd rule (ad_eng s)), ad_fs := fs2\<rparr>)"
    using assms(10) by (simp add: add_rule_request [OF assms(6-9)] saveRules_def persist_def)
  have "EngineLookupByID (EngineAdd rule2 (EngineAdd rule (ad_eng s))) (ru_PolicyID rule) = Some rule"
    using assms(11) by (simp add: EngineLookupByID_def EngineAdd_def lookupRule_replaceOrAppend)
  then show ?thesis
    using policy_file.save_err [OF assms(5)] policy_file.save_ok [OF assms(10)]
    by (simp add: one two p Rules_def)
qed

theorem admin_refused_change_persists_witness:
  "\<exists>s2. s2 = snd (snd (serve_admin demo_admin demo_conf (api_request ''POST'' ''/v1/policies'' ''p2'')
     (snd (snd (serve_admin (demo_admin\<lparr>aw_faults := no_faults\<lparr>f_write := \<lambda>_. Some ''ENOSPC''\<rparr>\<rparr>) demo_conf
        (api_request ''POST'' ''/v1/policies'' ''p1'') fresh_admin))))) \<and>
     map ru_PolicyID (Rules (ad_eng s2)) = [''p1'', ''p2''] \<and> ad_fs s2 ''policy.json'' = Some ''R''"
proof -
  let ?full = "demo_admin\<lparr>aw_faults := no_faults\<lparr>f_write := \<lambda>_. Some ''ENOSPC''\<rparr>\<rparr>"
  define rule where "rule = (\<lambda>b. case aw_inRule demo_admin b of Inr q \<Rightarrow> q | Inl _ \<Rightarrow> undefined)"
  have r: "aw_inRule demo_admin b = Inr (rule b)" "aw_inRule ?full b = Inr (rule b)" "ru_PolicyID (rule b) = b" for b
    by (simp_all add: rule_def demo_admin_def)
  have v: "rule_valid (rule ''p1'')" "rule_valid (rule ''p2'')" by (simp_all add: rule_valid_def rule_def demo_admin_def)
  have q: "ar_Method (api_request m p b) = m" "ar_Path (api_request m p b) = p" "ar_Body (api_request m p b) = b" for m p b
    by (simp_all add: api_request_def)
  have save: "EngineSave (aw_rules ?full) (aw_faults ?full) (EngineAdd (rule ''p1'') (ad_eng fresh_admin)) (ad_fs fresh_admin) =
      (Some ''write policy tmp: ENOSPC'', (ad_fs fresh_admin)(tmp_path ''policy.json'' := None))"
    by (simp add: EngineSave_def demo_admin_def EngineAdd_def fresh_admin_def write_rename_def WriteFile_def)
  have save2: "\<exists>fs2. EngineSave (aw_rules demo_admin) (aw_faults demo_admin)
      (EngineAdd (rule ''p2'') (EngineAdd (rule ''p1'') (ad_eng fresh_admin))) ((ad_fs fresh_admin)(tmp_path ''policy.json'' := None)) = (None, fs2)"
    by (simp add: EngineSave_def demo_admin_def write_rename_no_faults)
  then obtain fs2 where save2: "EngineSave (aw_rules demo_admin) (aw_faults demo_admin)
      (EngineAdd (rule ''p2'') (EngineAdd (rule ''p1'') (ad_eng fresh_admin))) ((ad_fs fresh_admin)(tmp_path ''policy.json'' := None)) = (None, fs2)" ..
  note c = admin_refused_change_persists [of "api_request ''POST'' ''/v1/policies'' ''p1''" ?full "rule ''p1''" fresh_admin _ _
      "api_request ''POST'' ''/v1/policies'' ''p2''" demo_admin "rule ''p2''" fs2 demo_conf, OF q(1,2) _ v(1) save q(1,2) _ v(2) save2]
  have "map ru_PolicyID (Rules (EngineAdd (rule ''p2'') (EngineAdd (rule ''p1'') (ad_eng fresh_admin)))) = [''p1'', ''p2'']"
    by (simp add: Rules_def EngineAdd_def r(3) fresh_admin_def)
  moreover have "marshal (aw_rules demo_admin) rs = Inr ''R''" for rs by (simp add: demo_admin_def)
  moreover have "en_path (ad_eng fresh_admin) = ''policy.json''" by (simp add: fresh_admin_def)
  ultimately show ?thesis using c q(3) r by (auto simp: Let_def)
qed

section \<open>Two agents, one key\<close>

lemma mget_perm_pair:
  assumes "gomap_ok m" and "mget m i = Some a" and "mget m j = Some b" and "i \<noteq> j"
  shows "\<exists>m'. gomap_ok m' \<and> set m' = set m \<and> (\<exists>xs. m' = xs @ [(i, a), (j, b)])"
proof -
  let ?xs = "filter (\<lambda>(k, v). k \<noteq> i \<and> k \<noteq> j) m"
  have ab: "(i, v) \<in> set m \<longleftrightarrow> v = a" "(j, v) \<in> set m \<longleftrightarrow> v = b" for v
    using assms(2,3) by (auto simp: gomap_ok_mem_iff [OF assms(1)])
  have "set m = set (?xs @ [(i, a), (j, b)])"
    using ab [of a] ab [of b] ab(1) ab(2) by (auto 0 3)
  moreover have "gomap_ok (?xs @ [(i, a), (j, b)])"
  proof -
    have "distinct (map fst ?xs)" using assms(1) unfolding gomap_ok_def by (rule distinct_map_filter)
    moreover have "i \<notin> fst ` set ?xs" "j \<notin> fst ` set ?xs" by auto
    ultimately show ?thesis using assms(4) by (simp add: gomap_ok_def)
  qed
  ultimately show ?thesis by (intro exI [of _ "?xs @ [(i, a), (j, b)]"]) auto
qed

text \<open>
  C37: a shared key belongs to whichever agent the map visits last. The API does not ask whether a key is
  taken. When two active agents have one key, then for each of the two there is an iteration order of
  the registry's map in which the file that is saved makes a loading process resolve the key to that
  agent: who a request is charged to and audited as is decided by chance.
\<close>

theorem shared_key_owner_by_map_order:
  assumes "registry_ok r" and "RegistryLookupByID r (ag_AgentID a) = Some a" and "RegistryLookupByID r (ag_AgentID b) = Some b"
    and "ag_AgentID a \<noteq> ag_AgentID b" and "ag_APIKey a = ag_APIKey b" and "ag_Status b = ''active''"
  shows "\<exists>r'. registry_ok r' \<and> RegistryLookupByID r' = RegistryLookupByID r \<and> rg_byKey r' = rg_byKey r \<and> rg_path r' = rg_path r \<and>
     (\<forall>J F G fs fs' g. RegistrySave J F r' fs = (None, fs') \<and> json_roundtrip J (RegistryAll r') \<and>
        f_read G (rg_path r') = None \<and> rg_path g = rg_path r' \<longrightarrow>
        LookupByKey (snd (RegistryLoad J (ReadFile G fs' (rg_path g)) g)) (ag_APIKey b) = Some b)"
proof -
  have ok: "gomap_ok (rg_byID r)" using assms(1) by (simp add: registry_ok_def)
  obtain m xs where m: "gomap_ok m" "set m = set (rg_byID r)" "m = xs @ [(ag_AgentID a, a), (ag_AgentID b, b)]"
    using mget_perm_pair [OF ok] assms(2-4) unfolding RegistryLookupByID_def by blast
  define r' where "r' = r\<lparr>rg_byID := m\<rparr>"
  have same: "RegistryLookupByID r' i = RegistryLookupByID r i" for i
    using mget_permute [OF m(1) ok m(2)] by (simp add: r'_def RegistryLookupByID_def)
  have ok': "registry_ok r'" using assms(1) same m(1) by (simp add: registry_ok_def r'_def RegistryLookupByID_def)
  have all: "RegistryAll r' = map snd xs @ [a, b]" by (simp add: r'_def RegistryAll_def m(3))
  have "LookupByKey (snd (RegistryLoad J (ReadFile G fs' (rg_path g)) g)) (ag_APIKey b) = Some b"
    if "RegistrySave J F r' fs = (None, fs')" "json_roundtrip J (RegistryAll r')" "f_read G (rg_path r') = None"
      "rg_path g = rg_path r'" for J F G fs fs' g
    using saved_then_loaded [OF ok' that] assms(6) by (simp add: LookupByKey_def all) (simp add: RegistryAdd_def)
  moreover have "RegistryLookupByID r' = RegistryLookupByID r" using same by (rule ext)
  ultimately show ?thesis using ok' by (intro exI [of _ r']) (auto simp: r'_def)
qed

theorem shared_key_owner_by_map_order_witness:
  defines "r \<equiv> RegistryAdd (demo_agent ''a2'' ''k'') (RegistryAdd (demo_agent ''a1'' ''k'') empty_registry)"
  shows "(\<exists>r' J. RegistryLookupByID r' = RegistryLookupByID r \<and>
      LookupByKey (snd (RegistryLoad J (ReadFile no_faults (snd (RegistrySave J no_faults r' (\<lambda>_. None))) ''agents.json'')
         empty_registry)) ''k'' = Some (demo_agent ''a1'' ''k'')) \<and>
    (\<exists>r' J. RegistryLookupByID r' = RegistryLookupByID r \<and>
      LookupByKey (snd (RegistryLoad J (ReadFile no_faults (snd (RegistrySave J no_faults r' (\<lambda>_. None))) ''agents.json'')
         empty_registry)) ''k'' = Some (demo_agent ''a2'' ''k''))"
proof -
  have ok: "registry_ok r" by (simp add: r_def registry_ok_empty_registry)
  have look: "RegistryLookupByID r ''a1'' = Some (demo_agent ''a1'' ''k'')" "RegistryLookupByID r ''a2'' = Some (demo_agent ''a2'' ''k'')"
    by (simp_all add: r_def RegistryLookupByID_def RegistryAdd_def demo_agent_def)
  have *: "\<exists>r' J. RegistryLookupByID r' = RegistryLookupByID r \<and>
      LookupByKey (snd (RegistryLoad J (ReadFile no_faults (snd (RegistrySave J no_faults r' (\<lambda>_. None))) ''agents.json'')
         empty_registry)) ''k'' = Some (demo_agent i ''k'')"
    if "RegistryLookupByID r i = Some (demo_agent i ''k'')" "RegistryLookupByID r j = Some (demo_agent j ''k'')" "j \<noteq> i" for i j
  proof -
    have d: "ag_AgentID (demo_agent i k) = i" "ag_APIKey (demo_agent i k) = k" "ag_Status (demo_agent i k) = ''active''" for i k
      by (simp_all add: demo_agent_def)
    note t = shared_key_owner_by_map_order [OF ok, of "demo_agent j ''k''" "demo_agent i ''k''", unfolded d,
        OF that(2,1,3) refl refl]
    obtain r' where r': "RegistryLookupByID r' = RegistryLookupByID r" "rg_path r' = rg_path r"
      "\<forall>J F G fs fs' g. RegistrySave J F r' fs = (None, fs') \<and> json_roundtrip J (RegistryAll r') \<and>
        f_read G (rg_path r') = None \<and> rg_path g = rg_path r' \<longrightarrow>
        LookupByKey (snd (RegistryLoad J (ReadFile G fs' (rg_path g)) g)) ''k'' = Some (demo_agent i ''k'')"
      using t by (elim exE conjE) (rule that; assumption)
    define J where "J = \<lparr>marshal = (\<lambda>_. Inr ''A''), unmarshal = (\<lambda>_. Inr (RegistryAll r'))\<rparr>"
    have p: "rg_path r' = ''agents.json''" "rg_path empty_registry = ''agents.json''"
      by (simp_all add: r'(2) r_def RegistryAdd_def empty_registry_def)
    have "RegistrySave J no_faults r' (\<lambda>_. None) = (None, snd (RegistrySave J no_faults r' (\<lambda>_. None)))"
      by (simp add: RegistrySave_def J_def write_rename_no_faults)
    moreover have "json_roundtrip J (RegistryAll r')" by (simp add: json_roundtrip_def J_def)
    ultimately have "LookupByKey (snd (RegistryLoad J (ReadFile no_faults (snd (RegistrySave J no_faults r' (\<lambda>_. None)))
        (rg_path empty_registry)) empty_registry)) ''k'' = Some (demo_agent i ''k'')"
      using p by (intro r'(3) [rule_format]) simp
    then show ?thesis using r'(1) p by (intro exI [of _ r'] exI [of _ J]) simp
  qed
  show ?thesis using * [OF look(1) look(2)] * [OF look(2) look(1)] by simp
qed

section \<open>Bundles under the default key\<close>

text \<open>Without a configured secret the API accepts every bundle that anyone signs with the key in the source.\<close>

lemma default_sign_key_forges:
  assumes "aw_getenv E ''CLAWGRESS_POLICY_SIGN_SECRET'' = []" and "ar_Method r = ''POST''"
    and "aw_inBundle E (ar_Body r) = Inr (SignBundle (aw_sign E) stamp rules ''clawgress-default-sign-key'')"
  shows "handleVerify E C r s = (writeJSON 200 (Obj [(''valid'', ''true'')]), [], s)"
  using assms by (simp add: handleVerify_def sign_secret_def VerifyBundle_def SignBundle_def Let_def)

section \<open>Ids that no path reaches\<close>

text \<open>
  An id that the path cleaning changes (\<open>..\<close>, or one with \<open>//\<close> inside) can be created, but a request
  for its path is redirected: such an agent cannot be read or deleted.
\<close>

lemma unclean_id_unreachable:
  assumes "cleanPath (''/v1/agents/'' @ i) \<noteq> ''/v1/agents/'' @ i" and "ar_Path r = ''/v1/agents/'' @ i" and "ar_Method r \<noteq> ''CONNECT''"
  shows "serve_admin E C r s = (writeJSON 301 (RedirectOut (cleanPath (''/v1/agents/'' @ i))), [], s)"
  unfolding serve_admin_def Let_def assms(2) using assms(1,3) by simp

lemma unclean_ids: "cleanPath (''/v1/agents/'' @ ''..'') \<noteq> ''/v1/agents/'' @ ''..''"
  by code_simp

end
