(* ===== verification/Admin_Commit.thy ===== *)
theory Admin_Commit
  imports Admin_Flows
begin

text \<open>
  A commit through the admin API from end to end: the store publishes the staged revision, the planner
  turns it into operations, the executor carries them out, and the firewall rules follow.
\<close>

lemma normalize_modes [simp]: "NormalizeOpsMode U ''apply'' = ''apply''" "NormalizeOpsMode U ''dry-run'' = ''dry-run''"
proof -
  have "TrimSpace ''apply'' = ''apply''" "TrimSpace ''dry-run'' = ''dry-run''" by code_simp+
  moreover have "ToLower U ''apply'' = ''apply''" "ToLower U ''dry-run'' = ''dry-run''"
    by (simp_all add: ToLower_def is_ascii_def lower_char_def)
  ultimately show "NormalizeOpsMode U ''apply'' = ''apply''" "NormalizeOpsMode U ''dry-run'' = ''dry-run''"
    by (simp_all add: NormalizeOpsMode_def Let_def)
qed

text \<open>The mode a commit runs its operations in: the request's, else the server's; unknown modes are dry runs.\<close>

definition commit_mode :: "admin_env \<Rightarrow> admin_conf \<Rightarrow> CommitRequest \<Rightarrow> string" where
  "commit_mode E C req =
    (let m = NormalizeOpsMode (aw_unicode E) (if cq_OpsMode req = [] then ac_defaultOpsMode C else cq_OpsMode req) in
     if m = [] then ''dry-run'' else m)"

lemma commit_mode_cases: "commit_mode E C req = ''apply'' \<or> commit_mode E C req = ''dry-run''"
  by (simp add: commit_mode_def NormalizeOpsMode_def Let_def)

lemma ops_outcome:
  assumes "ee_mock (aw_exec E) \<noteq> ''1''" and "smooth (aw_exec E)"
  shows "(fst (runOps E C req (Some rv) resp s) = None) \<longleftrightarrow>
     \<not> (commit_mode E C req = ''apply'' \<and> hostName (rv_Changes rv) \<noteq> [])"
proof -
  let ?x = "\<lparr>xs_fs = ad_fs s, xs_commands = []\<rparr>"
  have "(fst (runOps E C req (Some rv) resp s) = None) =
      (fst (ExecuteOpsPlan (aw_unicode E) (aw_exec E) (BuildOpsPlan (rv_Changes rv)) (commit_mode E C req) ?x) = None)"
    by (simp add: runOps_def commit_mode_def Let_def split: prod.split option.split)
  also have "\<dots> \<longleftrightarrow> \<not> (commit_mode E C req = ''apply'' \<and> hostName (rv_Changes rv) \<noteq> [])"
  proof (cases "commit_mode E C req = ''apply''")
    case True
    then show ?thesis
      using apply_with_host [OF normalize_modes(1) assms(1)] apply_without_host [OF normalize_modes(1) assms(2)]
      by (metis option.distinct(1))
  next
    case False
    then have d: "commit_mode E C req = ''dry-run''" using commit_mode_cases [of E C req] by blast
    show ?thesis unfolding d by (simp add: ExecuteOpsPlan_def opLoop_flat flat_dry Let_def)
  qed
  finally show ?thesis .
qed

lemma nft_outcome:
  assumes "aw_faults E = no_faults" and "\<forall>args. fst (aw_nft E args) = None"
  shows "re_Status (fst (runNft E C (Some rv) resp s)) = 200"
proof -
  obtain out where "aw_nft E [''-f'', PathJoin (PathJoin (ac_stateDir C) ''compiled'') ''nftables-active.nft''] = (None, out)"
    using assms(2) by (metis prod.collapse)
  then show ?thesis using assms(1) by (simp add: runNft_def ApplyNftables_def Let_def WriteFile_def writeJSON_def)
qed

lemma commit_request:
  assumes "ar_Method r = ''POST''" and "ar_Path r = ''/v1/opmode/commit''" and "aw_inCommit E (ar_Body r) = Inr req"
    and "Commit (aw_op E) (aw_faults E) (ad_store s) (if cq_Actor req = [] then req\<lparr>cq_Actor := ''unknown''\<rparr> else req) (ad_fs s) = (Inr cr, fs)"
  shows "serve_admin E C r s =
    afterCommit E C (if cq_Actor req = [] then req\<lparr>cq_Actor := ''unknown''\<rparr> else req) (commit_reply cr) (s\<lparr>ad_fs := fs\<rparr>)"
proof -
  have clean: "cleanPath ''/v1/opmode/commit'' = ''/v1/opmode/commit''" by code_simp
  have "map_of routes ''/v1/opmode/commit'' = Some handleCommit" by (simp add: routes_def)
  then have "serve_admin E C r s = handleCommit E C r s"
    using assms(1,2) clean by (simp add: serve_admin_def dispatch_def)
  then show ?thesis using assms(1,3,4) by (simp add: handleCommit_def Let_def)
qed

section \<open>Which files a commit touches\<close>

definition rules_path :: "admin_conf \<Rightarrow> string" where
  "rules_path C = PathJoin (PathJoin (ac_stateDir C) ''compiled'') ''nftables-active.nft''"

text \<open>The state directory is none of those that the executor writes to, and holds the rules under a name of their own.\<close>

definition places_apart :: "admin_conf \<Rightarrow> Store \<Rightarrow> bool" where
  "places_apart C st \<longleftrightarrow> rules_path C \<notin> store_files st \<and> \<not> isAllowedWritePath (rules_path C) \<and>
     \<not> isAllowedWritePath (store_path st ''staged.json'') \<and> \<not> isAllowedWritePath (store_path st ''active.json'') \<and>
     \<not> isAllowedWritePath (store_path st ''commits.jsonl'')"

text \<open>The effects that reach the firewall.\<close>

definition runs_nft :: "admin_effect \<Rightarrow> bool" where
  "runs_nft e \<longleftrightarrow> (case e of NftRun _ \<Rightarrow> True | OpRun n _ \<Rightarrow> n = ''nft'' | _ \<Rightarrow> False)"

lemma runOps_files:
  assumes "\<not> isAllowedWritePath p"
  shows "ad_fs (snd (snd (snd (runOps E C req act resp s)))) p = ad_fs s p"
  using plan_frame [OF assms, where x = "\<lparr>xs_fs = ad_fs s, xs_commands = []\<rparr>"]
  by (simp add: runOps_def Let_def split_beta split: option.split)

lemma runNft_files:
  assumes "p \<noteq> rules_path C"
  shows "ad_fs (snd (snd (runNft E C act resp s))) p = ad_fs s p"
  using assms
  by (simp add: runNft_def ApplyNftables_def WriteFile_def rules_path_def Let_def split_beta split: option.split)

lemma runNft_applies:
  assumes "aw_faults E = no_faults" and "ac_nftApply C"
  shows "NftRun [''-f'', rules_path C] \<in> set (fst (snd (runNft E C (Some rv) resp s))) \<and>
    ad_fs (snd (snd (runNft E C (Some rv) resp s))) (rules_path C) = Some (renderRules (aw_unicode E) (rv_Changes rv))"
proof -
  obtain e out where "aw_nft E [''-f'', rules_path C] = (e, out)" by fastforce
  then show ?thesis using assms
    by (cases e) (simp_all add: runNft_def ApplyNftables_def WriteFile_def rules_path_def Let_def)
qed

lemma runOps_no_nft:
  assumes "commit_mode E C req = ''apply''" and "ee_mock (aw_exec E) \<noteq> ''1''" and "hostName (rv_Changes rv) \<noteq> []"
  shows "\<forall>e \<in> set (fst (snd (snd (runOps E C req (Some rv) resp s)))). \<not> runs_nft e"
proof -
  let ?x = "\<lparr>xs_fs = ad_fs s, xs_commands = []\<rparr>"
  let ?r = "ExecuteOpsPlan (aw_unicode E) (aw_exec E) (BuildOpsPlan (rv_Changes rv)) (commit_mode E C req) ?x"
  have "no_nft (snd (snd ?r))"
    unfolding assms(1) by (rule host_run_no_nft [OF normalize_modes(1) assms(2,3)]) (simp add: no_nft_def)
  moreover have "fst (snd (snd (runOps E C req (Some rv) resp s))) = map (\<lambda>(n, args). OpRun n args) (xs_commands (snd (snd ?r)))"
    by (simp add: runOps_def commit_mode_def Let_def split_beta split: option.split)
  ultimately show ?thesis by (auto simp: no_nft_def runs_nft_def)
qed

text \<open>The handler after the store has committed and reports \<open>rv\<close> as active.\<close>

lemma afterCommit_active:
  assumes "State (aw_op E) (aw_faults E) (ad_store s) (ad_fs s) = Inr view" and "sv_Active view = Some rv"
  shows "afterCommit E C req resp s =
    (case runOps E C req (Some rv) resp s of
       (Some _, resp, runs, s) \<Rightarrow> (writeJSON 500 (CommitOut resp), runs, s)
     | (None, resp, runs, s) \<Rightarrow> (let (out, effs, s) = runNft E C (Some rv) resp s in (out, runs @ effs, s)))"
  unfolding afterCommit_def assms(1) sum.case assms(2) by (rule refl)

lemma afterCommit_files:
  assumes "p \<noteq> rules_path C" and "\<not> isAllowedWritePath p"
  shows "ad_fs (snd (snd (afterCommit E C req resp s))) p = ad_fs s p"
  using runNft_files [OF assms(1)] runOps_files [OF assms(2)]
  by (simp add: afterCommit_def Let_def split_beta split: sum.split option.split)

lemma afterCommit_store: "ad_store (snd (snd (afterCommit E C req resp s))) = ad_store s"
  by (simp add: afterCommit_def runOps_def runNft_def Let_def split_beta split: sum.split option.split)

lemma commit_then_after:
  assumes "ar_Method r = ''POST''" and "ar_Path r = ''/v1/opmode/commit''" and "aw_inCommit E (ar_Body r) = Inr req"
    and "aw_faults E = no_faults" and "store_ok (aw_op E) (ad_store s) (ad_fs s)" and "newID (aw_op E) ''cmt'' = Inr cid"
    and "audit_codec (aw_op E)" and "as_staged (abs_of (aw_op E) (ad_store s) (ad_fs s)) = Some rv" and "rev_codec (aw_op E) rv"
    and "commit_codec (aw_op E) \<lparr>co_CommitID = cid, co_RevisionID = rv_RevisionID rv,
        co_Actor = (if cq_Actor req = [] then ''unknown'' else cq_Actor req), co_Committed = oe_now (aw_op E)\<rparr>"
    and "cq_ExpectedRevisionID req \<in> {[], rv_RevisionID rv}"
  obtains req' resp fs view where "serve_admin E C r s = afterCommit E C req' resp (s\<lparr>ad_fs := fs\<rparr>)"
    "commit_mode E C req' = commit_mode E C req"
    "State (aw_op E) no_faults (ad_store s) fs = Inr view" "sv_Active view = Some rv" "sv_Staged view = None"
    "\<And>q. q \<notin> store_files (ad_store s) \<Longrightarrow> fs q = ad_fs s q"
proof -
  let ?req = "if cq_Actor req = [] then req\<lparr>cq_Actor := ''unknown''\<rparr> else req"
  have q: "cq_Actor ?req = (if cq_Actor req = [] then ''unknown'' else cq_Actor req)"
    "cq_ExpectedRevisionID ?req \<in> {[], rv_RevisionID rv}" "commit_mode E C ?req = commit_mode E C req"
    using assms(11) by (simp_all add: commit_mode_def)
  have cod: "rev_codec (aw_op E) v \<and> commit_codec (aw_op E) \<lparr>co_CommitID = cid, co_RevisionID = rv_RevisionID v,
      co_Actor = cq_Actor ?req, co_Committed = oe_now (aw_op E)\<rparr>"
    if "as_staged (abs_of (aw_op E) (ad_store s) (ad_fs s)) = Some v" for v
    using that assms(8-10) q(1) by simp
  obtain cr fs view where c: "Commit (aw_op E) no_faults (ad_store s) ?req (ad_fs s) = (Inr cr, fs)"
      "State (aw_op E) no_faults (ad_store s) fs = Inr view" "sv_Active view = Some rv" "sv_Staged view = None"
    using commit_published [OF assms(5-7) cod] assms(8) q(2) by (auto simp: Let_def)
  have frame: "fs p = ad_fs s p" if "p \<notin> store_files (ad_store s)" for p
    using Commit_frame [OF that, of "aw_op E" no_faults ?req "ad_fs s"] c(1) by simp
  have "serve_admin E C r s = afterCommit E C ?req (commit_reply cr) (s\<lparr>ad_fs := fs\<rparr>)"
    using commit_request [OF assms(1-3)] c(1) assms(4) by simp
  then show ?thesis using that q(3) c(2-4) frame by blast
qed

text \<open>
  C12: a commit through the API from end to end, when every file can be written, every
  command succeeds and the state directory is not one that the operations write to.
  The answer is 500 exactly when the operations are applied (not a dry run) and the revision sets the
  host name, else 200; in both cases the store ends with the staged revision as the active one. On 500
  the firewall is as it was: the file of its rules is unchanged and no \<open>nft\<close> command has been run, by the
  operations or after them, so the rules of the previous revision stay in force. On 200, where the API
  manages the firewall, the file holds the rules of the new revision and they have been loaded.
\<close>

theorem commit_end_to_end:
  fixes C :: admin_conf
  assumes "ar_Method r = ''POST''" and "ar_Path r = ''/v1/opmode/commit''" and "aw_inCommit E (ar_Body r) = Inr req"
    and "aw_faults E = no_faults" and "store_ok (aw_op E) (ad_store s) (ad_fs s)" and "newID (aw_op E) ''cmt'' = Inr cid"
    and "audit_codec (aw_op E)" and "as_staged (abs_of (aw_op E) (ad_store s) (ad_fs s)) = Some rv" and "rev_codec (aw_op E) rv"
    and "commit_codec (aw_op E) \<lparr>co_CommitID = cid, co_RevisionID = rv_RevisionID rv,
        co_Actor = (if cq_Actor req = [] then ''unknown'' else cq_Actor req), co_Committed = oe_now (aw_op E)\<rparr>"
    and "cq_ExpectedRevisionID req \<in> {[], rv_RevisionID rv}"
    and "ee_mock (aw_exec E) \<noteq> ''1''" and "smooth (aw_exec E)" and "\<forall>args. fst (aw_nft E args) = None"
    and "places_apart C (ad_store s)" and "serve_admin E C r s = (resp, effs, s')"
  defines "failed \<equiv> commit_mode E C req = ''apply'' \<and> getString (rv_Changes rv) [''system'', ''host_name''] \<noteq> []"
  shows "re_Status resp = (if failed then 500 else 200) \<and>
     (\<exists>view. State (aw_op E) no_faults (ad_store s') (ad_fs s') = Inr view \<and> sv_Active view = Some rv \<and> sv_Staged view = None) \<and>
     (failed \<longrightarrow> ad_fs s' (rules_path C) = ad_fs s (rules_path C) \<and> (\<forall>e \<in> set effs. \<not> runs_nft e)) \<and>
     (\<not> failed \<and> ac_nftApply C \<longrightarrow>
        ad_fs s' (rules_path C) = Some (renderRules (aw_unicode E) (rv_Changes rv)) \<and> NftRun [''-f'', rules_path C] \<in> set effs)"
proof -
  obtain req' rep fs view where c: "serve_admin E C r s = afterCommit E C req' rep (s\<lparr>ad_fs := fs\<rparr>)"
    "commit_mode E C req' = commit_mode E C req" "State (aw_op E) no_faults (ad_store s) fs = Inr view"
    "sv_Active view = Some rv" "sv_Staged view = None" "\<And>q. q \<notin> store_files (ad_store s) \<Longrightarrow> fs q = ad_fs s q"
    using commit_then_after [OF assms(1-11), of C] by metis
  let ?s = "s\<lparr>ad_fs := fs\<rparr>"
  have after: "afterCommit E C req' rep ?s = (resp, effs, s')" using c(1) assms(16) by simp
  have apart: "rules_path C \<notin> store_files (ad_store s)" "\<not> isAllowedWritePath (rules_path C)"
      "p \<in> store_path (ad_store s) ` {''staged.json'', ''active.json'', ''commits.jsonl''} \<Longrightarrow> p \<noteq> rules_path C \<and> \<not> isAllowedWritePath p"
    for p using assms(15) by (auto simp: places_apart_def store_files_def)
  have "State (aw_op E) no_faults (ad_store s) (ad_fs s') = State (aw_op E) no_faults (ad_store s) fs"
  proof (rule State_cong)
    show "ad_fs s' (store_path (ad_store s) n) = fs (store_path (ad_store s) n)"
      if "n \<in> {''staged.json'', ''active.json'', ''commits.jsonl''}" for n
      using that apart(3) [of "store_path (ad_store s) n"]
        afterCommit_files [of "store_path (ad_store s) n" C E req' rep ?s] after by auto
  qed
  moreover have "ad_store s' = ad_store s" using afterCommit_store [of E C req' rep ?s] after by simp
  ultimately have st: "State (aw_op E) no_faults (ad_store s') (ad_fs s') = Inr view" using c(3) by simp
  obtain err rep' runs s2 where ops: "runOps E C req' (Some rv) rep ?s = (err, rep', runs, s2)" by (metis prod_cases4)
  have f: "(err = None) \<longleftrightarrow> \<not> failed"
    using ops_outcome [OF assms(12,13), of C req' rv rep ?s] c(2) by (simp add: ops failed_def hostName_def)
  have rules: "ad_fs s2 (rules_path C) = ad_fs s (rules_path C)"
    using runOps_files [OF apart(2), of E C req' "Some rv" rep ?s] c(6) [OF apart(1)] by (simp add: ops)
  have "State (aw_op E) (aw_faults E) (ad_store ?s) (ad_fs ?s) = Inr view" using c(3) assms(4) by simp
  note eq = afterCommit_active [OF this c(4), of C req' rep, unfolded after ops]
  show ?thesis
  proof (cases err)
    case None
    obtain out ef s3 where nft: "runNft E C (Some rv) rep' s2 = (out, ef, s3)" by (metis prod_cases3)
    have "(resp, effs, s') = (out, runs @ ef, s3)" using eq None by (simp add: nft)
    then show ?thesis
      using st c(4,5) f None nft_outcome [OF assms(4,14), of C rv rep' s2] runNft_applies [OF assms(4), of C rv rep' s2]
      by (auto simp: nft)
  next
    case (Some e)
    then have "failed" "(resp, effs, s') = (writeJSON 500 (CommitOut rep'), runs, s2)" using f eq by simp_all
    moreover have "\<forall>e \<in> set runs. \<not> runs_nft e"
      using runOps_no_nft [OF _ assms(12), of C req' rv rep ?s] \<open>failed\<close> c(2) by (simp add: ops failed_def hostName_def)
    ultimately show ?thesis using st c(4,5) rules by (auto simp: writeJSON_def)
  qed
qed

definition staged_admin :: admin where
  "staged_admin = fresh_admin\<lparr>ad_store := demo_store, ad_fs := demo_files\<rparr>"

theorem commit_end_to_end_witness:
  "\<exists>resp effs s' view. serve_admin demo_admin demo_conf (api_request ''POST'' ''/v1/opmode/commit'' []) staged_admin = (resp, effs, s') \<and>
     re_Status resp = 500 \<and> State (aw_op demo_admin) no_faults (ad_store s') (ad_fs s') = Inr view \<and> sv_Active view = Some host_change \<and>
     filter runs_nft effs = []"
proof -
  let ?r = "api_request ''POST'' ''/v1/opmode/commit'' []"
  let ?req = "\<lparr>cq_Actor = ''ops'', cq_ExpectedRevisionID = [], cq_OpsMode = ''apply''\<rparr>"
  obtain resp effs s' where x: "serve_admin demo_admin demo_conf ?r staged_admin = (resp, effs, s')" by (metis prod_cases3)
  have op: "oe_commit (aw_op demo_admin) = oe_commit demo_env1" "oe_audit (aw_op demo_admin) = oe_audit demo_env1"
    "oe_now (aw_op demo_admin) = 10 ^ 9" "oe_rand (aw_op demo_admin) = oe_rand demo_env1"
    "unmarshal (oe_revision (aw_op demo_admin)) d = Inr host_change" "marshal (oe_revision (aw_op demo_admin)) v = Inr ''R''" for d v
    by (simp_all add: demo_admin_def demo_env1_def)
  have s: "ad_store staged_admin = demo_store" "ad_fs staged_admin = demo_files" by (simp_all add: staged_admin_def)
  have h: "rv_RevisionID host_change = ''rev_1_00''" "getString (rv_Changes host_change) [''system'', ''host_name''] = ''gw''"
    by (simp add: host_change_def) code_simp
  have e: "ar_Method ?r = ''POST''" "ar_Path ?r = ''/v1/opmode/commit''" "aw_inCommit demo_admin (ar_Body ?r) = Inr ?req"
    "aw_faults demo_admin = no_faults" "ee_mock (aw_exec demo_admin) \<noteq> ''1''" "smooth (aw_exec demo_admin)"
    "\<forall>args. fst (aw_nft demo_admin args) = None" "commit_mode demo_admin demo_conf ?req = ''apply''"
    by (simp_all add: api_request_def demo_admin_def calm_env_def commit_mode_def smooth_def)
  have store: "store_ok (aw_op demo_admin) (ad_store staged_admin) (ad_fs staged_admin)"
    "as_staged (abs_of (aw_op demo_admin) (ad_store staged_admin) (ad_fs staged_admin)) = Some host_change"
    by (simp_all add: s store_ok_def abs_of_unfold op demo_files_def)
  have id: "newID (aw_op demo_admin) ''cmt'' = Inr ''cmt_1_00''"
    using demo_ids(2) by (simp add: newID_def op demo_env1_def)
  have cod: "audit_codec (aw_op demo_admin)" "rev_codec (aw_op demo_admin) host_change"
    "commit_codec (aw_op demo_admin) \<lparr>co_CommitID = ''cmt_1_00'', co_RevisionID = rv_RevisionID host_change,
        co_Actor = (if cq_Actor ?req = [] then ''unknown'' else cq_Actor ?req), co_Committed = oe_now (aw_op demo_admin)\<rparr>"
  proof -
    show "audit_codec (aw_op demo_admin)" using demo_codecs(3) by (simp add: audit_codec_def op)
    show "rev_codec (aw_op demo_admin) host_change" by (simp add: rev_codec_def op)
    have "\<lparr>co_CommitID = ''cmt_1_00'', co_RevisionID = rv_RevisionID host_change,
        co_Actor = (if cq_Actor ?req = [] then ''unknown'' else cq_Actor ?req), co_Committed = oe_now (aw_op demo_admin)\<rparr> = demo_record"
      by (simp add: op h demo_record_def)
    moreover have "commit_codec (aw_op demo_admin) demo_record" using demo_codecs(2) by (simp only: commit_codec_def op)
    ultimately show "commit_codec (aw_op demo_admin) \<lparr>co_CommitID = ''cmt_1_00'', co_RevisionID = rv_RevisionID host_change,
        co_Actor = (if cq_Actor ?req = [] then ''unknown'' else cq_Actor ?req), co_Committed = oe_now (aw_op demo_admin)\<rparr>"
      by (simp only:)
  qed
  have apart: "places_apart demo_conf (ad_store staged_admin)" unfolding s(1) by code_simp
  have "cq_ExpectedRevisionID ?req \<in> {[], rv_RevisionID host_change}" by simp
  from commit_end_to_end [OF e(1-4) store(1) id cod(1) store(2) cod(2,3) this e(5-7) apart x] show ?thesis
    using h(2) e(8) x by (auto simp: filter_empty_conv)
qed

end
