(* ===== verification/Spec2Isabelle.thy ===== *)
theory Spec2Isabelle
  imports Policy_Conflict Policy_Races Identity_Props Gateway_Runs Opmode_Props Enforcer_Runs Enforcer_Nft_Props
    Cmdmap_Props Ctl_Shell_Props Dns_Props Store_Props Service_Config Policy_Signing Admin_Commit
begin

text \<open>
  Verification of Clawgress, an egress gateway for software agents written in Go.

  \<^bold>\<open>The program.\<close> Agents send their outbound requests through the proxy of \<open>cmd/clawgress-gateway\<close>. It
  identifies the agent (\<open>internal/identity\<close>: a registry of API keys, or a signed token), charges the
  request to the agent's limits (\<open>internal/quota\<close>), asks the policy (\<open>internal/policy\<close>: an ordered list
  of rules, the first that applies decides, otherwise deny) and records the outcome
  (\<open>internal/audit\<close>). The three tables are files that \<open>cmd/clawgress-admin-api\<close> writes and that the
  gateway reads again on SIGHUP. The same API stages and commits the configuration of the appliance
  (\<open>internal/opmode\<close>), turns it into operations (\<open>internal/enforcer/opsplan.go\<close>), carries them out
  (\<open>ops_exec.go\<close>) and renders firewall rules and a DNS zone (\<open>nftables.go\<close>, \<open>policy_nft.go\<close>,
  \<open>transparent.go\<close>, \<open>internal/dns\<close>). \<open>cmd/clawgressctl\<close> edits the candidate configuration, checked
  against the command schema of \<open>internal/cmdmap\<close>, and calls the API. \<open>internal/store\<close> is a database
  alternative to the table files, \<open>internal/policy/signing.go\<close> signs rule lists,
  \<open>internal/config\<close> and \<open>internal/security\<close> hold service and TLS settings.

  \<^bold>\<open>The theories.\<close> A component has one theory with its types (a Go struct is a record whose field names
  carry a two-letter prefix), its operations under their Go names (with the receiver in front where two
  types share one) and its interpretations of the shared interfaces, and mostly a second one,
  \<open>_Props\<close> or \<open>_Runs\<close>, with what is proved.
  \<^item> \<open>Prelude\<close>: Go maps as association lists (the list order is the iteration order that Go leaves
    open), and the interfaces \<open>keyed_store\<close>, \<open>first_match\<close>, \<open>seen_loop\<close> and \<open>codec\<close>; \<open>Go_Strings\<close>,
    \<open>Go_Text\<close>, \<open>Go_Url\<close>: the functions of the standard library that are used; \<open>Go_Files\<close>: files,
    faults, and the interface \<open>atomic_file\<close> of the write-then-rename pattern; \<open>Json_Values\<close>: the
    values of an \<open>any\<close>; \<open>Base64\<close>, \<open>Float64\<close>: encodings and rounded arithmetic.
  \<^item> \<open>Policy_Engine\<close>, \<open>Policy_Props\<close> (engine.go), \<open>Policy_Conflict\<close> (conflict.go), \<open>Policy_Signing\<close>
    (signing.go), \<open>Policy_Races\<close> (Add, Remove and Save of engine.go as steps of threads over inodes,
    with every file operation of Save able to fail).
  \<^item> \<open>Identity_Registry\<close>, \<open>Identity_Jwt\<close>, \<open>Identity_Props\<close>; \<open>Quota\<close>, \<open>Quota_Props\<close>; \<open>Audit_Log\<close>,
    \<open>Audit_Props\<close> (log.go, query.go, validate.go).
  \<^item> \<open>Gateway\<close>, \<open>Gateway_Props\<close>, \<open>Gateway_Runs\<close>: the proxy, one request, and runs of requests and
    reloads.
  \<^item> \<open>Opmode_Store\<close>, \<open>Opmode_Props\<close> (store.go); \<open>Enforcer_Plan\<close> (opsplan.go), \<open>Enforcer_Exec\<close>
    (ops_exec.go), \<open>Enforcer_Props\<close>, \<open>Enforcer_Runs\<close>; \<open>Enforcer_Nft\<close>, \<open>Enforcer_Nft_Props\<close>
    (nftables.go, policy_nft.go, transparent.go); \<open>Dns_Rpz\<close>, \<open>Dns_Props\<close> (rpz.go).
  \<^item> \<open>Cmdmap\<close>, \<open>Cmdmap_Props\<close> (token_paths.go, catalog.go); \<open>Ctl_Config\<close>, \<open>Ctl_Shell\<close>, \<open>Ctl_Props\<close>,
    \<open>Ctl_Shell_Props\<close> (clawgressctl/main.go).
  \<^item> \<open>Admin_Api\<close> (clawgress-admin-api/main.go), \<open>Admin_Props\<close>, and with the components it drives
    \<open>Admin_Flows\<close> (gateway, registry, policy) and \<open>Admin_Commit\<close> (store, planner, executor, firewall).
  \<^item> \<open>Store_Sqlite\<close>, \<open>Store_Props\<close> (sqlite.go); \<open>Service_Config\<close> (config.go, mtls.go).

  \<^bold>\<open>How code becomes definitions.\<close> An operation takes the state and returns the new one; an error is the
  left side of a sum, or an \<open>error option\<close> next to the value where Go returns both. The gateway's
  handlers return the list of their effects in the order of the code. What the environment decides (file
  faults, the clock, random bytes, answers of upstreams, of the resolver, of commands, the state of a
  remote server) is an argument; so are the JSON codecs, the case tables outside of ASCII, HMAC and
  SHA-256, of which the proofs use only that decoding inverts encoding for the values at hand, stated as
  a hypothesis. Operations that run under a mutex are single steps. Where the code holds none, the
  interleavings are modelled (\<open>Policy_Races\<close>); an evaluation of the policy is one step because only the
  gateway evaluates, and it never changes the slice it reads (\<open>Policy_Engine\<close>). \<open>float64\<close> values are rationals, and every operation on
  them is rounded to 53 bits (\<open>Float64\<close>); the sequence number of request ids is a \<open>64 word\<close> and the
  zone serial a \<open>32 word\<close>.

  \<^bold>\<open>Bounds and termination.\<close> Loops are structural recursions over the lists they visit or carry a
  measure; nothing uses fuel. The accept loop and the signal loop of the processes are sequences of
  handler calls (\<open>Gateway_Runs\<close>, \<open>serve_all\<close>); the configure-mode loop runs over the lines of its input.

  \<^bold>\<open>What is shown.\<close> Policy: the decision is that of the first applicable rule, the exact language of the
  domain patterns, the listed spellings of a host decide alike, the conflict report is exact for rules
  that name their agent in lower-case patterns, files round trip, saves that exclude each other keep the
  file whole and current whatever is added, removed or fails around them, and overlapping ones do not. Identity: which
  tokens are accepted, signing and verifying, keys after upserts, deletions and reloads. Quota: the
  admitted requests of every window are bounded and service resumes. Audit: a query returns what was
  written. Gateway: when a request reaches an upstream, what every refusal answers and records, what
  leaves no record, budgets over runs (with what a reload in the window adds), and what a reload makes of
  each of the three tables. Commit store: refinement of a staged/active/history
  specification, failure behaviour. Enforcer: plans and rule files do not depend on map order, which
  plans can be applied, what a run reports. Zone: exactly the denied domains; deny rules without a domain, or for
  \<open>*\<close>, add nothing to it. Database: what a round trip
  keeps. Command line: set and show, the filter that reaches the API, tokens the gateway accepts. Admin
  API: reads are reads, table invariants, deletion revokes the key (not the bearer tokens) at the
  gateway, refused changes, shared keys, a commit from request to the active revision and the rules
  that are loaded or kept. Lemmas and theorems that show a defect or a limit of
  the code say so in their text.

  \<^bold>\<open>Not modelled.\<close> \<open>internal/metrics\<close> only declares Prometheus counters; the gateway's updates of them
  appear as effects. The embedded web UI is static files. The body copying of the proxy, TLS and HTTP
  themselves, the flag parser, the SQL engine, the resolver, \<open>nft\<close>, \<open>systemctl\<close> and the installer
  script are libraries or programs outside of the source. Directories are not represented in the file
  system beyond the success of \<open>MkdirAll\<close>, and a crash between two file operations appears as a fault
  of the later one. The progress spinner of the command line writes to standard error only.
\<close>

end
